theory Spec2Isabelle
  imports Main "HOL-Library.Signed_Division" "HOL-Library.Monad_Syntax"
begin

section \<open>The emoji list panel (chat\_helpers/emoji\_list\_widget.cpp)\<close>

text \<open>
  A shallow embedding of \<^verbatim>\<open>EmojiColorPicker\<close> and \<^verbatim>\<open>EmojiListWidget\<close>.
  The widget is single threaded: every member function is a function from the
  widget's state to its new state. A failed \<^verbatim>\<open>Expects\<close> terminates the process;
  a function that can reach one returns an \<open>option\<close> and \<open>None\<close> is that termination.

  Conventions.
  \<^item> C++ \<^verbatim>\<open>int\<close> is \<open>int\<close>; \<^verbatim>\<open>/\<close> and \<^verbatim>\<open>%\<close> truncate towards zero (\<open>sdiv\<close>, \<open>smod\<close>).
    Pixel and index arithmetic stays far from 32-bit limits and is not wrapped.
  \<^item> \<^verbatim>\<open>uint64\<close> set and document ids are only compared, never computed with: \<open>nat\<close>.
  \<^item> \<^verbatim>\<open>crl::time\<close> is a signed count of milliseconds: \<open>int\<close>.
  \<^item> \<^verbatim>\<open>base::flat_map\<close> is a vector of pairs ordered by key: an association list
    kept in key order. \<^verbatim>\<open>base::flat_set\<close> is a \<open>set\<close>.
  \<^item> A pointer to a \<^verbatim>\<open>CustomInstance\<close> owned by the registry \<^verbatim>\<open>_instances\<close>
    is the registry key of that entry, so that two sections holding the same
    pointer share one instance.
  \<^item> Names that clash with Isabelle keywords or HOL constants carry a prime:
    \<open>section'\<close>, \<open>top'\<close>, \<open>when'\<close>, \<open>id'\<close>, \<open>instance'\<close>.
\<close>

type_synonym crl_time = int
type_synonym QPoint = "int \<times> int"
type_synonym QSize = "int \<times> int"
type_synonym QRect = "int \<times> int \<times> int \<times> int"

definition kEmojiSectionCount :: int where
  \<comment> \<open>The footer holds one button per built-in section: eight of them.\<close>
  "kEmojiSectionCount = 8"

subsection \<open>Collaborators outside the file\<close>

text \<open>
  Modelled from the spec: \<^verbatim>\<open>Ui::Emoji::One\<close> (ui/emoji\_config.h) is not part of
  the sources at hand. The spec speaks of an item with variants, of its preferred
  variant stored per item family, and of the concrete variant that is chosen. An
  emoji is the family it belongs to (\<open>nonColoredId\<close>), the number of coloured
  variants of that family and its own index among them (0 is the uncoloured one).
\<close>

record One =
  nonColoredId :: string
  variantsCount :: nat
  variantIndex :: nat

definition hasVariants :: "One \<Rightarrow> bool" where
  "hasVariants emoji = (0 < variantsCount emoji)"

definition variant :: "One \<Rightarrow> int \<Rightarrow> One" where
  "variant emoji index =
     (if 0 \<le> index \<and> index \<le> int (variantsCount emoji)
      then emoji\<lparr>variantIndex := nat index\<rparr> else emoji)"

text \<open>
  \<^verbatim>\<open>DocumentData\<close>: the session owns one object per document id, so a pointer
  comparison is a comparison of these values. \<open>sticker\<close> is whether
  \<^verbatim>\<open>document->sticker()\<close> is non-null.
\<close>

record DocumentData =
  doc_id :: nat
  sticker :: bool

text \<open>
  Modelled from the spec: \<^verbatim>\<open>Ui::CustomEmoji::Instance\<close> and \<^verbatim>\<open>Object\<close>
  (ui/text/custom\_emoji\_instance.h) are not part of the sources at hand. The spec
  says a renderable instance carries decoded/animation state that painting
  establishes lazily and \<^verbatim>\<open>unload\<close> releases: \<open>loaded\<close>. \<open>repaintSetId\<close> is the
  \<^verbatim>\<open>setId\<close> captured by the two repaint closures given to the constructor in
  \<^verbatim>\<open>refreshCustom\<close>.
\<close>

record CustomInstance =
  loaded :: bool
  repaintSetId :: nat

definition object_unload :: "CustomInstance \<Rightarrow> CustomInstance" where
  "object_unload i = i\<lparr>loaded := False\<rparr>"

definition object_paint :: "CustomInstance \<Rightarrow> CustomInstance" where
  "object_paint i = i\<lparr>loaded := True\<rparr>"

text \<open>Style constants (styles/style\_chat\_helpers.h), taken as given.\<close>

record Style =
  emojiPanPadding :: int
  emojiPanHeader :: int
  emojiPanMargins :: "int \<times> int \<times> int \<times> int" \<comment> \<open>left, top, right, bottom\<close>
  emojiColorsPadding :: int
  emojiColorsSep :: int
  roundRadiusSmall :: int

definition margins_left :: "Style \<Rightarrow> int" where
  "margins_left s = fst (emojiPanMargins s)"
definition margins_top :: "Style \<Rightarrow> int" where
  "margins_top s = fst (snd (emojiPanMargins s))"
definition margins_right :: "Style \<Rightarrow> int" where
  "margins_right s = fst (snd (snd (emojiPanMargins s)))"
definition margins_bottom :: "Style \<Rightarrow> int" where
  "margins_bottom s = snd (snd (snd (emojiPanMargins s)))"

text \<open>
  \<^verbatim>\<open>Layout::IndexToPosition\<close> and \<^verbatim>\<open>Layout::PositionToIndex\<close>
  (layout/layout\_position.h) are not part of the sources at hand either. The widget's
  functions take them as a parameter. The widget applies \<^verbatim>\<open>IndexToPosition\<close> to
  indices that are not negative and reads the result as a section and an offset into
  it; the comparisons \<^verbatim>\<open>section < kEmojiSectionCount\<close> and \<^verbatim>\<open>sel < size()\<close> of
  the source are written with the lower bound 0 spelled out.
\<close>

record LayoutFns =
  IndexToPosition :: "int \<Rightarrow> int \<times> int"
  PositionToIndex :: "int \<Rightarrow> int \<Rightarrow> int"

subsection \<open>Data\<close>

record EmojiColorPicker =
  ignoreShow :: bool
  variants :: "One list"
  selectedP :: int       \<comment> \<open>\<^verbatim>\<open>_selected\<close>\<close>
  pressedSelP :: int     \<comment> \<open>\<^verbatim>\<open>_pressedSel\<close>\<close>
  lastMousePosP :: QPoint
  singleSizeP :: QSize
  hiding :: bool
  cache :: bool          \<comment> \<open>\<^verbatim>\<open>!_cache.isNull()\<close>\<close>
  a_opacity :: "(int \<times> int) option" \<comment> \<open>the running fade, from and to\<close>
  hidden :: bool         \<comment> \<open>\<^verbatim>\<open>isHidden()\<close>\<close>
  parentGlobal :: QPoint \<comment> \<open>global position of the parent widget\<close>
  pos :: QPoint          \<comment> \<open>position in the parent\<close>
  sizeP :: QSize
  updatesP :: "QRect list" \<comment> \<open>the \<^verbatim>\<open>update\<close> requests made so far\<close>

record CustomOne =
  instance' :: nat
  document :: DocumentData

record CustomSet =
  id' :: nat
  title :: string
  list :: "CustomOne list"
  painted :: bool

definition CustomSet_default :: CustomSet where
  \<comment> \<open>What \<^verbatim>\<open>base::take\<close> leaves behind: a value-initialised \<^verbatim>\<open>CustomSet\<close>.\<close>
  "CustomSet_default = \<lparr>id' = 0, title = [], list = [], painted = False\<rparr>"

record Repaint =
  when' :: crl_time
  ids :: "nat set"

record RepaintRequest =
  requestWhen :: crl_time   \<comment> \<open>\<^verbatim>\<open>request.when\<close>\<close>
  duration :: crl_time

record SectionInfo =
  section' :: int
  count :: int
  top' :: int
  rowsCount :: int
  rowsTop :: int
  rowsBottom :: int

definition SectionInfo_default :: SectionInfo where
  "SectionInfo_default =
     \<lparr>section' = 0, count = 0, top' = 0, rowsCount = 0, rowsTop = 0, rowsBottom = 0\<rparr>"

record EmojiListWidget =
  st :: Style
  rtl :: bool
  globalPos :: QPoint          \<comment> \<open>global position of the widget\<close>
  width :: int
  visibleTop :: int
  visibleBottom :: int
  footer :: "int option"       \<comment> \<open>the footer's current section icon, when there is a footer\<close>
  columnCount :: int
  rowsLeft :: int
  singleSize :: QSize
  counts :: "nat \<Rightarrow> int"       \<comment> \<open>read at \<open>0..<kEmojiSectionCount\<close> only\<close>
  emoji :: "nat \<Rightarrow> One list"
  custom :: "CustomSet list"
  instances :: "(nat \<times> CustomInstance) list"
  repaints :: "(crl_time \<times> Repaint) list"
  repaintTimerScheduled :: bool
  repaintNext :: crl_time
  repaintTimer :: "crl_time option"   \<comment> \<open>when armed, the time it fires\<close>
  selected :: int
  pressedSel :: int
  pickerSel :: int
  lastMousePos :: QPoint
  showPickerTimer :: "int option"     \<comment> \<open>when armed, its delay\<close>
  picker :: EmojiColorPicker
  scrollDisabled :: bool
  pickerPlaceX :: "int \<Rightarrow> int \<Rightarrow> int \<Rightarrow> bool \<Rightarrow> int"
    \<comment> \<open>\<^verbatim>\<open>qRound(xmax * coef)\<close> of \<^verbatim>\<open>showPicker\<close>, computed in floating point:
        taken as given, from \<open>xmax\<close>, \<open>sel % _columnCount\<close>, \<open>_columnCount\<close> and \<open>rtl()\<close>\<close>
  emojiVariants :: "string \<rightharpoonup> nat"   \<comment> \<open>\<^verbatim>\<open>Core::App().settings().emojiVariants()\<close>\<close>
  recentLog :: "One list"             \<comment> \<open>the calls of \<^verbatim>\<open>incrementRecentEmoji\<close>\<close>
  chosenLog :: "One list"             \<comment> \<open>what \<^verbatim>\<open>_chosen\<close> fired\<close>
  customChosenLog :: "DocumentData list"
  updates :: "QRect list"             \<comment> \<open>the \<^verbatim>\<open>update\<close> requests made so far\<close>

subsection \<open>flat\_map\<close>

fun fm_find :: "'k \<Rightarrow> ('k \<times> 'v) list \<Rightarrow> 'v option" where
  "fm_find k [] = None"
| "fm_find k ((k', v) # rest) = (if k = k' then Some v else fm_find k rest)"

fun fm_insert :: "'k::linorder \<Rightarrow> 'v \<Rightarrow> ('k \<times> 'v) list \<Rightarrow> ('k \<times> 'v) list" where
  "fm_insert k v [] = [(k, v)]"
| "fm_insert k v ((k', v') # rest) =
     (if k < k' then (k, v) # (k', v') # rest else (k', v') # fm_insert k v rest)"

definition fm_emplace :: "'k::linorder \<Rightarrow> 'v \<Rightarrow> ('k \<times> 'v) list \<Rightarrow> ('k \<times> 'v) list" where
  \<comment> \<open>an existing entry is kept; a new one goes in at its place in key order\<close>
  "fm_emplace k v m = (case fm_find k m of None \<Rightarrow> fm_insert k v m | Some v' \<Rightarrow> m)"

fun fm_modify :: "'k \<Rightarrow> ('v \<Rightarrow> 'v) \<Rightarrow> ('k \<times> 'v) list \<Rightarrow> ('k \<times> 'v) list" where
  \<comment> \<open>a write through a reference to the entry of \<open>k\<close>\<close>
  "fm_modify k f [] = []"
| "fm_modify k f ((k', v) # rest) =
     (if k = k' then (k', f v) # rest else (k', v) # fm_modify k f rest)"

subsection \<open>Sections\<close>

definition sectionsCount :: "EmojiListWidget \<Rightarrow> int" where
  "sectionsCount w = kEmojiSectionCount + int (length (custom w))"

definition section_counts :: "EmojiListWidget \<Rightarrow> int list" where
  \<comment> \<open>the counts the two loops of \<^verbatim>\<open>enumerateSections\<close> read, in order\<close>
  "section_counts w =
     map (counts w) [0..<nat kEmojiSectionCount]
     @ map (\<lambda>section. int (length (list section))) (custom w)"

definition next_info :: "EmojiListWidget \<Rightarrow> int \<Rightarrow> int \<Rightarrow> int \<Rightarrow> SectionInfo" where
  \<comment> \<open>the lambda \<^verbatim>\<open>next\<close>, up to the call of the callback\<close>
  "next_info w i tp cnt =
     (let rc = (cnt + columnCount w - 1) sdiv columnCount w;
          rt = tp + (if i = 0 then emojiPanPadding (st w) else emojiPanHeader (st w))
      in \<lparr>section' = i, count = cnt, top' = tp, rowsCount = rc, rowsTop = rt,
          rowsBottom = rt + rc * snd (singleSize w)\<rparr>)"

fun enumerate_from ::
  "EmojiListWidget \<Rightarrow> int \<Rightarrow> int \<Rightarrow> int list \<Rightarrow> (SectionInfo \<Rightarrow> 'a \<Rightarrow> bool \<times> 'a) \<Rightarrow> 'a
    \<Rightarrow> bool \<times> 'a" where
  "enumerate_from w i tp [] callback a = (True, a)"
| "enumerate_from w i tp (cnt # rest) callback a =
     (let info = next_info w i tp cnt;
          (continue, a') = callback info a
      in if \<not> continue then (False, a')
         else enumerate_from w (i + 1) (rowsBottom info) rest callback a')"

definition enumerateSections ::
  "EmojiListWidget \<Rightarrow> (SectionInfo \<Rightarrow> 'a \<Rightarrow> bool \<times> 'a) \<Rightarrow> 'a \<Rightarrow> (bool \<times> 'a) option" where
  \<comment> \<open>\<open>'a\<close> is what the callback captures by reference. No callback of the file
      changes a count or the length of a list, so the counts are read up front.\<close>
  "enumerateSections w callback a =
     (if columnCount w > 0
      then Some (enumerate_from w 0 0 (section_counts w) callback a)
      else None)"

definition sectionInfo :: "EmojiListWidget \<Rightarrow> int \<Rightarrow> SectionInfo option" where
  "sectionInfo w section =
     (if section \<ge> 0 \<and> section < sectionsCount w
      then map_option snd
        (enumerateSections w
          (\<lambda>info result. if section' info = section then (False, info) else (True, result))
          SectionInfo_default)
      else None)"

definition sectionInfoByOffset :: "EmojiListWidget \<Rightarrow> int \<Rightarrow> SectionInfo option" where
  "sectionInfoByOffset w yOffset =
     (let count = sectionsCount w in
      map_option snd
        (enumerateSections w
          (\<lambda>info result.
             if yOffset < rowsBottom info \<or> section' info = count - 1
             then (False, info) else (True, result))
          SectionInfo_default))"

definition customAt :: "EmojiListWidget \<Rightarrow> int \<Rightarrow> CustomSet" where
  \<comment> \<open>\<^verbatim>\<open>_custom[section - kEmojiSectionCount]\<close>, for a section that
      \<^verbatim>\<open>enumerateSections\<close> numbered from \<^verbatim>\<open>_custom\<close> itself\<close>
  "customAt w section = custom w ! nat (section - kEmojiSectionCount)"

definition update :: "QRect \<Rightarrow> EmojiListWidget \<Rightarrow> EmojiListWidget" where
  "update r w = w\<lparr>updates := updates w @ [r]\<rparr>"

subsection \<open>The repaint coalescer\<close>

definition repaintCustom ::
  "(nat \<Rightarrow> bool) \<Rightarrow> EmojiListWidget \<Rightarrow> EmojiListWidget option" where
  "repaintCustom checkId w =
     map_option snd
       (enumerateSections w
         (\<lambda>info w'.
            if section' info \<ge> kEmojiSectionCount \<and> checkId (id' (customAt w' (section' info)))
            then (True, update (0, rowsTop info, width w', rowsBottom info - rowsTop info) w')
            else (True, w'))
         w)"

definition scheduleRepaintTimer :: "EmojiListWidget \<Rightarrow> EmojiListWidget" where
  \<comment> \<open>\<^verbatim>\<open>Ui::PostponeCall\<close> queues the lambda; \<open>repaintTimerScheduled\<close> is set exactly
      while one is queued, and \<open>scheduleRepaintTimer_postponed\<close> is its run.\<close>
  "scheduleRepaintTimer w =
     (if repaintTimerScheduled w then w else w\<lparr>repaintTimerScheduled := True\<rparr>)"

fun invokeRepaints_loop ::
  "crl_time \<Rightarrow> (crl_time \<times> Repaint) list \<Rightarrow> nat set \<Rightarrow> (crl_time \<times> Repaint) list \<times> nat set"
  where
  "invokeRepaints_loop now [] acc = ([], acc)"
| "invokeRepaints_loop now ((d, r) # rest) acc =
     (if when' r > now
      then (let (rest', acc') = invokeRepaints_loop now rest acc in ((d, r) # rest', acc'))
      else invokeRepaints_loop now rest (if acc = {} then ids r else acc \<union> ids r))"

definition invokeRepaints :: "crl_time \<Rightarrow> EmojiListWidget \<Rightarrow> EmojiListWidget option" where
  "invokeRepaints now w =
     (let w1 = w\<lparr>repaintNext := 0\<rparr>;
          (left, fired) = invokeRepaints_loop now (repaints w1) {};
          w2 = w1\<lparr>repaints := left\<rparr>
      in map_option scheduleRepaintTimer (repaintCustom (\<lambda>id. id \<in> fired) w2))"

definition repaints_next :: "(crl_time \<times> Repaint) list \<Rightarrow> crl_time" where
  \<comment> \<open>the loop over \<^verbatim>\<open>_repaints\<close> in the postponed lambda\<close>
  "repaints_next rs =
     fold (\<lambda>(duration, bunch) next. if next = 0 \<or> next > when' bunch then when' bunch else next)
       rs 0"

definition scheduleRepaintTimer_postponed ::
  "crl_time \<Rightarrow> crl_time \<Rightarrow> EmojiListWidget \<Rightarrow> EmojiListWidget option" where
  \<comment> \<open>\<open>now\<close> is what \<^verbatim>\<open>crl::now()\<close> returns in the lambda, \<open>now'\<close> what it returns in
      the \<^verbatim>\<open>invokeRepaints\<close> the lambda calls.\<close>
  "scheduleRepaintTimer_postponed now now' w =
     (let w1 = w\<lparr>repaintTimerScheduled := False\<rparr>;
          next = repaints_next (repaints w1)
      in if next \<noteq> 0 \<and> (repaintNext w1 = 0 \<or> repaintNext w1 > next)
         then (if now \<ge> next
               then invokeRepaints now' (w1\<lparr>repaintNext := 0, repaintTimer := None\<rparr>)
               else Some (w1\<lparr>repaintNext := next, repaintTimer := Some (now + (next - now))\<rparr>))
         else Some w1)"

definition repaintTimer_fired :: "crl_time \<Rightarrow> EmojiListWidget \<Rightarrow> EmojiListWidget option" where
  \<comment> \<open>the timer's callback: the timer is no longer armed\<close>
  "repaintTimer_fired now w = invokeRepaints now (w\<lparr>repaintTimer := None\<rparr>)"

definition Repaint_default :: Repaint where
  "Repaint_default = \<lparr>when' = 0, ids = {}\<rparr>"

definition repaintLater :: "nat \<Rightarrow> RepaintRequest \<Rightarrow> EmojiListWidget \<Rightarrow> EmojiListWidget" where
  "repaintLater setId request w =
     (if instances w = [] then w
      else scheduleRepaintTimer
        (w\<lparr>repaints :=
            fm_modify (duration request)
              (\<lambda>repaint.
                 (if when' repaint < requestWhen request
                  then repaint\<lparr>when' := requestWhen request\<rparr> else repaint)
                 \<lparr>ids := insert setId (ids repaint)\<rparr>)
              (fm_emplace (duration request) Repaint_default (repaints w))\<rparr>))"

subsection \<open>The viewport virtualizer\<close>

definition unloadNotSeenCustom :: "int \<Rightarrow> int \<Rightarrow> EmojiListWidget \<Rightarrow> EmojiListWidget option" where
  "unloadNotSeenCustom visibleTop' visibleBottom' w =
     map_option snd
       (enumerateSections w
         (\<lambda>info w'.
            if section' info < kEmojiSectionCount
               \<or> (rowsBottom info > visibleTop' \<and> rowsTop info < visibleBottom')
            then (True, w')
            else (let custom' = customAt w' (section' info) in
              if \<not> painted custom' then (True, w')
              else (True,
                w'\<lparr>custom := (custom w')[nat (section' info - kEmojiSectionCount) :=
                                  custom'\<lparr>painted := False\<rparr>],
                   instances := fold (\<lambda>single. fm_modify (instance' single) object_unload)
                                  (list custom') (instances w')\<rparr>)))
         w)"

definition currentSection :: "EmojiListWidget \<Rightarrow> int \<Rightarrow> int option" where
  "currentSection w yOffset = map_option section' (sectionInfoByOffset w yOffset)"

definition visibleTopBottomUpdated ::
  "int \<Rightarrow> int \<Rightarrow> EmojiListWidget \<Rightarrow> EmojiListWidget option" where
  "visibleTopBottomUpdated visibleTop' visibleBottom' w =
     do {
       let w1 = w\<lparr>visibleTop := visibleTop', visibleBottom := visibleBottom'\<rparr>;
       w2 \<leftarrow> (if footer w1 \<noteq> None
              then map_option (\<lambda>section. w1\<lparr>footer := Some section\<rparr>)
                     (currentSection w1 visibleTop')
              else Some w1);
       unloadNotSeenCustom visibleTop' visibleBottom' w2
     }"

definition item_at :: "'a list \<Rightarrow> int \<Rightarrow> 'a option" where
  \<comment> \<open>\<^verbatim>\<open>v[i]\<close>; \<open>None\<close> past the end\<close>
  "item_at xs i = (if 0 \<le> i \<and> i < int (length xs) then Some (xs ! nat i) else None)"

definition drawCustom :: "int \<Rightarrow> int \<Rightarrow> EmojiListWidget \<Rightarrow> EmojiListWidget option" where
  "drawCustom set' index w =
     do {
       custom' \<leftarrow> item_at (custom w) set';
       single \<leftarrow> item_at (list custom') index;
       Some (w\<lparr>custom := (custom w)[nat set' := custom'\<lparr>painted := True\<rparr>],
               instances := fm_modify (instance' single) object_paint (instances w)\<rparr>)
     }"

subsection \<open>Refreshing the custom sets\<close>

text \<open>
  \<^verbatim>\<open>Data::StickersSet\<close>, as far as \<^verbatim>\<open>refreshCustom\<close> reads it: the title and the
  documents. \<open>order\<close> is \<^verbatim>\<open>emojiSetsOrder()\<close> and \<open>sets\<close> is the map \<^verbatim>\<open>sets()\<close>.
\<close>

record StickersSet =
  set_title :: string
  stickers :: "DocumentData list"

fun find_id :: "nat \<Rightarrow> CustomSet list \<Rightarrow> nat option" where
  \<comment> \<open>\<^verbatim>\<open>ranges::find(old, setId, &CustomSet::id)\<close>: where the first match is\<close>
  "find_id setId [] = None"
| "find_id setId (c # rest) =
     (if id' c = setId then Some 0 else map_option Suc (find_id setId rest))"

definition valid :: "CustomSet \<Rightarrow> DocumentData list \<Rightarrow> bool" where
  \<comment> \<open>the lambda \<^verbatim>\<open>valid\<close>: the same length, and the same document at every place\<close>
  "valid i list' =
     (length (list i) = length list'
      \<and> (\<forall>k < length list'. document (list i ! k) = list' ! k))"

definition new_instance :: "nat \<Rightarrow> CustomInstance" where
  \<comment> \<open>a \<^verbatim>\<open>CustomInstance\<close> made with a loader: nothing decoded yet, and the two
      closures repaint the set \<open>setId\<close>\<close>
  "new_instance setId = \<lparr>loaded = False, repaintSetId = setId\<rparr>"

fun refreshCustom_set ::
  "nat \<Rightarrow> DocumentData list \<Rightarrow> (nat \<times> CustomInstance) list \<Rightarrow> CustomOne list
    \<Rightarrow> (nat \<times> CustomInstance) list \<times> CustomOne list" where
  \<comment> \<open>the loop \<^verbatim>\<open>for (const auto document : list)\<close>\<close>
  "refreshCustom_set setId [] instances' set' = (instances', set')"
| "refreshCustom_set setId (document' # rest) instances' set' =
     (if sticker document'
      then (let instances'' = fm_emplace (doc_id document') (new_instance setId) instances'
            in refreshCustom_set setId rest instances''
                 (set' @ [\<lparr>instance' = doc_id document', document = document'\<rparr>]))
      else refreshCustom_set setId rest instances' set')"

fun refreshCustom_loop ::
  "(nat \<rightharpoonup> StickersSet) \<Rightarrow> nat list \<Rightarrow> CustomSet list \<Rightarrow> EmojiListWidget \<Rightarrow> EmojiListWidget"
  where
  \<comment> \<open>the loop \<^verbatim>\<open>for (const auto setId : order)\<close>, with the local \<open>old\<close>\<close>
  "refreshCustom_loop sets [] old w = w"
| "refreshCustom_loop sets (setId # order) old w =
     (case sets setId of
        None \<Rightarrow> refreshCustom_loop sets order old w
      | Some it \<Rightarrow>
          if stickers it = [] then refreshCustom_loop sets order old w
          else (case find_id setId old of
              Some i \<Rightarrow>
                if valid (old ! i) (stickers it)
                then refreshCustom_loop sets order (old[i := CustomSet_default])
                       (w\<lparr>custom := custom w @ [old ! i]\<rparr>)
                else (let (instances', set') =
                            refreshCustom_set setId (stickers it) (instances w) []
                      in refreshCustom_loop sets order old
                           (w\<lparr>instances := instances',
                              custom := custom w @
                                [\<lparr>id' = setId, title = set_title it, list = set',
                                  painted = False\<rparr>]\<rparr>))
            | None \<Rightarrow>
                (let (instances', set') =
                       refreshCustom_set setId (stickers it) (instances w) []
                 in refreshCustom_loop sets order old
                      (w\<lparr>instances := instances',
                         custom := custom w @
                           [\<lparr>id' = setId, title = set_title it, list = set',
                             painted = False\<rparr>]\<rparr>))))"

definition refreshCustom ::
  "nat list \<Rightarrow> (nat \<rightharpoonup> StickersSet) \<Rightarrow> EmojiListWidget \<Rightarrow> EmojiListWidget" where
  "refreshCustom order sets w = refreshCustom_loop sets order (custom w) (w\<lparr>custom := []\<rparr>)"

subsection \<open>The colour picker\<close>

text \<open>
  The picker's functions read two things of their surroundings: the style and the
  layout direction \<^verbatim>\<open>rtl()\<close>. Requests to change the cursor are left out.
\<close>

definition mapFromGlobalP :: "EmojiColorPicker \<Rightarrow> QPoint \<Rightarrow> QPoint" where
  "mapFromGlobalP p g =
     (fst g - (fst (parentGlobal p) + fst (pos p)), snd g - (snd (parentGlobal p) + snd (pos p)))"

definition mapToGlobalP :: "EmojiColorPicker \<Rightarrow> QPoint \<Rightarrow> QPoint" where
  "mapToGlobalP p l =
     (fst l + (fst (parentGlobal p) + fst (pos p)), snd l + (snd (parentGlobal p) + snd (pos p)))"

definition rect_contains :: "QSize \<Rightarrow> QPoint \<Rightarrow> bool" where
  \<comment> \<open>\<^verbatim>\<open>rect().contains(p)\<close> for the rectangle of a widget of this size\<close>
  "rect_contains sz p = (0 \<le> fst p \<and> fst p < fst sz \<and> 0 \<le> snd p \<and> snd p < snd sz)"

definition updateP :: "QRect \<Rightarrow> EmojiColorPicker \<Rightarrow> EmojiColorPicker" where
  "updateP r p = p\<lparr>updatesP := updatesP p @ [r]\<rparr>"

definition rtlupdateP :: "bool \<Rightarrow> QRect \<Rightarrow> EmojiColorPicker \<Rightarrow> EmojiColorPicker" where
  "rtlupdateP rtl' r p =
     (case r of (x, y, w, h) \<Rightarrow>
        updateP (if rtl' then (fst (sizeP p) - x - w, y, w, h) else (x, y, w, h)) p)"

definition updateSelectedRectP :: "Style \<Rightarrow> bool \<Rightarrow> EmojiColorPicker \<Rightarrow> EmojiColorPicker" where
  \<comment> \<open>the lambda \<^verbatim>\<open>updateSelectedRect\<close> of \<^verbatim>\<open>setSelected\<close>\<close>
  "updateSelectedRectP s rtl' p =
     (if selectedP p < 0 then p
      else (let addedSkip = (if selectedP p > 0
                             then 2 * emojiColorsPadding s + emojiColorsSep s else 0);
                left = margins_left s + emojiColorsPadding s
                         + selectedP p * fst (singleSizeP p) + addedSkip
            in rtlupdateP rtl'
                 (left, margins_top s + emojiColorsPadding s,
                  fst (singleSizeP p), snd (singleSizeP p)) p))"

definition setSelectedP ::
  "Style \<Rightarrow> bool \<Rightarrow> int \<Rightarrow> EmojiColorPicker \<Rightarrow> EmojiColorPicker" where
  "setSelectedP s rtl' newSelected p =
     (if selectedP p = newSelected then p
      else updateSelectedRectP s rtl'
             ((updateSelectedRectP s rtl' p)\<lparr>selectedP := newSelected\<rparr>))"

definition newSelectedP :: "Style \<Rightarrow> bool \<Rightarrow> EmojiColorPicker \<Rightarrow> int" where
  \<comment> \<open>what \<^verbatim>\<open>EmojiColorPicker::updateSelected\<close> computes before \<^verbatim>\<open>setSelected\<close>\<close>
  "newSelectedP s rtl' p =
     (let (px, py) = mapFromGlobalP p (lastMousePosP p);
          sx = (if rtl' then fst (sizeP p) - px else px);
          y = py - margins_top s - emojiColorsPadding s
      in if y \<ge> 0 \<and> y < snd (singleSizeP p)
         then (let x = sx - margins_left s - emojiColorsPadding s
               in if x \<ge> 0 \<and> x < fst (singleSizeP p) then 0
                  else (let x' = x - (fst (singleSizeP p) + 2 * emojiColorsPadding s
                                        + emojiColorsSep s)
                        in if x' \<ge> 0
                              \<and> x' < fst (singleSizeP p) * (int (length (variants p)) - 1)
                           then (x' sdiv fst (singleSizeP p)) + 1
                           else -1))
         else -1)"

definition updateSelectedP :: "Style \<Rightarrow> bool \<Rightarrow> EmojiColorPicker \<Rightarrow> EmojiColorPicker" where
  "updateSelectedP s rtl' p = setSelectedP s rtl' (newSelectedP s rtl' p) p"

definition clearSelectionP :: "Style \<Rightarrow> bool \<Rightarrow> EmojiColorPicker \<Rightarrow> EmojiColorPicker" where
  "clearSelectionP s rtl' p =
     (let p1 = setSelectedP s rtl' (-1) (p\<lparr>pressedSelP := -1\<rparr>)
      in p1\<lparr>lastMousePosP := mapToGlobalP p1 (-10, -10)\<rparr>)"

definition hideAnimatedP :: "Style \<Rightarrow> bool \<Rightarrow> EmojiColorPicker \<Rightarrow> EmojiColorPicker" where
  "hideAnimatedP s rtl' p =
     (let p1 = (if \<not> cache p then clearSelectionP s rtl' (p\<lparr>cache := True\<rparr>) else p)
      in p1\<lparr>hiding := True, a_opacity := Some (1, 0)\<rparr>)"

definition showAnimatedP :: "Style \<Rightarrow> bool \<Rightarrow> EmojiColorPicker \<Rightarrow> EmojiColorPicker" where
  "showAnimatedP s rtl' p =
     (if ignoreShow p then p
      else if \<not> hidden p \<and> \<not> hiding p then p
      else (let p1 = p\<lparr>hiding := False\<rparr>;
                p2 = (if \<not> cache p1 then clearSelectionP s rtl' (p1\<lparr>cache := True\<rparr>) else p1)
            in p2\<lparr>hidden := False, a_opacity := Some (0, 1)\<rparr>))"

definition updateSizeP :: "Style \<Rightarrow> bool \<Rightarrow> EmojiColorPicker \<Rightarrow> EmojiColorPicker" where
  "updateSizeP s rtl' p =
     (let n = int (length (variants p));
          width' = margins_left s + fst (singleSizeP p) * n
                     + (n - 2) * emojiColorsPadding s + emojiColorsSep s + margins_right s;
          height' = margins_top s + 2 * emojiColorsPadding s + snd (singleSizeP p)
                     + margins_bottom s
      in updateSelectedP s rtl' (updateP (0, 0, width', height') (p\<lparr>sizeP := (width', height')\<rparr>)))"

definition showEmojiP :: "Style \<Rightarrow> bool \<Rightarrow> One \<Rightarrow> EmojiColorPicker \<Rightarrow> EmojiColorPicker" where
  "showEmojiP s rtl' emoji' p =
     (if \<not> hasVariants emoji' then p
      else (let p1 = p\<lparr>ignoreShow := False,
                       variants := map (\<lambda>i. variant emoji' (int i))
                                     [0..<variantsCount emoji' + 1]\<rparr>;
                p2 = updateSizeP s rtl' p1;
                p3 = (if cache p2 then p2\<lparr>cache := False\<rparr> else p2)
            in showAnimatedP s rtl' p3))"

definition handleMouseMoveP ::
  "Style \<Rightarrow> bool \<Rightarrow> QPoint \<Rightarrow> EmojiColorPicker \<Rightarrow> EmojiColorPicker" where
  "handleMouseMoveP s rtl' globalPos' p = updateSelectedP s rtl' (p\<lparr>lastMousePosP := globalPos'\<rparr>)"

definition mousePressEventP ::
  "Style \<Rightarrow> bool \<Rightarrow> QPoint \<Rightarrow> bool \<Rightarrow> EmojiColorPicker \<Rightarrow> EmojiColorPicker" where
  \<comment> \<open>\<^verbatim>\<open>EmojiColorPicker::mousePressEvent\<close>; \<open>leftButton\<close> is
      \<^verbatim>\<open>e->button() == Qt::LeftButton\<close>\<close>
  "mousePressEventP s rtl' globalPos' leftButton p =
     (if \<not> leftButton then p
      else (let p1 = updateSelectedP s rtl' (p\<lparr>lastMousePosP := globalPos'\<rparr>)
            in p1\<lparr>pressedSelP := selectedP p1\<rparr>))"

subsection \<open>Selection, press and release\<close>

text \<open>
  Requests to change the cursor or to show the tooltip are left out. The persistent
  settings are the map \<open>emojiVariants\<close> and the log of \<^verbatim>\<open>incrementRecentEmoji\<close> calls.
  Modelled from the spec: \<^verbatim>\<open>saveEmojiVariant\<close> (core/core\_settings.h) is not part of
  the sources at hand; by the spec it persists the chosen variant as the preferred
  variant of the item's family.
\<close>

definition saveEmojiVariant :: "One \<Rightarrow> EmojiListWidget \<Rightarrow> EmojiListWidget" where
  "saveEmojiVariant emoji' w =
     w\<lparr>emojiVariants := (emojiVariants w)(nonColoredId emoji' \<mapsto> variantIndex emoji')\<rparr>"

definition mapFromGlobal :: "EmojiListWidget \<Rightarrow> QPoint \<Rightarrow> QPoint" where
  "mapFromGlobal w g = (fst g - fst (globalPos w), snd g - snd (globalPos w))"

definition mapToGlobal :: "EmojiListWidget \<Rightarrow> QPoint \<Rightarrow> QPoint" where
  "mapToGlobal w l = (fst l + fst (globalPos w), snd l + snd (globalPos w))"

definition rtlupdate :: "QRect \<Rightarrow> EmojiListWidget \<Rightarrow> EmojiListWidget" where
  "rtlupdate r w =
     (case r of (x, y, wd, h) \<Rightarrow>
        update (if rtl w then (width w - x - wd, y, wd, h) else (x, y, wd, h)) w)"

definition emojiRect :: "EmojiListWidget \<Rightarrow> int \<Rightarrow> int \<Rightarrow> QRect option" where
  "emojiRect w section sel =
     (if columnCount w > 0
      then do {
        info \<leftarrow> sectionInfo w section;
        let countTillItem = sel - (sel smod columnCount w);
        let rowsToSkip = (countTillItem sdiv columnCount w)
                          + (if countTillItem smod columnCount w \<noteq> 0 then 1 else 0);
        let x = rowsLeft w + ((sel smod columnCount w) * fst (singleSize w));
        let y = rowsTop info + rowsToSkip * snd (singleSize w);
        Some (x, y, fst (singleSize w), snd (singleSize w))
      }
      else None)"

definition emojiAt :: "EmojiListWidget \<Rightarrow> int \<Rightarrow> int \<Rightarrow> One option" where
  \<comment> \<open>\<^verbatim>\<open>_emoji[section][sel]\<close> under the guard
      \<^verbatim>\<open>section < kEmojiSectionCount && sel < _emoji[section].size()\<close>\<close>
  "emojiAt w section sel =
     (if 0 \<le> section \<and> section < kEmojiSectionCount
      then item_at (emoji w (nat section)) sel else None)"

definition selectEmoji :: "One \<Rightarrow> EmojiListWidget \<Rightarrow> EmojiListWidget" where
  "selectEmoji emoji' w =
     w\<lparr>recentLog := recentLog w @ [emoji'], chosenLog := chosenLog w @ [emoji']\<rparr>"

definition selectCustom :: "DocumentData \<Rightarrow> EmojiListWidget \<Rightarrow> EmojiListWidget" where
  "selectCustom document' w = w\<lparr>customChosenLog := customChosenLog w @ [document']\<rparr>"

definition updateSelectedRect :: "LayoutFns \<Rightarrow> EmojiListWidget \<Rightarrow> EmojiListWidget option" where
  \<comment> \<open>the lambda \<^verbatim>\<open>updateSelected\<close> of \<^verbatim>\<open>setSelected\<close>\<close>
  "updateSelectedRect L w =
     (if selected w < 0 then Some w
      else (let (section, sel) = IndexToPosition L (selected w)
            in map_option (\<lambda>r. rtlupdate r w) (emojiRect w section sel)))"

definition setSelected :: "LayoutFns \<Rightarrow> int \<Rightarrow> EmojiListWidget \<Rightarrow> EmojiListWidget option" where
  "setSelected L newSelected w =
     (if selected w = newSelected then Some w
      else do {
        w1 \<leftarrow> updateSelectedRect L w;
        w2 \<leftarrow> updateSelectedRect L (w1\<lparr>selected := newSelected\<rparr>);
        Some (if selected w2 \<ge> 0 \<and> \<not> hidden (picker w2)
              then (if selected w2 \<noteq> pickerSel w2
                    then w2\<lparr>picker := hideAnimatedP (st w2) (rtl w2) (picker w2)\<rparr>
                    else w2\<lparr>picker := showAnimatedP (st w2) (rtl w2) (picker w2)\<rparr>)
              else w2)
      })"

definition newSelectedAt :: "LayoutFns \<Rightarrow> EmojiListWidget \<Rightarrow> QPoint \<Rightarrow> SectionInfo \<Rightarrow> int" where
  \<comment> \<open>what \<^verbatim>\<open>EmojiListWidget::updateSelected\<close> computes from \<open>p\<close> and \<open>info\<close>
      before \<^verbatim>\<open>setSelected\<close>\<close>
  "newSelectedAt L w p info =
     (if snd p \<ge> rowsTop info \<and> snd p < rowsBottom info
      then (let sx = (if rtl w then width w - fst p else fst p) - rowsLeft w
            in if sx \<ge> 0 \<and> sx < columnCount w * fst (singleSize w)
               then (let newSelected =
                           ((snd p - rowsTop info) sdiv snd (singleSize w)) * columnCount w
                           + (sx sdiv fst (singleSize w))
                     in if newSelected \<ge> count info then -1
                        else newSelected + PositionToIndex L (section' info) 0)
               else -1)
      else -1)"

definition updateSelected :: "LayoutFns \<Rightarrow> EmojiListWidget \<Rightarrow> EmojiListWidget option" where
  "updateSelected L w =
     (if pressedSel w \<ge> 0 \<or> pickerSel w \<ge> 0 then Some w
      else do {
        let p = mapFromGlobal w (lastMousePos w);
        info \<leftarrow> sectionInfoByOffset w (snd p);
        setSelected L (newSelectedAt L w p info) w
      })"

definition checkPickerHide ::
  "LayoutFns \<Rightarrow> EmojiListWidget \<Rightarrow> (bool \<times> EmojiListWidget) option" where
  "checkPickerHide L w =
     (if \<not> hidden (picker w) \<and> pickerSel w \<ge> 0
      then map_option (Pair True)
             (updateSelected L
               (w\<lparr>picker := hideAnimatedP (st w) (rtl w) (picker w), pickerSel := -1\<rparr>))
      else Some (False, w))"

definition showPicker :: "LayoutFns \<Rightarrow> EmojiListWidget \<Rightarrow> EmojiListWidget option" where
  "showPicker L w =
     (if pickerSel w < 0 then Some w
      else (let (section, sel) = IndexToPosition L (pickerSel w)
            in case emojiAt w section sel of
                 None \<Rightarrow> Some w
               | Some emoji' \<Rightarrow>
                   if \<not> hasVariants emoji' then Some w
                   else do {
                     let p1 = showEmojiP (st w) (rtl w) emoji' (picker w);
                     rect \<leftarrow> emojiRect w section sel;
                     let y0 = fst (snd rect)
                               - (snd (sizeP p1) - roundRadiusSmall (st w) + visibleTop w);
                     let y = (if y0 < emojiPanHeader (st w)
                              then y0 + (snd (sizeP p1) - roundRadiusSmall (st w)
                                          + snd (singleSize w) - roundRadiusSmall (st w))
                              else y0);
                     let xmax = width w - fst (sizeP p1);
                     let x = pickerPlaceX w xmax (sel smod columnCount w) (columnCount w) (rtl w);
                     Some (w\<lparr>picker := p1\<lparr>pos := (x, y)\<rparr>, scrollDisabled := True\<rparr>)
                   }))"

definition showPickerTimer_fired :: "LayoutFns \<Rightarrow> EmojiListWidget \<Rightarrow> EmojiListWidget option" where
  \<comment> \<open>the callback of \<^verbatim>\<open>_showPickerTimer\<close>: the timer is no longer active\<close>
  "showPickerTimer_fired L w = showPicker L (w\<lparr>showPickerTimer := None\<rparr>)"

definition mousePressEvent ::
  "LayoutFns \<Rightarrow> QPoint \<Rightarrow> bool \<Rightarrow> EmojiListWidget \<Rightarrow> EmojiListWidget option" where
  \<comment> \<open>\<open>leftButton\<close> is \<^verbatim>\<open>e->button() == Qt::LeftButton\<close>\<close>
  "mousePressEvent L globalPos' leftButton w =
     do {
       w1 \<leftarrow> updateSelected L (w\<lparr>lastMousePos := globalPos'\<rparr>);
       (hid, w2) \<leftarrow> checkPickerHide L w1;
       if hid \<or> \<not> leftButton then Some w2
       else (let w3 = w2\<lparr>pressedSel := selected w2\<rparr>
             in if selected w3 \<ge> 0
                then (let (section, sel) = IndexToPosition L (selected w3)
                      in case emojiAt w3 section sel of
                           None \<Rightarrow> Some w3
                         | Some emoji' \<Rightarrow>
                             if \<not> hasVariants emoji' then Some w3
                             else (let w4 = w3\<lparr>pickerSel := selected w3\<rparr>
                                   in if emojiVariants w4 (nonColoredId emoji') = None
                                      then showPicker L w4
                                      else Some (w4\<lparr>showPickerTimer := Some 500\<rparr>)))
                else Some w3)
     }"

definition colorChosen :: "LayoutFns \<Rightarrow> One \<Rightarrow> EmojiListWidget \<Rightarrow> EmojiListWidget option" where
  "colorChosen L emoji' w =
     do {
       let w1 = (if hasVariants emoji' then saveEmojiVariant emoji' w else w);
       w2 \<leftarrow> (if pickerSel w1 \<ge> 0
              then (let (section, sel) = IndexToPosition L (pickerSel w1)
                    in if section \<ge> 0 \<and> section < kEmojiSectionCount
                       then do {
                         _ \<leftarrow> item_at (emoji w1 (nat section)) sel;
                         let w1' = w1\<lparr>emoji := (emoji w1)
                                     (nat section := (emoji w1 (nat section))[nat sel := emoji'])\<rparr>;
                         rect \<leftarrow> emojiRect w1' section sel;
                         Some (rtlupdate rect w1')
                       }
                       else Some w1)
              else Some w1);
       let w3 = selectEmoji emoji' w2;
       Some (w3\<lparr>picker := hideAnimatedP (st w3) (rtl w3) (picker w3)\<rparr>)
     }"

definition picker_handleMouseRelease ::
  "LayoutFns \<Rightarrow> QPoint \<Rightarrow> EmojiListWidget \<Rightarrow> EmojiListWidget option" where
  \<comment> \<open>\<^verbatim>\<open>EmojiColorPicker::handleMouseRelease\<close>. \<^verbatim>\<open>_chosen\<close> has one subscriber,
      the widget's \<^verbatim>\<open>colorChosen\<close>, which runs inside \<^verbatim>\<open>fire_copy\<close>.\<close>
  "picker_handleMouseRelease L globalPos' w =
     do {
       let pressed = pressedSelP (picker w);
       let p1 = updateSelectedP (st w) (rtl w)
                  ((picker w)\<lparr>lastMousePosP := globalPos', pressedSelP := -1\<rparr>);
       let w1 = w\<lparr>picker := p1\<rparr>;
       w2 \<leftarrow> (if selectedP p1 \<ge> 0 \<and> (pressed < 0 \<or> selectedP p1 = pressed)
              then do {
                chosen \<leftarrow> item_at (variants p1) (selectedP p1);
                colorChosen L chosen w1
              }
              else Some w1);
       Some (w2\<lparr>picker := hideAnimatedP (st w2) (rtl w2) ((picker w2)\<lparr>ignoreShow := True\<rparr>)\<rparr>)
     }"

definition mouseReleaseEvent ::
  "LayoutFns \<Rightarrow> QPoint \<Rightarrow> QPoint \<Rightarrow> EmojiListWidget \<Rightarrow> EmojiListWidget option" where
  \<comment> \<open>\<open>globalPos'\<close> is \<^verbatim>\<open>e->globalPos()\<close>, \<open>cursorPos\<close> is \<^verbatim>\<open>QCursor::pos()\<close>\<close>
  "mouseReleaseEvent L globalPos' cursorPos w =
     (let pressed = pressedSel w;
          w1 = w\<lparr>pressedSel := -1, lastMousePos := globalPos'\<rparr>
      in if \<not> hidden (picker w1)
            \<and> rect_contains (sizeP (picker w1)) (mapFromGlobalP (picker w1) (lastMousePos w1))
         then picker_handleMouseRelease L cursorPos w1
         else do {
           let w2 =
             (if \<not> hidden (picker w1) \<and> pickerSel w1 \<ge> 0
              then (let (section, sel) = IndexToPosition L (pickerSel w1)
                    in case emojiAt w1 section sel of
                         None \<Rightarrow> w1
                       | Some emoji' \<Rightarrow>
                           if hasVariants emoji' \<and> emojiVariants w1 (nonColoredId emoji') \<noteq> None
                           then w1\<lparr>picker := hideAnimatedP (st w1) (rtl w1) (picker w1),
                                   pickerSel := -1\<rparr>
                           else w1)
              else w1);
           w3 \<leftarrow> updateSelected L w2;
           let w4 = (if showPickerTimer w3 \<noteq> None
                     then w3\<lparr>showPickerTimer := None, pickerSel := -1,
                             picker := (picker w3)\<lparr>hidden := True\<rparr>\<rparr>
                     else w3);
           if selected w4 < 0 \<or> selected w4 \<noteq> pressed then Some w4
           else (let (section, sel) = IndexToPosition L (selected w4)
                 in case emojiAt w4 section sel of
                      Some emoji' \<Rightarrow>
                        if hasVariants emoji' \<and> \<not> hidden (picker w4) then Some w4
                        else Some (selectEmoji emoji' w4)
                    | None \<Rightarrow>
                        if section \<ge> kEmojiSectionCount
                        then do {
                          set' \<leftarrow> item_at (custom w4) (section - kEmojiSectionCount);
                          Some (if 0 \<le> sel \<and> sel < int (length (list set'))
                                then selectCustom (document (list set' ! nat sel)) w4
                                else w4)
                        }
                        else Some w4)
         })"

definition mouseMoveEvent ::
  "LayoutFns \<Rightarrow> QPoint \<Rightarrow> QPoint \<Rightarrow> EmojiListWidget \<Rightarrow> EmojiListWidget option" where
  "mouseMoveEvent L globalPos' cursorPos w =
     (let w1 = w\<lparr>lastMousePos := globalPos'\<rparr>
      in if \<not> hidden (picker w1)
         then (if rect_contains (sizeP (picker w1))
                    (mapFromGlobalP (picker w1) (lastMousePos w1))
               then Some (w1\<lparr>picker := handleMouseMoveP (st w1) (rtl w1) cursorPos (picker w1)\<rparr>)
               else updateSelected L
                      (w1\<lparr>picker := clearSelectionP (st w1) (rtl w1) (picker w1)\<rparr>))
         else updateSelected L w1)"

subsection \<open>Notions the statements below are written with\<close>

definition min_deadline :: "(crl_time \<times> Repaint) list \<Rightarrow> crl_time" where
  \<comment> \<open>the minimum deadline across all pending duration classes\<close>
  "min_deadline rs = Min (set (map (\<lambda>(duration, bunch). when' bunch) rs))"

definition deadline_of :: "crl_time \<Rightarrow> (crl_time \<times> Repaint) list \<Rightarrow> crl_time" where
  \<comment> \<open>the deadline of a class's bucket; 0, the value a new bucket starts with, when
      there is none\<close>
  "deadline_of d rs = (case fm_find d rs of None \<Rightarrow> 0 | Some r \<Rightarrow> when' r)"

subsection \<open>Example states\<close>

definition style_ex :: Style where
  "style_ex = \<lparr>emojiPanPadding = 8, emojiPanHeader = 42, emojiPanMargins = (10, 10, 10, 10),
      emojiColorsPadding = 5, emojiColorsSep = 1, roundRadiusSmall = 3\<rparr>"

definition picker_ex :: EmojiColorPicker where
  "picker_ex = \<lparr>ignoreShow = False, variants = [], selectedP = -1, pressedSelP = -1,
      lastMousePosP = (0, 0), singleSizeP = (40, 36), hiding = False, cache = False,
      a_opacity = None, hidden = True, parentGlobal = (0, 0), pos = (0, 0), sizeP = (0, 0),
      updatesP = []\<rparr>"

definition panel_ex :: EmojiListWidget where
  \<comment> \<open>a panel 320 wide with eight columns, no emoji loaded and no custom set.
      \<open>pickerPlaceX\<close> is \<open>xmax * coef\<close> rounded to the nearest integer, with
      \<open>coef = col / (columns - 1)\<close>, or one minus that when right to left; with eight
      columns and \<open>0 \<le> xmax\<close> the product is never half way between two integers.\<close>
  "panel_ex = \<lparr>st = style_ex, rtl = False, globalPos = (0, 0), width = 320,
      visibleTop = 0, visibleBottom = 300, footer = None,
      columnCount = 8, rowsLeft = 0, singleSize = (40, 36),
      counts = (\<lambda>i. 0), emoji = (\<lambda>i. []), custom = [], instances = [],
      repaints = [], repaintTimerScheduled = False, repaintNext = 0, repaintTimer = None,
      selected = -1, pressedSel = -1, pickerSel = -1, lastMousePos = (-10, -10),
      showPickerTimer = None, picker = picker_ex, scrollDisabled = False,
      pickerPlaceX = (\<lambda>xmax col columns rtl'.
        (2 * xmax * (if rtl' then columns - 1 - col else col) + (columns - 1))
          div (2 * (columns - 1))),
      emojiVariants = Map.empty, recentLog = [], chosenLog = [], customChosenLog = [],
      updates = []\<rparr>"

definition panel_inst :: EmojiListWidget where
  "panel_inst = panel_ex\<lparr>instances := [(10, \<lparr>loaded = False, repaintSetId = 1\<rparr>)]\<rparr>"

definition three_requests_ex :: EmojiListWidget where
  "three_requests_ex =
     repaintLater 1 \<lparr>requestWhen = 300, duration = 40\<rparr>
       (repaintLater 1 \<lparr>requestWhen = 200, duration = 40\<rparr>
         (repaintLater 1 \<lparr>requestWhen = 100, duration = 40\<rparr> panel_inst))"

definition interleaved_run :: "EmojiListWidget option" where
  \<comment> \<open>the same three requests, the postponed call running after each of them\<close>
  "interleaved_run =
     Option.bind (scheduleRepaintTimer_postponed 0 0
        (repaintLater 1 \<lparr>requestWhen = 100, duration = 40\<rparr> panel_inst))
     (\<lambda>w1. Option.bind (scheduleRepaintTimer_postponed 0 0
        (repaintLater 1 \<lparr>requestWhen = 200, duration = 40\<rparr> w1))
     (\<lambda>w2. scheduleRepaintTimer_postponed 0 0
        (repaintLater 1 \<lparr>requestWhen = 300, duration = 40\<rparr> w2)))"

fun infos_from :: "EmojiListWidget \<Rightarrow> int \<Rightarrow> int \<Rightarrow> int list \<Rightarrow> SectionInfo list" where
  "infos_from w i tp [] = []"
| "infos_from w i tp (cnt # rest) =
     (let info = next_info w i tp cnt in info # infos_from w (i + 1) (rowsBottom info) rest)"

definition section_infos :: "EmojiListWidget \<Rightarrow> SectionInfo list" where
  "section_infos w = infos_from w 0 0 (section_counts w)"




definition panel_sets :: EmojiListWidget where
  "panel_sets = panel_ex\<lparr>
      custom := [\<lparr>id' = 1, title = ''a'', list = [\<lparr>instance' = 10, document = \<lparr>doc_id = 10, sticker = True\<rparr>\<rparr>], painted = True\<rparr>,
                 \<lparr>id' = 2, title = ''b'', list = [\<lparr>instance' = 10, document = \<lparr>doc_id = 10, sticker = True\<rparr>\<rparr>], painted = True\<rparr>],
      instances := [(10, \<lparr>loaded = True, repaintSetId = 1\<rparr>)]\<rparr>"



definition not_seen :: "int \<Rightarrow> int \<Rightarrow> SectionInfo \<Rightarrow> bool" where
  "not_seen visibleTop' visibleBottom' info =
     (\<not> (rowsBottom info > visibleTop' \<and> rowsTop info < visibleBottom'))"

definition custom_info :: "EmojiListWidget \<Rightarrow> nat \<Rightarrow> SectionInfo" where
  "custom_info w j = section_infos w ! (nat kEmojiSectionCount + j)"

definition unloaded_keys :: "int \<Rightarrow> int \<Rightarrow> EmojiListWidget \<Rightarrow> nat set" where
  "unloaded_keys visibleTop' visibleBottom' w =
     {k. \<exists>j < length (custom w).
           not_seen visibleTop' visibleBottom' (custom_info w j) \<and> painted (custom w ! j)
           \<and> k \<in> instance' ` set (list (custom w ! j))}"

definition unload_step :: "int \<Rightarrow> int \<Rightarrow> SectionInfo \<Rightarrow> EmojiListWidget \<Rightarrow> EmojiListWidget" where
  "unload_step vt vb info w' =
     (if section' info < kEmojiSectionCount \<or> \<not> not_seen vt vb info then w'
      else (let custom' = customAt w' (section' info) in
              if \<not> painted custom' then w'
              else w'\<lparr>custom := (custom w')[nat (section' info - kEmojiSectionCount) :=
                                  custom'\<lparr>painted := False\<rparr>],
                   instances := fold (\<lambda>single. fm_modify (instance' single) object_unload)
                                  (list custom') (instances w')\<rparr>))"

definition keys_of :: "int \<Rightarrow> int \<Rightarrow> EmojiListWidget \<Rightarrow> SectionInfo list \<Rightarrow> nat set" where
  "keys_of vt vb w infos =
     {k. \<exists>info \<in> set infos. kEmojiSectionCount \<le> section' info \<and> not_seen vt vb info
           \<and> painted (customAt w (section' info))
           \<and> k \<in> instance' ` set (list (customAt w (section' info)))}"

definition unload_inv ::
  "int \<Rightarrow> int \<Rightarrow> SectionInfo list \<Rightarrow> EmojiListWidget \<Rightarrow> EmojiListWidget \<Rightarrow> bool" where
  "unload_inv vt vb infos w w1 =
    (length (custom w1) = length (custom w)
   \<and> (\<forall>j < length (custom w). custom w1 ! j =
        (if (\<exists>info \<in> set infos. section' info = kEmojiSectionCount + int j \<and> not_seen vt vb info)
            \<and> painted (custom w ! j)
         then (custom w ! j)\<lparr>painted := False\<rparr> else custom w ! j))
   \<and> (\<forall>k. fm_find k (instances w1) =
        (if k \<in> keys_of vt vb w infos then map_option object_unload (fm_find k (instances w))
         else fm_find k (instances w)))
   \<and> w1\<lparr>custom := custom w, instances := instances w\<rparr> = w)"

definition section_state :: "nat \<Rightarrow> EmojiListWidget \<Rightarrow> CustomSet \<times> CustomInstance option list" where
  "section_state j w =
     (custom w ! j, map (\<lambda>single. fm_find (instance' single) (instances w)) (list (custom w ! j)))"

definition catalog :: "nat list \<Rightarrow> (nat \<rightharpoonup> StickersSet) \<Rightarrow> (nat \<times> StickersSet) list" where
  "catalog order sets =
     concat (map (\<lambda>setId. case sets setId of None \<Rightarrow> []
                            | Some it \<Rightarrow> if stickers it = [] then [] else [(setId, it)]) order)"

definition fresh_set :: "nat \<Rightarrow> StickersSet \<Rightarrow> CustomSet" where
  "fresh_set setId it =
     \<lparr>id' = setId, title = set_title it,
      list = map (\<lambda>document'. \<lparr>instance' = doc_id document', document = document'\<rparr>)
               (filter sticker (stickers it)),
      painted = False\<rparr>"

definition reused :: "CustomSet list \<Rightarrow> nat \<Rightarrow> StickersSet \<Rightarrow> CustomSet option" where
  "reused old setId it =
     (case find_id setId old of
        None \<Rightarrow> None
      | Some i \<Rightarrow> if map document (list (old ! i)) = stickers it then Some (old ! i) else None)"

definition rebuilt :: "CustomSet list \<Rightarrow> nat \<times> StickersSet \<Rightarrow> CustomSet" where
  "rebuilt old entry =
     (case reused old (fst entry) (snd entry) of
        Some custom' \<Rightarrow> custom' | None \<Rightarrow> fresh_set (fst entry) (snd entry))"

definition same_position_identical ::
  "CustomSet list \<Rightarrow> nat \<Rightarrow> nat \<Rightarrow> StickersSet \<Rightarrow> bool" where
  "same_position_identical old k setId it =
     (k < length old \<and> id' (old ! k) = setId \<and> map document (list (old ! k)) = stickers it)"

definition set_a :: StickersSet where
  "set_a = \<lparr>set_title = ''a'', stickers = [\<lparr>doc_id = 10, sticker = True\<rparr>]\<rparr>"

definition set_b :: StickersSet where
  "set_b = \<lparr>set_title = ''b'', stickers = [\<lparr>doc_id = 20, sticker = True\<rparr>]\<rparr>"

definition sets_ex :: "nat \<rightharpoonup> StickersSet" where
  "sets_ex = [1 \<mapsto> set_a, 2 \<mapsto> set_b]"

definition panel_two :: EmojiListWidget where
  "panel_two = panel_ex\<lparr>
      custom := [\<lparr>id' = 1, title = ''a'', list = [\<lparr>instance' = 10, document = \<lparr>doc_id = 10, sticker = True\<rparr>\<rparr>], painted = True\<rparr>,
                 \<lparr>id' = 2, title = ''b'', list = [\<lparr>instance' = 20, document = \<lparr>doc_id = 20, sticker = True\<rparr>\<rparr>], painted = True\<rparr>],
      instances := [(10, \<lparr>loaded = True, repaintSetId = 1\<rparr>), (20, \<lparr>loaded = True, repaintSetId = 2\<rparr>)]\<rparr>"

subsection \<open>The conversion between indices and positions, from the spec\<close>

text \<open>
  Modelled from the spec: \<^verbatim>\<open>Layout::IndexToPosition\<close> and
  \<^verbatim>\<open>Layout::PositionToIndex\<close> are declared in layout/layout\_position.h, which is
  not part of the sources at hand. The spec has the items in one catalog order,
  built-in sections first and custom sections after them, and converts "between
  linear item index and (section, offset) via a running total of prior sections'
  counts", in time linear in the number of sections, "recomputed fresh on each call
  against the current snapshot"; an index outside the snapshot has no position.
  \<open>counts'\<close> is the snapshot: the item counts of the sections in order. \<open>prior\<close> is
  the running total.
\<close>

fun IndexToPosition_scan :: "int list \<Rightarrow> int \<Rightarrow> int \<Rightarrow> int \<Rightarrow> (int \<times> int) option" where
  "IndexToPosition_scan [] section prior index = None"
| "IndexToPosition_scan (cnt # rest) section prior index =
     (if index < prior + cnt then Some (section, index - prior)
      else IndexToPosition_scan rest (section + 1) (prior + cnt) index)"

definition IndexToPosition_spec :: "int list \<Rightarrow> int \<Rightarrow> (int \<times> int) option" where
  "IndexToPosition_spec counts' index =
     (if index < 0 then None else IndexToPosition_scan counts' 0 0 index)"

definition PositionToIndex_spec :: "int list \<Rightarrow> int \<Rightarrow> int \<Rightarrow> int" where
  "PositionToIndex_spec counts' section offset = sum_list (take (nat section) counts') + offset"

definition layout_of :: "int list \<Rightarrow> LayoutFns" where
  "layout_of counts' =
     \<lparr>IndexToPosition = (\<lambda>index. case IndexToPosition_spec counts' index of
                                    Some position \<Rightarrow> position | None \<Rightarrow> (-1, -1)),
      PositionToIndex = PositionToIndex_spec counts'\<rparr>"

definition indexAt :: "LayoutFns \<Rightarrow> EmojiListWidget \<Rightarrow> QPoint \<Rightarrow> int option" where
  \<comment> \<open>the index \<^verbatim>\<open>updateSelected\<close> computes for a pointer at \<open>globalPos'\<close>\<close>
  "indexAt L w globalPos' =
     (let p = mapFromGlobal w globalPos'
      in map_option (newSelectedAt L w p) (sectionInfoByOffset w (snd p)))"

definition decodes :: "LayoutFns \<Rightarrow> EmojiListWidget \<Rightarrow> int \<Rightarrow> bool" where
  \<comment> \<open>\<^verbatim>\<open>IndexToPosition\<close> sends a non-negative index to a section of the panel\<close>
  "decodes L w index =
     (index < 0 \<or> (0 \<le> fst (IndexToPosition L index)
                    \<and> fst (IndexToPosition L index) < sectionsCount w))"

definition same_layout :: "EmojiListWidget \<Rightarrow> EmojiListWidget \<Rightarrow> bool" where
  \<comment> \<open>the two states agree on everything the geometry is computed from\<close>
  "same_layout w w' =
     (st w' = st w \<and> rtl w' = rtl w \<and> globalPos w' = globalPos w \<and> width w' = width w
      \<and> columnCount w' = columnCount w \<and> rowsLeft w' = rowsLeft w
      \<and> singleSize w' = singleSize w \<and> counts w' = counts w \<and> custom w' = custom w)"

definition view_only :: "EmojiListWidget \<Rightarrow> EmojiListWidget \<Rightarrow> bool" where
  \<comment> \<open>\<open>w'\<close> differs from \<open>w\<close> at most in the selection, the overlay and the update requests\<close>
  "view_only w w' = (w'\<lparr>selected := selected w, picker := picker w, updates := updates w\<rparr> = w)"

definition release_closePicker :: "LayoutFns \<Rightarrow> EmojiListWidget \<Rightarrow> EmojiListWidget" where
  \<comment> \<open>\<^verbatim>\<open>mouseReleaseEvent\<close>, the branch for a release outside an open overlay\<close>
  "release_closePicker L w1 =
             (if \<not> hidden (picker w1) \<and> pickerSel w1 \<ge> 0
              then (let (section, sel) = IndexToPosition L (pickerSel w1)
                    in case emojiAt w1 section sel of
                         None \<Rightarrow> w1
                       | Some emoji' \<Rightarrow>
                           if hasVariants emoji' \<and> emojiVariants w1 (nonColoredId emoji') \<noteq> None
                           then w1\<lparr>picker := hideAnimatedP (st w1) (rtl w1) (picker w1),
                                   pickerSel := -1\<rparr>
                           else w1)
              else w1)"

definition release_cancelTimer :: "EmojiListWidget \<Rightarrow> EmojiListWidget" where
  \<comment> \<open>\<^verbatim>\<open>mouseReleaseEvent\<close>, the block under \<^verbatim>\<open>_showPickerTimer.isActive()\<close>\<close>
  "release_cancelTimer w3 =
     (if showPickerTimer w3 \<noteq> None
                     then w3\<lparr>showPickerTimer := None, pickerSel := -1,
                             picker := (picker w3)\<lparr>hidden := True\<rparr>\<rparr>
                     else w3)"

definition closes_picker :: "LayoutFns \<Rightarrow> EmojiListWidget \<Rightarrow> bool" where
  \<comment> \<open>the condition under which \<open>release_closePicker\<close> hides the overlay\<close>
  "closes_picker L w =
     (\<not> hidden (picker w) \<and> pickerSel w \<ge> 0
      \<and> (case emojiAt w (fst (IndexToPosition L (pickerSel w)))
                         (snd (IndexToPosition L (pickerSel w))) of
            None \<Rightarrow> False
          | Some emoji' \<Rightarrow> hasVariants emoji' \<and> emojiVariants w (nonColoredId emoji') \<noteq> None))"

definition commit :: "LayoutFns \<Rightarrow> int \<Rightarrow> EmojiListWidget \<Rightarrow> EmojiListWidget option" where
  \<comment> \<open>\<^verbatim>\<open>mouseReleaseEvent\<close> from the test \<^verbatim>\<open>_selected < 0 || _selected != pressed\<close> on\<close>
  "commit L pressed w4 =
     (if selected w4 < 0 \<or> selected w4 \<noteq> pressed then Some w4
      else (let (section, sel) = IndexToPosition L (selected w4)
            in case emojiAt w4 section sel of
                 Some emoji' \<Rightarrow>
                   if hasVariants emoji' \<and> \<not> hidden (picker w4) then Some w4
                   else Some (selectEmoji emoji' w4)
               | None \<Rightarrow>
                   if section \<ge> kEmojiSectionCount
                   then do {
                     set' \<leftarrow> item_at (custom w4) (section - kEmojiSectionCount);
                     Some (if 0 \<le> sel \<and> sel < int (length (list set'))
                           then selectCustom (document (list set' ! nat sel)) w4
                           else w4)
                   }
                   else Some w4))"

definition press_arm :: "LayoutFns \<Rightarrow> EmojiListWidget \<Rightarrow> EmojiListWidget option" where
  \<comment> \<open>\<^verbatim>\<open>mousePressEvent\<close> after \<^verbatim>\<open>_pressedSel = _selected\<close>\<close>
  "press_arm L w3 =
     (if selected w3 \<ge> 0
                then (let (section, sel) = IndexToPosition L (selected w3)
                      in case emojiAt w3 section sel of
                           None \<Rightarrow> Some w3
                         | Some emoji' \<Rightarrow>
                             if \<not> hasVariants emoji' then Some w3
                             else (let w4 = w3\<lparr>pickerSel := selected w3\<rparr>
                                   in if emojiVariants w4 (nonColoredId emoji') = None
                                      then showPicker L w4
                                      else Some (w4\<lparr>showPickerTimer := Some 500\<rparr>)))
                else Some w3)"

definition press_release ::
  "LayoutFns \<Rightarrow> QPoint \<Rightarrow> QPoint \<Rightarrow> QPoint \<Rightarrow> EmojiListWidget \<Rightarrow> EmojiListWidget option" where
  \<comment> \<open>a press of the left button at \<open>p\<close>, then the release at \<open>q\<close>\<close>
  "press_release L p q cursorPos w =
     Option.bind (mousePressEvent L p True w) (mouseReleaseEvent L q cursorPos)"

definition hand :: One where
  "hand = \<lparr>nonColoredId = ''hand'', variantsCount = 3, variantIndex = 0\<rparr>"

definition plain :: "string \<Rightarrow> One" where
  "plain name = \<lparr>nonColoredId = name, variantsCount = 0, variantIndex = 0\<rparr>"

definition panel_emoji :: EmojiListWidget where
  "panel_emoji = panel_ex\<lparr>
      counts := (\<lambda>i. 0)(0 := 5, 2 := 2),
      emoji := (\<lambda>i. [])(0 := [hand, plain ''a'', plain ''b'', plain ''c'', plain ''d''],
                          2 := [plain ''e'', plain ''f''])\<rparr>"

definition layout_ex :: LayoutFns where
  "layout_ex = layout_of [5, 0, 2, 0, 0, 0, 0, 0]"

definition panel_pressed :: EmojiListWidget where
  "panel_pressed = panel_emoji\<lparr>selected := 2, pressedSel := 2, lastMousePos := (90, 20)\<rparr>"

definition picker_open :: EmojiColorPicker where
  \<comment> \<open>the overlay as \<^verbatim>\<open>showPicker\<close> leaves it for \<open>hand\<close> at index 0\<close>
  "picker_open = picker_ex\<lparr>variants := map (\<lambda>i. variant hand (int i)) [0..<4],
      lastMousePosP := (-10, -10), cache := True, a_opacity := Some (0, 1), hidden := False,
      pos := (0, 41), sizeP := (191, 66), updatesP := [(0, 0, 191, 66)]\<rparr>"

definition panel_shown :: EmojiListWidget where
  \<comment> \<open>\<open>panel_emoji\<close> after a press on \<open>hand\<close>, at (10, 20)\<close>
  "panel_shown = panel_emoji\<lparr>selected := 0, pressedSel := 0, pickerSel := 0,
      lastMousePos := (10, 20), picker := picker_open, scrollDisabled := True,
      updates := [(0, 8, 40, 36)]\<rparr>"

definition panel_open :: EmojiListWidget where
  \<comment> \<open>and after the release at the same place: the overlay stays open\<close>
  "panel_open = panel_shown\<lparr>pressedSel := -1\<rparr>"

definition panel_stored :: EmojiListWidget where
  \<comment> \<open>\<open>panel_emoji\<close> with a stored preferred variant for \<open>hand\<close>\<close>
  "panel_stored = panel_emoji\<lparr>emojiVariants := [''hand'' \<mapsto> 0]\<rparr>"

definition target_ok :: "LayoutFns \<Rightarrow> EmojiListWidget \<Rightarrow> bool" where
  \<comment> \<open>the overlay target, when it is a built-in item, is an item of its section:
      \<^verbatim>\<open>_emoji[section][sel]\<close> of \<^verbatim>\<open>colorChosen\<close> is within bounds\<close>
  "target_ok L w =
     (pickerSel w \<ge> 0 \<and> 0 \<le> fst (IndexToPosition L (pickerSel w))
        \<and> fst (IndexToPosition L (pickerSel w)) < kEmojiSectionCount
      \<longrightarrow> emojiAt w (fst (IndexToPosition L (pickerSel w)))
                      (snd (IndexToPosition L (pickerSel w))) \<noteq> None)"


definition panel_pressedP :: EmojiListWidget where
  \<comment> \<open>\<open>panel_open\<close> after a press inside the overlay, on variant 2\<close>
  "panel_pressedP =
     panel_open\<lparr>picker := mousePressEventP style_ex False (110, 71) True picker_open\<rparr>"

section \<open>The repaint coalescer\<close>

subsection \<open>flat\_map lookups\<close>

lemma fm_find_modify:
  "fm_find k (fm_modify k' f m) = (if k = k' then map_option f (fm_find k m) else fm_find k m)"
  by (induction m) auto

lemma fm_find_insert:
  "fm_find k' m = None \<Longrightarrow>
   fm_find k (fm_insert k' v m) = (if k = k' then Some v else fm_find k m)"
  by (induction m) (auto split: if_splits)

lemma fm_find_emplace:
  "fm_find k (fm_emplace k' v m) =
     (if k = k' then Some (case fm_find k m of None \<Rightarrow> v | Some v' \<Rightarrow> v') else fm_find k m)"
  by (auto simp: fm_emplace_def fm_find_insert split: option.splits)

lemma set_fm_modify_insert:
  "fm_find k m = None \<Longrightarrow> set (fm_modify k f (fm_insert k v m)) = insert (k, f v) (set m)"
  by (induction m) (auto split: if_splits)

lemma set_fm_modify_found:
  "fm_find k m = Some v \<Longrightarrow> set (fm_modify k f m) \<subseteq> insert (k, f v) (set m)"
  by (induction m) (auto split: if_splits)

lemma set_fm_modify_emplace:
  "set (fm_modify k f (fm_emplace k v m))
     \<subseteq> insert (k, f (case fm_find k m of None \<Rightarrow> v | Some v' \<Rightarrow> v')) (set m)"
proof (cases "fm_find k m")
  case None
  then show ?thesis by (simp add: fm_emplace_def set_fm_modify_insert)
next
  case (Some v')
  then show ?thesis using set_fm_modify_found [OF Some, of f] by (simp add: fm_emplace_def)
qed

subsection \<open>A request\<close>

lemma repaintLater_bucket:
  "instances w \<noteq> [] \<Longrightarrow>
   fm_find d (repaints (repaintLater setId request w)) =
     (if d = duration request
      then Some \<lparr>when' = max (deadline_of d (repaints w)) (requestWhen request),
                 ids = insert setId (case fm_find d (repaints w) of None \<Rightarrow> {} | Some r \<Rightarrow> ids r)\<rparr>
      else fm_find d (repaints w))"
  by (auto simp: repaintLater_def scheduleRepaintTimer_def fm_find_modify fm_find_emplace
      deadline_of_def Repaint_default_def max_def split: option.splits)

lemma repaintLater_fields:
  "instances (repaintLater setId request w) = instances w"
  "repaintNext (repaintLater setId request w) = repaintNext w"
  "repaintTimer (repaintLater setId request w) = repaintTimer w"
  by (simp_all add: repaintLater_def scheduleRepaintTimer_def)

lemma repaintLater_deadline:
  "instances w \<noteq> [] \<Longrightarrow>
   deadline_of d (repaints (repaintLater setId request w)) =
     (if d = duration request then max (deadline_of d (repaints w)) (requestWhen request)
      else deadline_of d (repaints w))"
  by (simp add: deadline_of_def [of d "repaints (repaintLater setId request w)"]
      repaintLater_bucket) (simp add: deadline_of_def)

lemma repaintLater_positive:
  assumes "\<forall>(k, r) \<in> set (repaints w). 0 < when' r" "0 < requestWhen request"
  shows "\<forall>(k, r) \<in> set (repaints (repaintLater setId request w)). 0 < when' r"
proof (cases "instances w = []")
  case True
  then show ?thesis using assms by (simp add: repaintLater_def)
next
  case False
  define f :: "Repaint \<Rightarrow> Repaint" where "f = (\<lambda>repaint.
                 (if when' repaint < requestWhen request
                  then repaint\<lparr>when' := requestWhen request\<rparr> else repaint)
                 \<lparr>ids := insert setId (ids repaint)\<rparr>)"
  define v where "v = f (case fm_find (duration request) (repaints w) of
                           None \<Rightarrow> Repaint_default | Some v' \<Rightarrow> v')"
  have f: "0 < when' (f r)" for r using assms(2) by (simp add: f_def)
  have sub: "set (repaints (repaintLater setId request w))
      \<subseteq> insert (duration request, v) (set (repaints w))"
    using False set_fm_modify_emplace [of "duration request" f Repaint_default "repaints w"]
    by (simp add: repaintLater_def scheduleRepaintTimer_def f_def v_def)
  have "0 < when' r'" if "(k', r') \<in> set (repaints (repaintLater setId request w))" for k' r'
  proof -
    from that sub have "r' = v \<or> (k', r') \<in> set (repaints w)" by auto
    then show ?thesis using f assms(1) by (auto simp: v_def)
  qed
  then show ?thesis by auto
qed

lemma repaintLater_nonempty:
  "instances w \<noteq> [] \<Longrightarrow> repaints (repaintLater setId request w) \<noteq> []"
  using repaintLater_bucket [of w "duration request" setId request] by auto

text \<open>
  C10. With an empty registry of custom instances a delayed repaint request is dropped:
  \<^verbatim>\<open>repaintLater\<close> returns the widget as it was. No bucket is made or changed, no
  postponed call is queued and the timer is not touched, so nothing fires for it.
\<close>

theorem repaintLater_empty_registry:
  "instances w = [] \<Longrightarrow> repaintLater setId request w = w"
  by (simp add: repaintLater_def)

theorem repaintLater_empty_registry_witness:
  "instances panel_ex = []
   \<and> repaintLater 7 \<lparr>requestWhen = 100, duration = 40\<rparr> panel_ex = panel_ex"
proof -
  have h: "instances panel_ex = []" by (simp add: panel_ex_def)
  show ?thesis using h repaintLater_empty_registry [OF h] by simp
qed

subsection \<open>The postponed scheduling step\<close>

lemma Min_insert_min:
  fixes n :: int
  assumes "finite S"
  shows "Min (insert (min n x) S) = Min (insert n (insert x S))"
proof (cases "S = {}")
  case True
  then show ?thesis by (simp add: min.commute)
next
  case False
  then show ?thesis using assms by (simp add: min.assoc)
qed

lemma repaints_next_fold:
  "\<forall>(k, r) \<in> set rs. 0 < when' r \<Longrightarrow> 0 < n \<Longrightarrow>
   fold (\<lambda>(duration, bunch) next. if next = 0 \<or> next > when' bunch then when' bunch else next) rs n
     = Min (insert n (set (map (\<lambda>(duration, bunch). when' bunch) rs)))"
proof (induction rs arbitrary: n)
  case Nil
  then show ?case by simp
next
  case (Cons a rs)
  obtain k r where a: "a = (k, r)" by (cases a)
  have pos: "0 < when' r" using Cons.prems a by auto
  have step: "(if n = 0 \<or> n > when' r then when' r else n) = min n (when' r)"
    using Cons.prems(2) by (simp add: min_def)
  have "0 < min n (when' r)" using pos Cons.prems(2) by simp
  then have "fold (\<lambda>(duration, bunch) next. if next = 0 \<or> next > when' bunch then when' bunch else next) rs (min n (when' r))
     = Min (insert (min n (when' r)) (set (map (\<lambda>(duration, bunch). when' bunch) rs)))"
    using Cons.IH Cons.prems(1) by simp
  then show ?case using a step by (simp add: Min_insert_min)
qed

lemma repaints_next_min:
  assumes "\<forall>(k, r) \<in> set rs. 0 < when' r" "rs \<noteq> []"
  shows "repaints_next rs = min_deadline rs"
proof -
  obtain k r rest where rs: "rs = (k, r) # rest" using assms(2) by (cases rs) auto
  have "0 < when' r" using assms(1) rs by auto
  then show ?thesis using repaints_next_fold[of rest "when' r"] assms(1) rs
    by (simp add: repaints_next_def min_deadline_def)
qed

lemma postponed_arms:
  assumes "\<forall>(k, r) \<in> set (repaints w). 0 < when' r" "repaints w \<noteq> []"
    and "now < min_deadline (repaints w)"
  shows "scheduleRepaintTimer_postponed now now' w =
     Some (if repaintNext w = 0 \<or> min_deadline (repaints w) < repaintNext w
           then w\<lparr>repaintTimerScheduled := False, repaintNext := min_deadline (repaints w),
                  repaintTimer := Some (min_deadline (repaints w))\<rparr>
           else w\<lparr>repaintTimerScheduled := False\<rparr>)"
proof -
  have m: "repaints_next (repaints w) = min_deadline (repaints w)"
    using assms(1,2) by (rule repaints_next_min)
  have "0 < min_deadline (repaints w)"
    using assms(1,2) by (auto simp: min_deadline_def)
  then show ?thesis using assms(3) m
    by (auto simp: scheduleRepaintTimer_postponed_def Let_def)
qed

lemma repaintLater_scheduled:
  "instances w \<noteq> [] \<Longrightarrow> repaintTimerScheduled (repaintLater setId request w)"
  by (simp add: repaintLater_def scheduleRepaintTimer_def)

lemma postponed_due:
  assumes "\<forall>(k, r) \<in> set (repaints w). 0 < when' r" "repaints w \<noteq> []"
    and "min_deadline (repaints w) \<le> now"
  shows "scheduleRepaintTimer_postponed now now' w =
     (if repaintNext w = 0 \<or> min_deadline (repaints w) < repaintNext w
      then invokeRepaints now'
             (w\<lparr>repaintTimerScheduled := False, repaintNext := 0, repaintTimer := None\<rparr>)
      else Some (w\<lparr>repaintTimerScheduled := False\<rparr>))"
proof -
  have m: "repaints_next (repaints w) = min_deadline (repaints w)"
    using assms(1,2) by (rule repaints_next_min)
  have "0 < min_deadline (repaints w)"
    using assms(1,2) by (auto simp: min_deadline_def)
  then show ?thesis using assms(3) m
    by (auto simp: scheduleRepaintTimer_postponed_def Let_def)
qed

text \<open>
  C2, as the code has it. Let the registry of custom instances be non-empty and every
  deadline already pending be positive. Three requests of one duration class with
  deadlines \<open>d1 < d2 < d3\<close>, the first one positive, leave the class's deadline at the
  maximum of its former deadline and \<open>d3\<close>, leave the postponed scheduling step queued
  (\<open>repaintTimerScheduled\<close>), and do not touch the timer themselves. When the queued
  step then runs before the earliest pending deadline, it completes, is no longer
  queued, keeps the buckets, and leaves the timer armed for the earlier of the time it
  was armed for and the minimum deadline across all pending classes: for that minimum
  when no wake-up was armed or the armed one was later, for the time armed before
  otherwise. When nothing was pending and nothing was armed before the three requests,
  the one wake-up is at \<open>d3\<close>. When the queued step runs at or after the earliest
  pending deadline instead, it arms nothing: it calls \<^verbatim>\<open>invokeRepaints\<close> at once when
  no wake-up was armed or the armed one was later, and only leaves the queue otherwise.
\<close>

theorem coalescer_three_requests:
  assumes inst: "instances w \<noteq> []"
    and order: "d1 < d2" "d2 < d3"
    and pos: "0 < d1" "\<forall>(k, r) \<in> set (repaints w). 0 < when' r"
    and w3: "w3 = repaintLater c \<lparr>requestWhen = d3, duration = D\<rparr>
                   (repaintLater b \<lparr>requestWhen = d2, duration = D\<rparr>
                     (repaintLater a \<lparr>requestWhen = d1, duration = D\<rparr> w))"
    and now: "now < min_deadline (repaints w3)"
    and late: "min_deadline (repaints w3) \<le> t"
  shows "deadline_of D (repaints w3) = max (deadline_of D (repaints w)) d3
    \<and> repaintTimerScheduled w3
    \<and> repaintNext w3 = repaintNext w \<and> repaintTimer w3 = repaintTimer w
    \<and> (\<exists>w4. scheduleRepaintTimer_postponed now now' w3 = Some w4
          \<and> \<not> repaintTimerScheduled w4
          \<and> repaints w4 = repaints w3
          \<and> repaintNext w4 =
              (if repaintNext w = 0 \<or> min_deadline (repaints w3) < repaintNext w
               then min_deadline (repaints w3) else repaintNext w)
          \<and> repaintTimer w4 =
              (if repaintNext w = 0 \<or> min_deadline (repaints w3) < repaintNext w
               then Some (min_deadline (repaints w3)) else repaintTimer w)
          \<and> (repaints w = [] \<and> repaintNext w = 0 \<longrightarrow> repaintTimer w4 = Some d3))
    \<and> scheduleRepaintTimer_postponed t t' w3 =
         (if repaintNext w = 0 \<or> min_deadline (repaints w3) < repaintNext w
          then invokeRepaints t'
                 (w3\<lparr>repaintTimerScheduled := False, repaintNext := 0, repaintTimer := None\<rparr>)
          else Some (w3\<lparr>repaintTimerScheduled := False\<rparr>))"
proof -
  define w1 where "w1 = repaintLater a \<lparr>requestWhen = d1, duration = D\<rparr> w"
  define w2 where "w2 = repaintLater b \<lparr>requestWhen = d2, duration = D\<rparr> w1"
  have w3': "w3 = repaintLater c \<lparr>requestWhen = d3, duration = D\<rparr> w2"
    by (simp add: w3 w1_def w2_def)
  have i1: "instances w1 \<noteq> []" and i2: "instances w2 \<noteq> []"
    using inst by (simp_all add: w1_def w2_def repaintLater_fields)
  have p1: "\<forall>(k, r) \<in> set (repaints w1). 0 < when' r"
    unfolding w1_def using pos by (intro repaintLater_positive) simp_all
  have p2: "\<forall>(k, r) \<in> set (repaints w2). 0 < when' r"
    unfolding w2_def using p1 pos order by (intro repaintLater_positive) simp_all
  have p3: "\<forall>(k, r) \<in> set (repaints w3). 0 < when' r"
    unfolding w3' using p2 pos order by (intro repaintLater_positive) simp_all
  have n3: "repaints w3 \<noteq> []"
    unfolding w3' using i2 by (rule repaintLater_nonempty)
  have d: "deadline_of D (repaints w3) = max (deadline_of D (repaints w)) d3"
    using inst i1 i2 order by (simp add: w3' w2_def w1_def repaintLater_deadline)
  have q: "repaintTimerScheduled w3"
    unfolding w3' using i2 by (rule repaintLater_scheduled)
  have keep: "repaintNext w3 = repaintNext w" "repaintTimer w3 = repaintTimer w"
    by (simp_all add: w3 repaintLater_fields)
  have single: "min_deadline (repaints w3) = d3" if "repaints w = []"
  proof -
    have "repaints w3 = [(D, \<lparr>when' = d3, ids = insert c (insert b {a})\<rparr>)]"
      using that inst order pos(1)
      by (simp add: w3 repaintLater_def scheduleRepaintTimer_def fm_emplace_def
          Repaint_default_def)
    then show ?thesis by (simp add: min_deadline_def)
  qed
  have due: "scheduleRepaintTimer_postponed t t' w3 =
         (if repaintNext w = 0 \<or> min_deadline (repaints w3) < repaintNext w
          then invokeRepaints t'
                 (w3\<lparr>repaintTimerScheduled := False, repaintNext := 0, repaintTimer := None\<rparr>)
          else Some (w3\<lparr>repaintTimerScheduled := False\<rparr>))"
    using postponed_due [OF p3 n3 late, of t'] by (simp only: keep)
  have arm: "\<exists>w4. scheduleRepaintTimer_postponed now now' w3 = Some w4
          \<and> \<not> repaintTimerScheduled w4
          \<and> repaints w4 = repaints w3
          \<and> repaintNext w4 =
              (if repaintNext w = 0 \<or> min_deadline (repaints w3) < repaintNext w
               then min_deadline (repaints w3) else repaintNext w)
          \<and> repaintTimer w4 =
              (if repaintNext w = 0 \<or> min_deadline (repaints w3) < repaintNext w
               then Some (min_deadline (repaints w3)) else repaintTimer w)
          \<and> (repaints w = [] \<and> repaintNext w = 0 \<longrightarrow> repaintTimer w4 = Some d3)"
    using postponed_arms [OF p3 n3 now, of now'] keep single by auto
  show ?thesis using d q keep arm due by (simp only: simp_thms)
qed

theorem coalescer_three_requests_witness:
  "instances panel_inst \<noteq> [] \<and> (100::int) < 200 \<and> (200::int) < 300 \<and> (0::int) < 100
   \<and> repaints panel_inst = [] \<and> repaintNext panel_inst = 0
   \<and> 0 < min_deadline (repaints three_requests_ex)
   \<and> min_deadline (repaints three_requests_ex) \<le> 300
   \<and> deadline_of 40 (repaints three_requests_ex) = 300
   \<and> repaintTimerScheduled three_requests_ex
   \<and> repaintTimer three_requests_ex = None
   \<and> map_option repaintTimerScheduled (scheduleRepaintTimer_postponed 0 0 three_requests_ex)
       = Some False
   \<and> map_option repaintTimer (scheduleRepaintTimer_postponed 0 0 three_requests_ex)
       = Some (Some 300)
   \<and> scheduleRepaintTimer_postponed 300 300 three_requests_ex
       = invokeRepaints 300 (three_requests_ex\<lparr>repaintTimerScheduled := False,
                                repaintNext := 0, repaintTimer := None\<rparr>)"
proof -
  have h1: "instances panel_inst \<noteq> []" by (simp add: panel_inst_def)
  have h2: "\<forall>(k, r) \<in> set (repaints panel_inst). 0 < when' r"
    by (simp add: panel_inst_def panel_ex_def)
  have r: "repaints panel_inst = []" "repaintNext panel_inst = 0"
    "repaintTimer panel_inst = None"
    by (simp_all add: panel_inst_def panel_ex_def)
  have r3: "repaints three_requests_ex = [(40, \<lparr>when' = 300, ids = {1}\<rparr>)]"
    using h1 r by (simp add: three_requests_ex_def repaintLater_def scheduleRepaintTimer_def
        fm_emplace_def Repaint_default_def)
  have h3: "0 < min_deadline (repaints three_requests_ex)" by (simp add: r3 min_deadline_def)
  have h4: "min_deadline (repaints three_requests_ex) \<le> 300" by (simp add: r3 min_deadline_def)
  have d0: "deadline_of 40 (repaints panel_inst) = 0" by (simp add: r deadline_of_def)
  show ?thesis
    using coalescer_three_requests [where w = panel_inst and ?d1.0 = 100 and ?d2.0 = 200
        and ?d3.0 = 300 and D = 40 and a = 1 and b = 1 and c = 1 and now = 0 and now' = 0
        and t = 300 and t' = 300
        and ?w3.0 = three_requests_ex, OF h1 _ _ _ h2 three_requests_ex_def h3 h4]
    using h1 r d0 h3 h4 by auto
qed

text \<open>
  C2 as stated fails when the postponed step runs between the requests, as it does
  when they come from different turns of the event loop: the timer armed for the
  first deadline, 100, is kept, since a later target never replaces an earlier one.
  After the third request the class's deadline and the minimum over all classes are
  300, and the armed wake-up is still the one at 100.
\<close>

theorem coalescer_interleaved_counterexample:
  "map_option repaintTimer interleaved_run = Some (Some 100)
   \<and> map_option (min_deadline \<circ> repaints) interleaved_run = Some 300
   \<and> map_option (deadline_of 40 \<circ> repaints) interleaved_run = Some 300"
  by (simp add: interleaved_run_def panel_inst_def panel_ex_def repaintLater_def
      scheduleRepaintTimer_def scheduleRepaintTimer_postponed_def repaints_next_def
      fm_emplace_def Repaint_default_def min_deadline_def deadline_of_def Let_def)

section \<open>Firing the coalescer\<close>

lemma enumerate_from_all:
  assumes "\<And>info a. fst (callback info a)"
  shows "enumerate_from w i tp cs callback a
         = (True, fold (\<lambda>info a. snd (callback info a)) (infos_from w i tp cs) a)"
  using assms
  by (induction cs arbitrary: i tp a) (simp_all add: Let_def split_beta)


lemma next_info_cong:
  "columnCount w' = columnCount w \<Longrightarrow> st w' = st w \<Longrightarrow> singleSize w' = singleSize w
   \<Longrightarrow> next_info w' = next_info w"
  by (simp add: next_info_def fun_eq_iff)

lemma infos_from_cong:
  assumes "columnCount w' = columnCount w" "st w' = st w" "singleSize w' = singleSize w"
  shows "infos_from w' i tp cs = infos_from w i tp cs"
proof -
  have n: "next_info w' = next_info w" using assms by (rule next_info_cong)
  show ?thesis by (induction cs arbitrary: i tp) (simp_all add: n)
qed

lemma section_infos_cong:
  assumes "columnCount w' = columnCount w" "st w' = st w" "singleSize w' = singleSize w"
    and "counts w' = counts w" "custom w' = custom w"
  shows "section_infos w' = section_infos w"
  using assms(4,5) infos_from_cong [OF assms(1-3)]
  by (simp add: section_infos_def section_counts_def)





lemmas geometry_simps = section_infos_def section_counts_def kEmojiSectionCount_def
  next_info_def Let_def signed_divide_int_def upt_rec




section \<open>The viewport virtualizer\<close>

lemma unloadNotSeenCustom_fold:
  "0 < columnCount w \<Longrightarrow>
   unloadNotSeenCustom vt vb w = Some (fold (unload_step vt vb) (section_infos w) w)"
proof -
  have "(\<lambda>info a. snd (if section' info < kEmojiSectionCount
               \<or> (rowsBottom info > vt \<and> rowsTop info < vb)
            then (True, a)
            else (let custom' = customAt a (section' info) in
              if \<not> painted custom' then (True, a)
              else (True,
                a\<lparr>custom := (custom a)[nat (section' info - kEmojiSectionCount) :=
                                  custom'\<lparr>painted := False\<rparr>],
                   instances := fold (\<lambda>single. fm_modify (instance' single) object_unload)
                                  (list custom') (instances a)\<rparr>)))) = unload_step vt vb"
    by (auto simp: fun_eq_iff unload_step_def not_seen_def Let_def)
  moreover assume "0 < columnCount w"
  ultimately show ?thesis
    by (simp add: unloadNotSeenCustom_def enumerateSections_def enumerate_from_all
        section_infos_def [symmetric] Let_def)
qed

lemma fm_find_fold_modify:
  assumes "\<And>x. f (f x) = f x"
  shows "fm_find k (fold (\<lambda>s. fm_modify (g s) f) xs m)
         = (if k \<in> g ` set xs then map_option f (fm_find k m) else fm_find k m)"
proof (induction xs arbitrary: m)
  case Nil
  then show ?case by simp
next
  case (Cons x xs)
  show ?case by (cases "fm_find k m") (auto simp: Cons.IH fm_find_modify assms)
qed

lemma object_unload_idem: "object_unload (object_unload x) = object_unload x"
  by (simp add: object_unload_def)

lemma map_option_unload_idem:
  "map_option object_unload (map_option object_unload x) = map_option object_unload x"
  by (cases x) (simp_all add: object_unload_idem)

lemma fold_unload_step:
  assumes "distinct (map section' infos)"
    and "\<forall>info \<in> set infos. kEmojiSectionCount \<le> section' info
          \<longrightarrow> nat (section' info - kEmojiSectionCount) < length (custom w)"
  shows "unload_inv vt vb infos w (fold (unload_step vt vb) infos w)"
  using assms
proof (induction infos rule: rev_induct)
  case Nil
  then show ?case by (simp add: unload_inv_def keys_of_def)
next
  case (snoc x infos)
  define w1 where "w1 = fold (unload_step vt vb) infos w"
  have IH: "unload_inv vt vb infos w w1"
    unfolding w1_def using snoc by simp
  have fresh: "\<forall>info \<in> set infos. section' info \<noteq> section' x"
    using snoc.prems(1) by (auto simp: image_iff)
  have step: "fold (unload_step vt vb) (infos @ [x]) w = unload_step vt vb x w1"
    by (simp add: w1_def)
  show ?case
  proof (cases "section' x < kEmojiSectionCount \<or> \<not> not_seen vt vb x")
    case True
    then have "unload_step vt vb x w1 = w1" by (simp add: unload_step_def)
    moreover have "keys_of vt vb w (infos @ [x]) = keys_of vt vb w infos"
      using True by (auto simp: keys_of_def)
    moreover have "(\<exists>info \<in> set (infos @ [x]). section' info = kEmojiSectionCount + int j \<and> not_seen vt vb info)
        = (\<exists>info \<in> set infos. section' info = kEmojiSectionCount + int j \<and> not_seen vt vb info)" for j
      using True by auto
    ultimately show ?thesis using IH unfolding step unload_inv_def by simp
  next
    case False
    define jx where "jx = nat (section' x - kEmojiSectionCount)"
    have sx: "section' x = kEmojiSectionCount + int jx" using False by (simp add: jx_def)
    have jx: "jx < length (custom w)" using snoc.prems(2) False by (simp add: jx_def)
    have same: "custom w1 ! jx = custom w ! jx"
      using IH jx fresh sx unfolding unload_inv_def by auto
    have at: "customAt w1 (section' x) = custom w ! jx" "customAt w (section' x) = custom w ! jx"
      using same by (simp_all add: customAt_def jx_def)
    show ?thesis
    proof (cases "painted (custom w ! jx)")
      case np: False
      then have "unload_step vt vb x w1 = w1" using False at by (simp add: unload_step_def)
      moreover have "keys_of vt vb w (infos @ [x]) = keys_of vt vb w infos"
        using np at by (auto simp: keys_of_def)
      moreover have "((\<exists>info \<in> set (infos @ [x]). section' info = kEmojiSectionCount + int j \<and> not_seen vt vb info) \<and> painted (custom w ! j))
        = ((\<exists>info \<in> set infos. section' info = kEmojiSectionCount + int j \<and> not_seen vt vb info) \<and> painted (custom w ! j))" for j
        using np sx by auto
      ultimately show ?thesis using IH unfolding step unload_inv_def by simp
    next
      case p: True
      define w2 where "w2 = unload_step vt vb x w1"
      have w2: "w2 = w1\<lparr>custom := (custom w1)[jx := (custom w ! jx)\<lparr>painted := False\<rparr>],
                   instances := fold (\<lambda>single. fm_modify (instance' single) object_unload)
                                  (list (custom w ! jx)) (instances w1)\<rparr>"
        using False p at by (simp add: w2_def unload_step_def jx_def Let_def)
      have keys: "keys_of vt vb w (infos @ [x])
                  = keys_of vt vb w infos \<union> instance' ` set (list (custom w ! jx))"
        using False p at by (auto simp: keys_of_def)
      have a: "length (custom w2) = length (custom w)"
        using IH by (simp add: w2 unload_inv_def)
      have b: "custom w2 ! j =
        (if (\<exists>info \<in> set (infos @ [x]). section' info = kEmojiSectionCount + int j \<and> not_seen vt vb info)
            \<and> painted (custom w ! j)
         then (custom w ! j)\<lparr>painted := False\<rparr> else custom w ! j)" if "j < length (custom w)" for j
      proof (cases "j = jx")
        case True
        then show ?thesis using IH that p False sx by (auto simp: w2 unload_inv_def)
      next
        case ne: False
        then have "section' x \<noteq> kEmojiSectionCount + int j" using sx by simp
        then show ?thesis using IH that ne by (auto simp: w2 unload_inv_def)
      qed
      have c: "fm_find k (instances w2) =
        (if k \<in> keys_of vt vb w (infos @ [x]) then map_option object_unload (fm_find k (instances w))
         else fm_find k (instances w))" for k
        using IH
        by (auto simp: w2 keys fm_find_fold_modify [of object_unload, OF object_unload_idem]
            unload_inv_def map_option_unload_idem)
      have d: "w2\<lparr>custom := custom w, instances := instances w\<rparr> = w"
        using IH by (simp add: w2 unload_inv_def)
      show ?thesis unfolding step w2_def [symmetric] unload_inv_def using a b c d by simp
    qed
  qed
qed

lemma length_infos_from: "length (infos_from w i tp cs) = length cs"
  by (induction cs arbitrary: i tp) (simp_all add: Let_def)

lemma section_infos_from:
  "j < length cs \<Longrightarrow> section' (infos_from w i tp cs ! j) = i + int j"
proof (induction cs arbitrary: i tp j)
  case Nil
  then show ?case by simp
next
  case (Cons c cs)
  show ?case
  proof (cases j)
    case 0
    then show ?thesis by (simp add: Let_def next_info_def)
  next
    case (Suc j')
    then show ?thesis using Cons.prems Cons.IH [of j'] by (simp add: Let_def)
  qed
qed

lemma sections_infos_from:
  "map section' (infos_from w i tp cs) = map (\<lambda>j. i + int j) [0..<length cs]"
  by (rule nth_equalityI) (simp_all add: length_infos_from section_infos_from)

lemma distinct_sections: "distinct (map section' (infos_from w i tp cs))"
  by (simp add: sections_infos_from distinct_map inj_on_def)

lemma length_section_infos:
  "length (section_infos w) = nat kEmojiSectionCount + length (custom w)"
  by (simp add: section_infos_def section_counts_def length_infos_from)

lemma section_of_info:
  "j < length (section_infos w) \<Longrightarrow> section' (section_infos w ! j) = int j"
  by (simp add: section_infos_def section_infos_from length_infos_from)

lemma section_infos_custom_range:
  "info \<in> set (section_infos w) \<Longrightarrow> kEmojiSectionCount \<le> section' info
   \<Longrightarrow> nat (section' info - kEmojiSectionCount) < length (custom w)"
  by (auto simp: in_set_conv_nth section_of_info length_section_infos kEmojiSectionCount_def)

lemma not_seen_custom_info:
  assumes "j < length (custom w)"
  shows "(\<exists>info \<in> set (section_infos w).
            section' info = kEmojiSectionCount + int j \<and> not_seen vt vb info)
         = not_seen vt vb (custom_info w j)"
proof -
  have l: "nat kEmojiSectionCount + j < length (section_infos w)"
    using assms by (simp add: length_section_infos)
  have k: "0 \<le> kEmojiSectionCount" by (simp add: kEmojiSectionCount_def)
  show ?thesis
  proof
    assume "\<exists>info \<in> set (section_infos w).
            section' info = kEmojiSectionCount + int j \<and> not_seen vt vb info"
    then obtain i where i: "i < length (section_infos w)"
        "section' (section_infos w ! i) = kEmojiSectionCount + int j"
        "not_seen vt vb (section_infos w ! i)"
      by (auto simp: in_set_conv_nth)
    then have "int i = kEmojiSectionCount + int j" by (simp add: section_of_info)
    then have "i = nat kEmojiSectionCount + j" using k by simp
    then show "not_seen vt vb (custom_info w j)" using i by (simp add: custom_info_def)
  next
    assume "not_seen vt vb (custom_info w j)"
    moreover have "section' (custom_info w j) = kEmojiSectionCount + int j"
      using l k by (simp add: custom_info_def section_of_info)
    moreover have "custom_info w j \<in> set (section_infos w)"
      using l by (simp add: custom_info_def)
    ultimately show "\<exists>info \<in> set (section_infos w).
            section' info = kEmojiSectionCount + int j \<and> not_seen vt vb info" by blast
  qed
qed

lemma keys_of_section_infos:
  "keys_of vt vb w (section_infos w) = unloaded_keys vt vb w"
proof -
  have k: "0 \<le> kEmojiSectionCount" by (simp add: kEmojiSectionCount_def)
  have "x \<in> unloaded_keys vt vb w" if "x \<in> keys_of vt vb w (section_infos w)" for x
  proof -
    from that obtain info where info: "info \<in> set (section_infos w)"
      "kEmojiSectionCount \<le> section' info" "not_seen vt vb info"
      "painted (customAt w (section' info))"
      "x \<in> instance' ` set (list (customAt w (section' info)))"
      by (auto simp: keys_of_def)
    define j where "j = nat (section' info - kEmojiSectionCount)"
    have j: "j < length (custom w)" unfolding j_def using info(1,2) by (rule section_infos_custom_range)
    have s: "section' info = kEmojiSectionCount + int j" using info(2) by (simp add: j_def)
    have "not_seen vt vb (custom_info w j)"
      using not_seen_custom_info [OF j, of vt vb] info(1,3) s by blast
    then show ?thesis using info(4,5) j by (auto simp: unloaded_keys_def customAt_def j_def)
  qed
  moreover have "x \<in> keys_of vt vb w (section_infos w)" if "x \<in> unloaded_keys vt vb w" for x
  proof -
    from that obtain j where j: "j < length (custom w)" "not_seen vt vb (custom_info w j)"
      "painted (custom w ! j)" "x \<in> instance' ` set (list (custom w ! j))"
      by (auto simp: unloaded_keys_def)
    have l: "nat kEmojiSectionCount + j < length (section_infos w)"
      using j(1) by (simp add: length_section_infos)
    have s: "section' (custom_info w j) = kEmojiSectionCount + int j"
      using l k by (simp add: custom_info_def section_of_info)
    have m: "custom_info w j \<in> set (section_infos w)" using l by (simp add: custom_info_def)
    have "customAt w (section' (custom_info w j)) = custom w ! j" by (simp add: s customAt_def)
    then show ?thesis using j m s unfolding keys_of_def by force
  qed
  ultimately show ?thesis by blast
qed

lemma unloadNotSeenCustom_inv:
  assumes "0 < columnCount w"
  shows "\<exists>w'. unloadNotSeenCustom vt vb w = Some w' \<and> unload_inv vt vb (section_infos w) w w'"
proof -
  have "unload_inv vt vb (section_infos w) w (fold (unload_step vt vb) (section_infos w) w)"
  proof (rule fold_unload_step)
    show "distinct (map section' (section_infos w))"
      by (simp add: section_infos_def distinct_sections)
    show "\<forall>info \<in> set (section_infos w). kEmojiSectionCount \<le> section' info
          \<longrightarrow> nat (section' info - kEmojiSectionCount) < length (custom w)"
      using section_infos_custom_range by blast
  qed
  then show ?thesis by (simp add: unloadNotSeenCustom_fold [OF assms])
qed

lemma sectionInfoByOffset_Some:
  "0 < columnCount w \<Longrightarrow> \<exists>info. sectionInfoByOffset w y = Some info"
  by (simp add: sectionInfoByOffset_def enumerateSections_def Let_def)

text \<open>
  C4, as the code has it. On a visibility update with the visible range
  \<open>[vt, vb)\<close> the run does not stop. Every custom section whose rows do not intersect
  the range and whose \<open>painted\<close> flag is set has the flag cleared, its id, title and
  items kept, and every item's instance unloaded. Every other custom section keeps its
  record, flag included. The counts and the emoji of the built-in sections are
  unchanged. An instance is unchanged unless a painted section out of sight holds it:
  an item of a visible section keeps its decoded state unless it shares its instance
  with such a section.
\<close>

theorem visibleTopBottomUpdated_unloads:
  assumes "0 < columnCount w"
  shows "\<exists>w'. visibleTopBottomUpdated vt vb w = Some w'
    \<and> counts w' = counts w \<and> emoji w' = emoji w
    \<and> length (custom w') = length (custom w)
    \<and> (\<forall>j < length (custom w).
         if not_seen vt vb (custom_info w j) \<and> painted (custom w ! j)
         then custom w' ! j = (custom w ! j)\<lparr>painted := False\<rparr>
              \<and> (\<forall>single \<in> set (list (custom w ! j)). \<forall>inst.
                    fm_find (instance' single) (instances w') = Some inst \<longrightarrow> \<not> loaded inst)
         else custom w' ! j = custom w ! j)
    \<and> (\<forall>k. k \<notin> unloaded_keys vt vb w
           \<longrightarrow> fm_find k (instances w') = fm_find k (instances w))"
proof -
  define w1 where "w1 = w\<lparr>visibleTop := vt, visibleBottom := vb\<rparr>"
  obtain info where info: "sectionInfoByOffset w1 vt = Some info"
    using sectionInfoByOffset_Some [of w1 vt] assms by (auto simp: w1_def)
  define w2 where "w2 = (if footer w1 \<noteq> None then w1\<lparr>footer := Some (section' info)\<rparr> else w1)"
  have run: "visibleTopBottomUpdated vt vb w = unloadNotSeenCustom vt vb w2"
    using info by (simp add: visibleTopBottomUpdated_def currentSection_def w1_def w2_def Let_def)
  have c2: "0 < columnCount w2" using assms by (simp add: w2_def w1_def)
  have same: "custom w2 = custom w" "instances w2 = instances w" "counts w2 = counts w"
    "emoji w2 = emoji w"
    by (simp_all add: w2_def w1_def)
  have infos: "section_infos w2 = section_infos w"
    by (rule section_infos_cong) (simp_all add: w2_def w1_def)
  have ci: "custom_info w2 = custom_info w" by (simp add: custom_info_def fun_eq_iff infos)
  have uk: "unloaded_keys vt vb w2 = unloaded_keys vt vb w"
    by (simp add: unloaded_keys_def ci same)
  obtain w' where w': "unloadNotSeenCustom vt vb w2 = Some w'"
      and inv: "unload_inv vt vb (section_infos w2) w2 w'"
    using unloadNotSeenCustom_inv [OF c2] by blast
  have len: "length (custom w') = length (custom w)"
    using inv by (simp add: unload_inv_def same)
  have cust: "custom w' ! j =
        (if not_seen vt vb (custom_info w j) \<and> painted (custom w ! j)
         then (custom w ! j)\<lparr>painted := False\<rparr> else custom w ! j)" if "j < length (custom w)" for j
    using inv that not_seen_custom_info [of j w2 vt vb]
    by (simp add: unload_inv_def same ci)
  have inst: "fm_find k (instances w') =
        (if k \<in> unloaded_keys vt vb w then map_option object_unload (fm_find k (instances w))
         else fm_find k (instances w))" for k
    using inv by (simp add: unload_inv_def keys_of_section_infos uk same)
  have other: "w'\<lparr>custom := custom w2, instances := instances w2\<rparr> = w2"
    using inv by (simp add: unload_inv_def)
  have "counts (w'\<lparr>custom := custom w2, instances := instances w2\<rparr>) = counts w2"
    "emoji (w'\<lparr>custom := custom w2, instances := instances w2\<rparr>) = emoji w2"
    by (simp_all only: other)
  then have ce: "counts w' = counts w" "emoji w' = emoji w" by (simp_all add: same)
  have unl: "\<not> loaded inst"
    if "j < length (custom w)" "not_seen vt vb (custom_info w j)" "painted (custom w ! j)"
      "single \<in> set (list (custom w ! j))" "fm_find (instance' single) (instances w') = Some inst"
    for j single inst
  proof -
    have "instance' single \<in> unloaded_keys vt vb w"
      using that(1-4) by (auto simp: unloaded_keys_def)
    then show ?thesis using that(5) inst [of "instance' single"]
      by (auto simp: object_unload_def)
  qed
  show ?thesis
    unfolding run w' using len cust inst ce unl by auto
qed

lemma custom_info_panel_sets:
  "custom_info panel_sets 0 = \<lparr>section' = 8, count = 1, top' = 302, rowsCount = 1, rowsTop = 344, rowsBottom = 380\<rparr>"
  "custom_info panel_sets (Suc 0) = \<lparr>section' = 9, count = 1, top' = 380, rowsCount = 1, rowsTop = 422, rowsBottom = 458\<rparr>"
  by (simp_all add: custom_info_def panel_sets_def panel_ex_def style_ex_def geometry_simps)

theorem visibleTopBottomUpdated_unloads_witness:
  "0 < columnCount panel_sets
   \<and> not_seen 300 400 (custom_info panel_sets 1) \<and> painted (custom panel_sets ! 1)
   \<and> \<not> not_seen 300 400 (custom_info panel_sets 0)
   \<and> (\<exists>w'. visibleTopBottomUpdated 300 400 panel_sets = Some w'
          \<and> custom w' ! 1 = (custom panel_sets ! 1)\<lparr>painted := False\<rparr>
          \<and> custom w' ! 0 = custom panel_sets ! 0)"
proof -
  have h: "0 < columnCount panel_sets" by (simp add: panel_sets_def panel_ex_def)
  have l: "length (custom panel_sets) = 2" by (simp add: panel_sets_def)
  have n1: "not_seen 300 400 (custom_info panel_sets 1)"
    by (simp add: custom_info_panel_sets not_seen_def)
  have p1: "painted (custom panel_sets ! 1)" by (simp add: panel_sets_def)
  have n0: "\<not> not_seen 300 400 (custom_info panel_sets 0)"
    by (simp add: custom_info_panel_sets not_seen_def)
  obtain w' where w': "visibleTopBottomUpdated 300 400 panel_sets = Some w'"
    and c: "\<forall>j < length (custom panel_sets).
         if not_seen 300 400 (custom_info panel_sets j) \<and> painted (custom panel_sets ! j)
         then custom w' ! j = (custom panel_sets ! j)\<lparr>painted := False\<rparr>
              \<and> (\<forall>single \<in> set (list (custom panel_sets ! j)). \<forall>inst.
                    fm_find (instance' single) (instances w') = Some inst \<longrightarrow> \<not> loaded inst)
         else custom w' ! j = custom panel_sets ! j"
    using visibleTopBottomUpdated_unloads [OF h, of 300 400] by blast
  have "custom w' ! 1 = (custom panel_sets ! 1)\<lparr>painted := False\<rparr>"
    using c [rule_format, of 1] l n1 p1 by simp
  moreover have "custom w' ! 0 = custom panel_sets ! 0"
    using c [rule_format, of 0] l n0 by simp
  ultimately show ?thesis using h n1 p1 n0 w' by simp
qed

text \<open>
  C4 as stated leaves a custom section that intersects the visible range completely
  untouched. Two sets that hold the same document share its one instance in the
  registry. In the example the first set is in sight, the second is painted and out of
  sight: unloading the second set's item unloads the instance the first set's item
  draws with.
\<close>

theorem visibleTopBottomUpdated_shared_counterexample:
  "\<not> not_seen 300 400 (custom_info panel_sets 0)
   \<and> section_state 0 panel_sets
       = (\<lparr>id' = 1, title = ''a'',
            list = [\<lparr>instance' = 10, document = \<lparr>doc_id = 10, sticker = True\<rparr>\<rparr>],
            painted = True\<rparr>, [Some \<lparr>loaded = True, repaintSetId = 1\<rparr>])
   \<and> map_option (section_state 0) (visibleTopBottomUpdated 300 400 panel_sets)
       = Some (\<lparr>id' = 1, title = ''a'',
            list = [\<lparr>instance' = 10, document = \<lparr>doc_id = 10, sticker = True\<rparr>\<rparr>],
            painted = True\<rparr>, [Some \<lparr>loaded = False, repaintSetId = 1\<rparr>])"
proof -
  have h: "0 < columnCount (panel_sets\<lparr>visibleTop := 300, visibleBottom := 400\<rparr>)"
    by (simp add: panel_sets_def panel_ex_def)
  have i: "section_infos (panel_sets\<lparr>visibleTop := 300, visibleBottom := 400\<rparr>)
      = section_infos panel_sets"
    by (rule section_infos_cong) simp_all
  have f: "footer panel_sets = None" by (simp add: panel_sets_def panel_ex_def)
  have "map_option (section_state 0) (visibleTopBottomUpdated 300 400 panel_sets)
       = Some (\<lparr>id' = 1, title = ''a'',
            list = [\<lparr>instance' = 10, document = \<lparr>doc_id = 10, sticker = True\<rparr>\<rparr>],
            painted = True\<rparr>, [Some \<lparr>loaded = False, repaintSetId = 1\<rparr>])"
    apply (simp add: visibleTopBottomUpdated_def unloadNotSeenCustom_fold [OF h] i f)
    apply (simp add: panel_sets_def panel_ex_def style_ex_def geometry_simps unload_step_def
        not_seen_def customAt_def section_state_def object_unload_def)
    done
  moreover have "section_state 0 panel_sets
       = (\<lparr>id' = 1, title = ''a'',
            list = [\<lparr>instance' = 10, document = \<lparr>doc_id = 10, sticker = True\<rparr>\<rparr>],
            painted = True\<rparr>, [Some \<lparr>loaded = True, repaintSetId = 1\<rparr>])"
    by (simp add: section_state_def panel_sets_def)
  ultimately show ?thesis by (simp add: custom_info_panel_sets not_seen_def)
qed

section \<open>Refreshing the custom sets\<close>

lemma valid_iff: "valid i list' \<longleftrightarrow> map document (list i) = list'"
  by (auto simp: valid_def list_eq_iff_nth_eq)

lemma find_id_Some: "find_id s old = Some i \<Longrightarrow> i < length old \<and> id' (old ! i) = s"
  by (induction old arbitrary: i) (auto split: if_splits)

lemma find_id_update:
  "s \<noteq> 0 \<Longrightarrow> id' (old ! i) \<noteq> s \<Longrightarrow> i < length old
   \<Longrightarrow> find_id s (old[i := CustomSet_default]) = find_id s old"
proof (induction old arbitrary: i)
  case Nil
  then show ?case by simp
next
  case (Cons c old)
  then show ?case by (cases i) (auto simp: CustomSet_default_def)
qed

lemma reused_update:
  assumes "s \<noteq> 0" "id' (old ! i) \<noteq> s" "i < length old"
  shows "reused (old[i := CustomSet_default]) s it = reused old s it"
proof (cases "find_id s old")
  case None
  then show ?thesis using find_id_update [OF assms] by (simp add: reused_def)
next
  case (Some j)
  then have "j \<noteq> i" using find_id_Some [OF Some] assms(2) by auto
  then show ?thesis using find_id_update [OF assms] Some by (simp add: reused_def)
qed

lemma refreshCustom_set_eq:
  "refreshCustom_set setId docs inst acc =
     (fold (\<lambda>document'. fm_emplace (doc_id document') (new_instance setId)) (filter sticker docs) inst,
      acc @ map (\<lambda>document'. \<lparr>instance' = doc_id document', document = document'\<rparr>)
                (filter sticker docs))"
  by (induction docs arbitrary: inst acc) (simp_all add: Let_def)

lemma fm_find_fold_emplace_keep:
  "fm_find k inst = Some v \<Longrightarrow>
   fm_find k (fold (\<lambda>d. fm_emplace (g d) (h d)) ds inst) = Some v"
proof (induction ds arbitrary: inst)
  case Nil
  then show ?case by simp
next
  case (Cons d ds)
  have "fm_find k (fm_emplace (g d) (h d) inst) = Some v"
    using Cons.prems by (auto simp: fm_find_emplace)
  then show ?case using Cons.IH by simp
qed

lemma fm_find_fold_emplace_new:
  "k \<in> g ` set ds \<Longrightarrow> fm_find k (fold (\<lambda>d. fm_emplace (g d) (h d)) ds inst) \<noteq> None"
proof (induction ds arbitrary: inst)
  case Nil
  then show ?case by simp
next
  case (Cons d ds)
  show ?case
  proof (cases "k = g d")
    case True
    then obtain v where "fm_find k (fm_emplace (g d) (h d) inst) = Some v"
      by (simp add: fm_find_emplace)
    then show ?thesis using fm_find_fold_emplace_keep by fastforce
  next
    case False
    then show ?thesis using Cons by simp
  qed
qed

lemma catalog_Cons:
  "catalog (setId # order) sets =
     (case sets setId of None \<Rightarrow> []
      | Some it \<Rightarrow> if stickers it = [] then [] else [(setId, it)]) @ catalog order sets"
  by (simp add: catalog_def)

lemma catalog_ids: "entry \<in> set (catalog order sets) \<Longrightarrow> fst entry \<in> set order"
  by (auto simp: catalog_def split: option.splits if_splits)

lemma rebuilt_update:
  assumes "0 \<notin> set order" "id' (old ! i) \<notin> set order" "i < length old"
  shows "map (rebuilt (old[i := CustomSet_default])) (catalog order sets)
         = map (rebuilt old) (catalog order sets)"
proof (rule map_cong [OF refl])
  fix entry assume "entry \<in> set (catalog order sets)"
  then have m: "fst entry \<in> set order" by (rule catalog_ids)
  then have "fst entry \<noteq> 0" "id' (old ! i) \<noteq> fst entry" using assms by metis+
  then show "rebuilt (old[i := CustomSet_default]) entry = rebuilt old entry"
    using assms(3) by (simp add: rebuilt_def reused_update)
qed

lemma refreshCustom_loop_custom:
  assumes "distinct order" "0 \<notin> set order"
  shows "custom (refreshCustom_loop sets order old w)
         = custom w @ map (rebuilt old) (catalog order sets)"
  using assms
proof (induction order arbitrary: old w)
  case Nil
  then show ?case by (simp add: catalog_def)
next
  case (Cons setId order)
  have d: "distinct order" "0 \<notin> set order" "setId \<notin> set order" using Cons.prems by auto
  show ?case
  proof (cases "sets setId")
    case None
    then show ?thesis using Cons.IH [OF d(1,2)] by (simp add: catalog_Cons)
  next
    case (Some it)
    show ?thesis
    proof (cases "stickers it = []")
      case True
      then show ?thesis using Some Cons.IH [OF d(1,2)] by (simp add: catalog_Cons)
    next
      case ne: False
      show ?thesis
      proof (cases "reused old setId it")
        case None
        then have r: "rebuilt old (setId, it) = fresh_set setId it" by (simp add: rebuilt_def)
        from None show ?thesis using Some ne Cons.IH [OF d(1,2)] r
          by (auto simp: catalog_Cons reused_def valid_iff refreshCustom_set_eq fresh_set_def
              split: option.splits if_splits)
      next
        case (Some c)
        then obtain i where i: "find_id setId old = Some i" "c = old ! i"
          "map document (list (old ! i)) = stickers it"
          by (auto simp: reused_def split: option.splits if_splits)
        have il: "i < length old" "id' (old ! i) = setId" using find_id_Some [OF i(1)] by auto
        have r: "rebuilt old (setId, it) = old ! i" using Some i by (simp add: rebuilt_def)
        have u: "map (rebuilt (old[i := CustomSet_default])) (catalog order sets)
            = map (rebuilt old) (catalog order sets)"
          using d il by (intro rebuilt_update) auto
        show ?thesis using \<open>sets setId = Some it\<close> ne i Cons.IH [OF d(1,2)] r u
          by (simp add: catalog_Cons valid_iff)
      qed
    qed
  qed
qed

lemma refreshCustom_loop_keeps:
  "fm_find k (instances w) = Some v
   \<Longrightarrow> fm_find k (instances (refreshCustom_loop sets order old w)) = Some v"
proof (induction order arbitrary: old w)
  case Nil
  then show ?case by simp
next
  case (Cons setId order)
  show ?case
  proof (cases "sets setId")
    case None
    then show ?thesis using Cons by simp
  next
    case (Some it)
    have k: "fm_find k (fold (\<lambda>document'. fm_emplace (doc_id document') (new_instance setId))
                (filter sticker (stickers it)) (instances w)) = Some v"
      using Cons.prems by (rule fm_find_fold_emplace_keep)
    show ?thesis using Some Cons.prems k
      by (auto simp: refreshCustom_set_eq intro!: Cons.IH split: option.splits)
  qed
qed

lemma refreshCustom_loop_fresh:
  assumes "distinct order" "0 \<notin> set order"
    and "(setId, it) \<in> set (catalog order sets)" "reused old setId it = None"
    and "document' \<in> set (stickers it)" "sticker document'"
  shows "fm_find (doc_id document') (instances (refreshCustom_loop sets order old w)) \<noteq> None"
  using assms(1-4)
proof (induction order arbitrary: old w)
  case Nil
  then show ?case by (simp add: catalog_def)
next
  case (Cons s order)
  have d: "distinct order" "0 \<notin> set order" "s \<notin> set order" using Cons.prems by auto
  show ?case
  proof (cases "s = setId")
    case True
    then have it: "sets s = Some it" "stickers it \<noteq> []"
      using Cons.prems(3) d(3) catalog_ids [of "(setId, it)" order sets]
      by (auto simp: catalog_Cons split: option.splits if_splits)
    define w' where "w' = w\<lparr>instances :=
          fold (\<lambda>document'. fm_emplace (doc_id document') (new_instance s))
            (filter sticker (stickers it)) (instances w),
        custom := custom w @ [fresh_set s it]\<rparr>"
    have step: "refreshCustom_loop sets (s # order) old w = refreshCustom_loop sets order old w'"
      using True it Cons.prems(4)
      by (auto simp: reused_def valid_iff refreshCustom_set_eq w'_def fresh_set_def
          split: option.splits if_splits)
    obtain v where v: "fm_find (doc_id document') (instances w') = Some v"
      using fm_find_fold_emplace_new [of "doc_id document'" doc_id "filter sticker (stickers it)"
          "\<lambda>d. new_instance s" "instances w"] assms(5,6)
      by (auto simp: w'_def)
    show ?thesis unfolding step using refreshCustom_loop_keeps [OF v] by simp
  next
    case False
    then have m: "(setId, it) \<in> set (catalog order sets)"
      using Cons.prems(3) by (auto simp: catalog_Cons split: option.splits if_splits)
    then have so: "setId \<in> set order" using catalog_ids by fastforce
    have r: "reused (old[i := CustomSet_default]) setId it = None"
      if "find_id s old = Some i" for i
    proof -
      have "i < length old" "id' (old ! i) = s" using find_id_Some [OF that] by auto
      then show ?thesis using reused_update [of setId old i it] False so d(2) Cons.prems(4)
        by auto
    qed
    show ?thesis
      using Cons.IH [OF d(1,2) m] Cons.prems(4) r
      by (auto simp: refreshCustom_set_eq split: option.splits)
  qed
qed

text \<open>
  C5, as the code has it. A refresh empties \<^verbatim>\<open>_custom\<close> and rebuilds it: one set
  for each id of the order that the catalog knows with a document, in that order
  (\<open>catalog\<close>). For an order without repetition and without the id 0, a new set is
  the prior set, taken over whole with its items and its \<open>painted\<close> flag, exactly
  when the first prior set with the same id, wherever it stands in the prior list, has
  the same documents in the same order (\<open>reused\<close>). Otherwise it is built anew,
  unpainted, one item for each sticker document, the item's instance being the
  registry entry of the document's id (\<open>fresh_set\<close>): an entry that was there is
  kept as it was, and every sticker document of a set built anew has an entry
  afterwards.
\<close>

theorem refreshCustom_rebuilds:
  assumes "distinct order" "0 \<notin> set order"
  shows "custom (refreshCustom order sets w) = map (rebuilt (custom w)) (catalog order sets)
    \<and> (\<forall>k v. fm_find k (instances w) = Some v
          \<longrightarrow> fm_find k (instances (refreshCustom order sets w)) = Some v)
    \<and> (\<forall>(setId, it) \<in> set (catalog order sets). reused (custom w) setId it = None
          \<longrightarrow> (\<forall>document' \<in> set (stickers it). sticker document'
                \<longrightarrow> fm_find (doc_id document') (instances (refreshCustom order sets w)) \<noteq> None))"
proof -
  have a: "custom (refreshCustom order sets w) = map (rebuilt (custom w)) (catalog order sets)"
    using refreshCustom_loop_custom [OF assms, of sets "custom w" "w\<lparr>custom := []\<rparr>"]
    by (simp add: refreshCustom_def)
  have b: "fm_find k (instances (refreshCustom order sets w)) = Some v"
    if "fm_find k (instances w) = Some v" for k v
    unfolding refreshCustom_def using that by (intro refreshCustom_loop_keeps) simp
  have c: "fm_find (doc_id document') (instances (refreshCustom order sets w)) \<noteq> None"
    if "(setId, it) \<in> set (catalog order sets)" "reused (custom w) setId it = None"
      "document' \<in> set (stickers it)" "sticker document'" for setId it document'
    unfolding refreshCustom_def using assms that by (rule refreshCustom_loop_fresh)
  show ?thesis using a b c by blast
qed

lemma refreshCustom_example:
  "custom (refreshCustom [2, 1] sets_ex panel_two) = [custom panel_two ! 1, custom panel_two ! 0]"
  by (simp add: refreshCustom_def sets_ex_def set_a_def set_b_def panel_two_def valid_iff)

theorem refreshCustom_rebuilds_witness:
  "distinct [2, 1 :: nat] \<and> (0 :: nat) \<notin> set [2, 1]
   \<and> catalog [2, 1] sets_ex = [(2, set_b), (1, set_a)]
   \<and> custom (refreshCustom [2, 1] sets_ex panel_two)
       = [custom panel_two ! 1, custom panel_two ! 0]"
proof -
  have h: "distinct [2, 1 :: nat]" "(0 :: nat) \<notin> set [2, 1]" by simp_all
  have c: "catalog [2, 1] sets_ex = [(2, set_b), (1, set_a)]"
    by (simp add: catalog_def sets_ex_def set_a_def set_b_def)
  have r: "rebuilt (custom panel_two) (2, set_b) = custom panel_two ! 1"
    "rebuilt (custom panel_two) (1, set_a) = custom panel_two ! 0"
    by (simp_all add: rebuilt_def reused_def panel_two_def set_a_def set_b_def)
  show ?thesis
    using refreshCustom_rebuilds [OF h, of sets_ex panel_two] h c r by simp
qed

text \<open>
  C5 as stated compares with the prior set at the same position. The code looks the
  prior set up by its id. In the example the catalog order swaps two unchanged sets:
  the new first set is the prior second set with its state, its \<open>painted\<close> flag set,
  although the prior set at the first position is another one.
\<close>

theorem refreshCustom_position_counterexample:
  "custom (refreshCustom [2, 1] sets_ex panel_two) ! 0 = custom panel_two ! 1
   \<and> painted (custom (refreshCustom [2, 1] sets_ex panel_two) ! 0)
   \<and> \<not> same_position_identical (custom panel_two) 0 2 set_b"
  unfolding refreshCustom_example
  by (simp add: panel_two_def same_position_identical_def)

section \<open>Linear indices and positions\<close>

lemma sum_list_take_nonneg:
  "\<forall>c \<in> set cs. (0::int) \<le> c \<Longrightarrow> 0 \<le> sum_list (take j cs)"
  by (rule sum_list_nonneg) (auto dest: in_set_takeD)

lemma scan_decode:
  assumes "\<forall>c \<in> set cs. 0 \<le> c" "prior \<le> index" "index < prior + sum_list cs"
  shows "\<exists>j offset. IndexToPosition_scan cs sec prior index = Some (sec + int j, offset)
           \<and> j < length cs \<and> 0 \<le> offset \<and> offset < cs ! j
           \<and> prior + sum_list (take j cs) + offset = index"
  using assms
proof (induction cs arbitrary: sec prior)
  case Nil
  then show ?case by simp
next
  case (Cons c cs)
  show ?case
  proof (cases "index < prior + c")
    case True
    then have "IndexToPosition_scan (c # cs) sec prior index = Some (sec + int 0, index - prior)
        \<and> 0 < length (c # cs) \<and> 0 \<le> index - prior \<and> index - prior < (c # cs) ! 0
        \<and> prior + sum_list (take 0 (c # cs)) + (index - prior) = index"
      using Cons.prems by simp
    then show ?thesis by blast
  next
    case False
    then obtain j offset where j:
      "IndexToPosition_scan cs (sec + 1) (prior + c) index = Some (sec + 1 + int j, offset)"
      "j < length cs" "0 \<le> offset" "offset < cs ! j"
      "prior + c + sum_list (take j cs) + offset = index"
      using Cons.IH [of "prior + c" "sec + 1"] Cons.prems by auto
    have "IndexToPosition_scan (c # cs) sec prior index = Some (sec + int (Suc j), offset)
        \<and> Suc j < length (c # cs) \<and> 0 \<le> offset \<and> offset < (c # cs) ! Suc j
        \<and> prior + sum_list (take (Suc j) (c # cs)) + offset = index"
      using False j by simp
    then show ?thesis by blast
  qed
qed

lemma scan_encode:
  assumes "\<forall>c \<in> set cs. 0 \<le> c" "j < length cs" "0 \<le> offset" "offset < cs ! j"
  shows "IndexToPosition_scan cs sec prior (prior + sum_list (take j cs) + offset)
         = Some (sec + int j, offset)"
  using assms
proof (induction cs arbitrary: sec prior j)
  case Nil
  then show ?case by simp
next
  case (Cons c cs)
  show ?case
  proof (cases j)
    case 0
    then show ?thesis using Cons.prems by simp
  next
    case (Suc j')
    have nn: "0 \<le> sum_list (take j' cs)"
      using Cons.prems(1) by (intro sum_list_take_nonneg) simp
    have "IndexToPosition_scan cs (sec + 1) (prior + c) (prior + c + sum_list (take j' cs) + offset)
        = Some (sec + 1 + int j', offset)"
      using Cons.prems Suc by (intro Cons.IH) simp_all
    then show ?thesis using Suc nn Cons.prems(3) by (simp add: add.assoc)
  qed
qed

lemma sum_list_take_less:
  assumes "\<forall>c \<in> set cs. (0::int) \<le> c" "j < length cs" "offset < cs ! j"
  shows "sum_list (take j cs) + offset < sum_list cs"
proof -
  have "cs = take j cs @ cs ! j # drop (Suc j) cs" using assms(2) by (rule id_take_nth_drop)
  then have "sum_list cs = sum_list (take j cs) + cs ! j + sum_list (drop (Suc j) cs)"
    by (metis sum_list.Cons sum_list.append add.assoc)
  moreover have "0 \<le> sum_list (drop (Suc j) cs)"
    using assms(1) by (intro sum_list_nonneg) (auto dest: in_set_dropD)
  ultimately show ?thesis using assms(3) by simp
qed

text \<open>
  C1, on the conversion modelled from the spec. For a column count \<open>C \<ge> 1\<close> and
  section counts that are not negative, the conversion is a bijection between the
  linear indices in range and the positions in range. Decoding an index in range, as
  a press or release does, gives a section and an offset within its count, and
  encoding them again, as the hovered index is computed (the index of the section's
  first item plus \<open>row * C + column\<close>), gives the index back. Encoding a cell
  \<open>(row, column)\<close> of a section, with \<open>column < C\<close> and the offset within the count,
  gives an index in range that decodes to that section and offset.
\<close>

theorem index_position_bijection:
  assumes "1 \<le> C" "\<forall>c \<in> set counts'. 0 \<le> c"
  shows "(\<forall>index. 0 \<le> index \<and> index < sum_list counts' \<longrightarrow>
           (\<exists>section offset. IndexToPosition_spec counts' index = Some (section, offset)
              \<and> 0 \<le> section \<and> section < int (length counts')
              \<and> 0 \<le> offset \<and> offset < counts' ! nat section
              \<and> PositionToIndex_spec counts' section 0 + ((offset div C) * C + offset mod C)
                  = index))
       \<and> (\<forall>section row column. 0 \<le> section \<and> section < int (length counts')
             \<and> 0 \<le> row \<and> 0 \<le> column \<and> column < C
             \<and> row * C + column < counts' ! nat section \<longrightarrow>
           0 \<le> PositionToIndex_spec counts' section 0 + (row * C + column)
           \<and> PositionToIndex_spec counts' section 0 + (row * C + column) < sum_list counts'
           \<and> IndexToPosition_spec counts' (PositionToIndex_spec counts' section 0 + (row * C + column))
               = Some (section, row * C + column))"
proof (intro conjI allI impI)
  fix index assume i: "0 \<le> index \<and> index < sum_list counts'"
  then obtain j offset where j: "IndexToPosition_scan counts' 0 0 index = Some (0 + int j, offset)"
      "j < length counts'" "0 \<le> offset" "offset < counts' ! j"
      "0 + sum_list (take j counts') + offset = index"
    using scan_decode [OF assms(2), of 0 index 0] by auto
  have "IndexToPosition_spec counts' index = Some (int j, offset)
      \<and> 0 \<le> int j \<and> int j < int (length counts')
      \<and> 0 \<le> offset \<and> offset < counts' ! nat (int j)
      \<and> PositionToIndex_spec counts' (int j) 0 + ((offset div C) * C + offset mod C) = index"
    using i j by (simp add: IndexToPosition_spec_def PositionToIndex_spec_def)
  then show "\<exists>section offset. IndexToPosition_spec counts' index = Some (section, offset)
              \<and> 0 \<le> section \<and> section < int (length counts')
              \<and> 0 \<le> offset \<and> offset < counts' ! nat section
              \<and> PositionToIndex_spec counts' section 0 + ((offset div C) * C + offset mod C)
                  = index"
    by blast
next
  fix sec row column
  assume a: "0 \<le> sec \<and> sec < int (length counts')
             \<and> 0 \<le> row \<and> 0 \<le> column \<and> column < C
             \<and> row * C + column < counts' ! nat sec"
  define j where "j = nat sec"
  define offset where "offset = row * C + column"
  have j: "j < length counts'" "sec = int j" using a by (auto simp: j_def)
  have o: "0 \<le> offset" "offset < counts' ! j" using a assms(1) by (simp_all add: offset_def j_def)
  have nn: "0 \<le> sum_list (take j counts')" using assms(2) by (rule sum_list_take_nonneg)
  show "0 \<le> PositionToIndex_spec counts' sec 0 + (row * C + column)"
    using nn o by (simp add: PositionToIndex_spec_def j offset_def)
  show "PositionToIndex_spec counts' sec 0 + (row * C + column) < sum_list counts'"
    using sum_list_take_less [OF assms(2) j(1) o(2)]
    by (simp add: PositionToIndex_spec_def j offset_def)
  show "IndexToPosition_spec counts' (PositionToIndex_spec counts' sec 0 + (row * C + column))
               = Some (sec, row * C + column)"
    using scan_encode [OF assms(2) j(1) o, of 0 0] nn o
    by (simp add: IndexToPosition_spec_def PositionToIndex_spec_def j offset_def [symmetric])
qed

theorem index_position_bijection_witness:
  "(1::int) \<le> 8
   \<and> PositionToIndex_spec [5, 0, 2] 2 0 + (0 * 8 + 1) = 6
   \<and> IndexToPosition_spec [5, 0, 2] 6 = Some (2, 1)
   \<and> IndexToPosition_spec [5, 0, 2] 2 = Some (0, 2)
   \<and> PositionToIndex_spec [5, 0, 2] 0 0 + ((2 div 8) * 8 + 2 mod 8) = 2"
proof -
  have h: "(1::int) \<le> 8" "\<forall>c \<in> set [5, 0, 2::int]. 0 \<le> c" by simp_all
  have e: "PositionToIndex_spec [5, 0, 2] 2 0 + (0 * 8 + 1) = 6"
    by (simp add: PositionToIndex_spec_def)
  have "IndexToPosition_spec [5, 0, 2] (PositionToIndex_spec [5, 0, 2] 2 0 + (0 * 8 + 1))
        = Some (2, 0 * 8 + 1)"
    using index_position_bijection [OF h, THEN conjunct2, rule_format, of 2 0 1] by simp
  then have d: "IndexToPosition_spec [5, 0, 2] 6 = Some (2, 1)" unfolding e by simp
  have "\<exists>section offset. IndexToPosition_spec [5, 0, 2] 2 = Some (section, offset)
              \<and> 0 \<le> section \<and> section < int (length [5, 0, 2::int])
              \<and> 0 \<le> offset \<and> offset < [5, 0, 2] ! nat section
              \<and> PositionToIndex_spec [5, 0, 2] section 0 + ((offset div 8) * 8 + offset mod 8)
                  = 2"
    using index_position_bijection [OF h, THEN conjunct1, rule_format, of 2] by simp
  moreover have "IndexToPosition_spec [5, 0, 2] 2 = Some (0, 2)"
    by (simp add: IndexToPosition_spec_def)
  ultimately have "PositionToIndex_spec [5, 0, 2] 0 0 + ((2 div 8) * 8 + 2 mod 8) = 2"
    by auto
  then show ?thesis using e d \<open>IndexToPosition_spec [5, 0, 2] 2 = Some (0, 2)\<close> by simp
qed

section \<open>Selection, press and release\<close>

lemma view_only_refl: "view_only w w"
  by (simp add: view_only_def)

lemma view_only_trans: "view_only w w' \<Longrightarrow> view_only w' w'' \<Longrightarrow> view_only w w''"
proof -
  assume a: "view_only w w'" and b: "view_only w' w''"
  have "w''\<lparr>selected := selected w', picker := picker w', updates := updates w'\<rparr>
          \<lparr>selected := selected w, picker := picker w, updates := updates w\<rparr> = w"
    using a b by (simp only: view_only_def)
  then show ?thesis by (simp add: view_only_def)
qed

lemma view_only_fields:
  assumes "view_only w w'"
  shows "chosenLog w' = chosenLog w" "recentLog w' = recentLog w"
    "customChosenLog w' = customChosenLog w" "emojiVariants w' = emojiVariants w"
    "emoji w' = emoji w" "pressedSel w' = pressedSel w" "pickerSel w' = pickerSel w"
    "showPickerTimer w' = showPickerTimer w" "lastMousePos w' = lastMousePos w"
    "same_layout w w'" "instances w' = instances w" "repaints w' = repaints w"
    "scrollDisabled w' = scrollDisabled w" "visibleTop w' = visibleTop w"
    "pickerPlaceX w' = pickerPlaceX w"
proof -
  let ?v = "w'\<lparr>selected := selected w, picker := picker w, updates := updates w\<rparr>"
  have e: "?v = w" using assms by (simp add: view_only_def)
  have "chosenLog ?v = chosenLog w" "recentLog ?v = recentLog w"
    "customChosenLog ?v = customChosenLog w" "emojiVariants ?v = emojiVariants w"
    "emoji ?v = emoji w" "pressedSel ?v = pressedSel w" "pickerSel ?v = pickerSel w"
    "showPickerTimer ?v = showPickerTimer w" "lastMousePos ?v = lastMousePos w"
    "same_layout w ?v" "instances ?v = instances w" "repaints ?v = repaints w"
    "scrollDisabled ?v = scrollDisabled w" "visibleTop ?v = visibleTop w"
    "pickerPlaceX ?v = pickerPlaceX w"
    by (simp_all only: e) (simp add: same_layout_def)
  then show "chosenLog w' = chosenLog w" "recentLog w' = recentLog w"
    "customChosenLog w' = customChosenLog w" "emojiVariants w' = emojiVariants w"
    "emoji w' = emoji w" "pressedSel w' = pressedSel w" "pickerSel w' = pickerSel w"
    "showPickerTimer w' = showPickerTimer w" "lastMousePos w' = lastMousePos w"
    "same_layout w w'" "instances w' = instances w" "repaints w' = repaints w"
    "scrollDisabled w' = scrollDisabled w" "visibleTop w' = visibleTop w"
    "pickerPlaceX w' = pickerPlaceX w"
    by (simp_all add: same_layout_def)
qed

lemma enumerate_from_cong:
  assumes "next_info w' = next_info w"
  shows "enumerate_from w' i tp cs callback a = enumerate_from w i tp cs callback a"
  by (induction cs arbitrary: i tp a) (simp_all add: assms Let_def split_beta)

lemma same_layout_next_info: "same_layout w w' \<Longrightarrow> next_info w' = next_info w"
  by (simp add: same_layout_def next_info_def fun_eq_iff)

lemma same_layout_enumerate:
  assumes "same_layout w w'"
  shows "enumerateSections w' callback a = enumerateSections w callback a"
proof -
  have n: "next_info w' = next_info w" using assms by (rule same_layout_next_info)
  show ?thesis using assms
    by (simp add: enumerateSections_def section_counts_def same_layout_def
        enumerate_from_cong [OF n])
qed

lemma same_layout_sectionsCount: "same_layout w w' \<Longrightarrow> sectionsCount w' = sectionsCount w"
  by (simp add: same_layout_def sectionsCount_def)

lemma same_layout_sectionInfo: "same_layout w w' \<Longrightarrow> sectionInfo w' = sectionInfo w"
  by (simp add: sectionInfo_def fun_eq_iff same_layout_enumerate same_layout_sectionsCount)

lemma same_layout_sectionInfoByOffset:
  "same_layout w w' \<Longrightarrow> sectionInfoByOffset w' = sectionInfoByOffset w"
  by (simp add: sectionInfoByOffset_def fun_eq_iff same_layout_enumerate same_layout_sectionsCount)

lemma same_layout_emojiRect: "same_layout w w' \<Longrightarrow> emojiRect w' = emojiRect w"
  by (simp add: emojiRect_def fun_eq_iff same_layout_sectionInfo) (simp add: same_layout_def)

lemma same_layout_newSelectedAt:
  "same_layout w w' \<Longrightarrow> newSelectedAt L w' = newSelectedAt L w"
  by (auto simp: fun_eq_iff newSelectedAt_def same_layout_def Let_def)

lemma same_layout_indexAt: "same_layout w w' \<Longrightarrow> indexAt L w' = indexAt L w"
  by (simp add: indexAt_def fun_eq_iff same_layout_sectionInfoByOffset
      same_layout_newSelectedAt)
     (simp add: same_layout_def mapFromGlobal_def)

lemma same_layout_decodes: "same_layout w w' \<Longrightarrow> decodes L w' = decodes L w"
  by (simp add: decodes_def fun_eq_iff same_layout_sectionsCount)

subsection \<open>picker frame\<close>

lemma hidden_updateSelectedRectP [simp]: "hidden (updateSelectedRectP s r p) = hidden p"
  by (simp add: updateSelectedRectP_def rtlupdateP_def updateP_def Let_def split: prod.splits)

lemma hidden_setSelectedP [simp]: "hidden (setSelectedP s r n p) = hidden p"
  by (simp add: setSelectedP_def)

lemma hidden_clearSelectionP [simp]: "hidden (clearSelectionP s r p) = hidden p"
  by (simp add: clearSelectionP_def Let_def)

lemma hidden_hideAnimatedP [simp]: "hidden (hideAnimatedP s r p) = hidden p"
  by (simp add: hideAnimatedP_def Let_def)

lemma hidden_showAnimatedP:
  "hidden (showAnimatedP s r p) = (hidden p \<and> ignoreShow p)"
  by (auto simp: showAnimatedP_def Let_def)

subsection \<open>selection\<close>

lemma enumerateSections_Some:
  "0 < columnCount w \<Longrightarrow> \<exists>r. enumerateSections w callback a = Some r"
  by (simp add: enumerateSections_def)

lemma emojiRect_Some:
  assumes "0 < columnCount w" "0 \<le> sec" "sec < sectionsCount w"
  shows "\<exists>r. emojiRect w sec sel = Some r"
proof -
  obtain info where "sectionInfo w sec = Some info"
    using assms by (auto simp: sectionInfo_def enumerateSections_def)
  then show ?thesis using assms(1) by (simp add: emojiRect_def Let_def)
qed

lemma updateSelectedRect_Some:
  assumes "0 < columnCount w" "decodes L w (selected w)"
  shows "\<exists>u. updateSelectedRect L w = Some (w\<lparr>updates := u\<rparr>)"
proof (cases "selected w < 0")
  case True
  then have "updateSelectedRect L w = Some (w\<lparr>updates := updates w\<rparr>)"
    by (simp add: updateSelectedRect_def)
  then show ?thesis by blast
next
  case False
  obtain sec sel where p: "IndexToPosition L (selected w) = (sec, sel)" by force
  then have "0 \<le> sec" "sec < sectionsCount w" using assms(2) False by (simp_all add: decodes_def)
  then obtain r where "emojiRect w sec sel = Some r" using emojiRect_Some assms(1) by blast
  then have "updateSelectedRect L w = Some (w\<lparr>updates := updates (rtlupdate r w)\<rparr>)"
    using False p
    by (simp add: updateSelectedRect_def rtlupdate_def update_def split: prod.splits)
  then show ?thesis by blast
qed

lemma setSelected_Some:
  assumes "0 < columnCount w" "decodes L w (selected w)" "decodes L w n"
  shows "\<exists>w'. setSelected L n w = Some w' \<and> selected w' = n \<and> view_only w w'
            \<and> hidden (picker w') = hidden (picker w)
            \<and> (hidden (picker w) \<longrightarrow> picker w' = picker w)"
proof (cases "selected w = n")
  case True
  then show ?thesis by (simp add: setSelected_def view_only_def)
next
  case False
  obtain u where u: "updateSelectedRect L w = Some (w\<lparr>updates := u\<rparr>)"
    using updateSelectedRect_Some [OF assms(1,2)] by blast
  define w1 where "w1 = w\<lparr>updates := u, selected := n\<rparr>"
  have "0 < columnCount w1" using assms(1) by (simp add: w1_def)
  moreover have "decodes L w1 (selected w1)"
    using assms(3) by (simp add: w1_def decodes_def sectionsCount_def)
  ultimately obtain u' where u': "updateSelectedRect L w1 = Some (w1\<lparr>updates := u'\<rparr>)"
    using updateSelectedRect_Some by blast
  define w2 where "w2 = w1\<lparr>updates := u'\<rparr>"
  define w' where "w' = (if selected w2 \<ge> 0 \<and> \<not> hidden (picker w2)
              then (if selected w2 \<noteq> pickerSel w2
                    then w2\<lparr>picker := hideAnimatedP (st w2) (rtl w2) (picker w2)\<rparr>
                    else w2\<lparr>picker := showAnimatedP (st w2) (rtl w2) (picker w2)\<rparr>)
              else w2)"
  have run: "setSelected L n w = Some w'"
    using False u u' by (simp add: setSelected_def w1_def w2_def w'_def)
  have "selected w' = n" by (simp add: w'_def w2_def w1_def)
  moreover have "view_only w w'" by (simp add: view_only_def w'_def w2_def w1_def)
  moreover have "hidden (picker w') = hidden (picker w)"
    by (simp add: w'_def w2_def w1_def hidden_showAnimatedP)
  moreover have "hidden (picker w) \<longrightarrow> picker w' = picker w"
    by (simp add: w'_def w2_def w1_def)
  ultimately show ?thesis using run by blast
qed

lemma indexAt_Some: "0 < columnCount w \<Longrightarrow> \<exists>n. indexAt L w p = Some n"
  by (simp add: indexAt_def sectionInfoByOffset_def enumerateSections_def Let_def)

lemma updateSelected_eq:
  "updateSelected L w =
     (if pressedSel w \<ge> 0 \<or> pickerSel w \<ge> 0 then Some w
      else Option.bind (indexAt L w (lastMousePos w)) (\<lambda>n. setSelected L n w))"
  by (cases "sectionInfoByOffset w (snd (mapFromGlobal w (lastMousePos w)))")
     (simp_all add: updateSelected_def indexAt_def Let_def)

text \<open>
  C9. While a press is active (\<open>pressedSel \<ge> 0\<close>) or an overlay target is set
  (\<open>pickerSel \<ge> 0\<close>), \<^verbatim>\<open>updateSelected\<close> returns the widget as it was, and a pointer
  move, wherever it goes, completes and leaves the selected index of the grid, the
  pressed index and the overlay target unchanged.
\<close>

theorem hover_suspended:
  assumes "pressedSel w \<ge> 0 \<or> pickerSel w \<ge> 0"
  shows "updateSelected L w = Some w
    \<and> (\<exists>w'. mouseMoveEvent L globalPos' cursorPos w = Some w'
           \<and> selected w' = selected w \<and> pressedSel w' = pressedSel w
           \<and> pickerSel w' = pickerSel w)"
proof -
  have a: "updateSelected L w = Some w" using assms by (simp add: updateSelected_def)
  have b: "updateSelected L (w\<lparr>lastMousePos := g, picker := p\<rparr>)
           = Some (w\<lparr>lastMousePos := g, picker := p\<rparr>)" for g p
    using assms by (simp add: updateSelected_def)
  have c: "updateSelected L (w\<lparr>lastMousePos := g\<rparr>) = Some (w\<lparr>lastMousePos := g\<rparr>)" for g
    using assms by (simp add: updateSelected_def)
  show ?thesis using a by (simp add: mouseMoveEvent_def Let_def b c)
qed

lemma updateSelected_Some:
  assumes "0 < columnCount w" "decodes L w (selected w)"
    and "indexAt L w (lastMousePos w) = Some n" "decodes L w n"
  shows "\<exists>w'. updateSelected L w = Some w' \<and> view_only w w'
            \<and> selected w' = (if pressedSel w \<ge> 0 \<or> pickerSel w \<ge> 0 then selected w else n)
            \<and> hidden (picker w') = hidden (picker w)
            \<and> (hidden (picker w) \<longrightarrow> picker w' = picker w)"
proof (cases "pressedSel w \<ge> 0 \<or> pickerSel w \<ge> 0")
  case True
  then show ?thesis by (simp add: updateSelected_eq view_only_refl)
next
  case False
  then show ?thesis using setSelected_Some [OF assms(1,2,4)] assms(3)
    by (auto simp: updateSelected_eq)
qed

lemma release_decompose:
  assumes "w1 = w\<lparr>pressedSel := -1, lastMousePos := globalPos'\<rparr>"
    and "\<not> (\<not> hidden (picker w1)
            \<and> rect_contains (sizeP (picker w1)) (mapFromGlobalP (picker w1) (lastMousePos w1)))"
  shows "mouseReleaseEvent L globalPos' cursorPos w =
     Option.bind (updateSelected L (release_closePicker L w1))
       (\<lambda>w3. commit L (pressedSel w) (release_cancelTimer w3))"
  unfolding mouseReleaseEvent_def Let_def assms(1) [symmetric] release_closePicker_def
    release_cancelTimer_def commit_def
  using assms(2) by (simp only: if_False)

lemma release_closePicker_eq:
  "release_closePicker L w =
     (if closes_picker L w
      then w\<lparr>picker := hideAnimatedP (st w) (rtl w) (picker w), pickerSel := -1\<rparr> else w)"
proof (cases "emojiAt w (fst (IndexToPosition L (pickerSel w)))
                         (snd (IndexToPosition L (pickerSel w)))")
  case None
  then show ?thesis by (simp add: release_closePicker_def closes_picker_def split_beta)
next
  case (Some e)
  then show ?thesis by (auto simp: release_closePicker_def closes_picker_def split_beta)
qed

lemma closes_picker_cong:
  "closes_picker L (w\<lparr>pressedSel := a, lastMousePos := b\<rparr>) = closes_picker L w"
  by (simp add: closes_picker_def emojiAt_def cong: option.case_cong)

lemma release_outside:
  assumes col: "0 < columnCount w"
    and out: "hidden (picker w)
              \<or> \<not> rect_contains (sizeP (picker w)) (mapFromGlobalP (picker w) globalPos')"
    and sel: "decodes L w (selected w)"
    and idx: "indexAt L w globalPos' = Some n" "decodes L w n"
  shows "\<exists>w4. mouseReleaseEvent L globalPos' cursorPos w = commit L (pressedSel w) w4
     \<and> chosenLog w4 = chosenLog w \<and> recentLog w4 = recentLog w
     \<and> customChosenLog w4 = customChosenLog w \<and> emoji w4 = emoji w \<and> custom w4 = custom w
     \<and> emojiVariants w4 = emojiVariants w \<and> pressedSel w4 = -1
     \<and> showPickerTimer w4 = None
     \<and> hidden (picker w4) = (hidden (picker w) \<or> showPickerTimer w \<noteq> None)
     \<and> selected w4 = (if pickerSel w \<ge> 0 \<and> \<not> closes_picker L w then selected w else n)"
proof -
  define w1 where "w1 = w\<lparr>pressedSel := -1, lastMousePos := globalPos'\<rparr>"
  define w2 where "w2 = release_closePicker L w1"
  have w2: "w2 = (if closes_picker L w
        then w1\<lparr>picker := hideAnimatedP (st w1) (rtl w1) (picker w1), pickerSel := -1\<rparr>
        else w1)"
    by (simp add: w2_def release_closePicker_eq) (simp add: w1_def closes_picker_cong)
  have l12: "same_layout w w2" by (simp add: same_layout_def w2 w1_def)
  have f2: "selected w2 = selected w" "pressedSel w2 = -1" "lastMousePos w2 = globalPos'"
    "pickerSel w2 = (if closes_picker L w then -1 else pickerSel w)"
    "hidden (picker w2) = hidden (picker w)" "showPickerTimer w2 = showPickerTimer w"
    "chosenLog w2 = chosenLog w" "recentLog w2 = recentLog w"
    "customChosenLog w2 = customChosenLog w" "emoji w2 = emoji w" "custom w2 = custom w"
    "emojiVariants w2 = emojiVariants w" "columnCount w2 = columnCount w"
    by (simp_all add: w2 w1_def)
  have d2: "decodes L w2 (selected w2)" "decodes L w2 n"
    using sel idx(2) by (simp_all add: same_layout_decodes [OF l12] f2)
  have i2: "indexAt L w2 (lastMousePos w2) = Some n"
    using idx(1) by (simp add: same_layout_indexAt [OF l12] f2)
  obtain w3 where w3: "updateSelected L w2 = Some w3" "view_only w2 w3"
      "selected w3 = (if pressedSel w2 \<ge> 0 \<or> pickerSel w2 \<ge> 0 then selected w2 else n)"
      "hidden (picker w3) = hidden (picker w2)"
    using updateSelected_Some [OF _ d2(1) i2 d2(2)] col f2 by auto
  note v3 = view_only_fields [OF w3(2)]
  define w4 where "w4 = release_cancelTimer w3"
  have notfwd: "\<not> (\<not> hidden (picker w1)
            \<and> rect_contains (sizeP (picker w1)) (mapFromGlobalP (picker w1) (lastMousePos w1)))"
    using out by (simp add: w1_def)
  have run: "mouseReleaseEvent L globalPos' cursorPos w = commit L (pressedSel w) w4"
    using release_decompose [OF w1_def notfwd, of L cursorPos] w3(1)
    by (simp add: w2_def w4_def)
  have "selected w4 = (if pickerSel w \<ge> 0 \<and> \<not> closes_picker L w then selected w else n)"
    using w3(3) f2 by (auto simp: w4_def release_cancelTimer_def)
  moreover have "hidden (picker w4) = (hidden (picker w) \<or> showPickerTimer w \<noteq> None)"
    using w3(4) v3(8) f2 by (auto simp: w4_def release_cancelTimer_def)
  moreover have "chosenLog w4 = chosenLog w" "recentLog w4 = recentLog w"
    "customChosenLog w4 = customChosenLog w" "emoji w4 = emoji w"
    "emojiVariants w4 = emojiVariants w" "pressedSel w4 = -1"
    using v3 f2 by (simp_all add: w4_def release_cancelTimer_def)
  moreover have "custom w4 = custom w"
    using v3(10) f2 by (simp add: w4_def release_cancelTimer_def same_layout_def)
  moreover have "showPickerTimer w4 = None"
    by (simp add: w4_def release_cancelTimer_def)
  ultimately show ?thesis using run by blast
qed

lemma emojiAt_cong: "emoji w' = emoji w \<Longrightarrow> emojiAt w' = emojiAt w"
  by (intro ext) (simp add: emojiAt_def)

subsection \<open>the overlay\<close>

lemma updateSelectedRectP_shape: "\<exists>u. updateSelectedRectP s r p = p\<lparr>updatesP := u\<rparr>"
proof -
  have "updateSelectedRectP s r p = p\<lparr>updatesP := updatesP (updateSelectedRectP s r p)\<rparr>"
    by (simp add: updateSelectedRectP_def rtlupdateP_def updateP_def Let_def split: prod.splits)
  then show ?thesis by blast
qed

lemma setSelectedP_shape:
  "\<exists>u. setSelectedP s r n p = p\<lparr>selectedP := n, updatesP := u\<rparr>"
proof (cases "selectedP p = n")
  case True
  then have "setSelectedP s r n p = p\<lparr>selectedP := n, updatesP := updatesP p\<rparr>"
    by (simp add: setSelectedP_def)
  then show ?thesis by blast
next
  case False
  obtain u where u: "updateSelectedRectP s r p = p\<lparr>updatesP := u\<rparr>"
    using updateSelectedRectP_shape by blast
  obtain u' where u': "updateSelectedRectP s r (p\<lparr>updatesP := u, selectedP := n\<rparr>)
      = p\<lparr>updatesP := u, selectedP := n\<rparr>\<lparr>updatesP := u'\<rparr>"
    using updateSelectedRectP_shape by blast
  have "setSelectedP s r n p = p\<lparr>selectedP := n, updatesP := u'\<rparr>"
    using False u u' by (simp add: setSelectedP_def)
  then show ?thesis by blast
qed

lemma selectedP_setSelectedP [simp]: "selectedP (setSelectedP s r n p) = n"
  using setSelectedP_shape [of s r n p] by auto

lemma variants_setSelectedP [simp]: "variants (setSelectedP s r n p) = variants p"
  using setSelectedP_shape [of s r n p] by auto

lemma ignoreShow_setSelectedP [simp]: "ignoreShow (setSelectedP s r n p) = ignoreShow p"
  using setSelectedP_shape [of s r n p] by auto

lemma cache_setSelectedP [simp]: "cache (setSelectedP s r n p) = cache p"
  using setSelectedP_shape [of s r n p] by auto

lemma hiding_setSelectedP [simp]: "hiding (setSelectedP s r n p) = hiding p"
  using setSelectedP_shape [of s r n p] by auto

lemma selectedP_updateSelectedP [simp]:
  "selectedP (updateSelectedP s r p) = newSelectedP s r p"
  by (simp add: updateSelectedP_def)

lemma variants_updateSelectedP [simp]: "variants (updateSelectedP s r p) = variants p"
  by (simp add: updateSelectedP_def)

lemma ignoreShow_updateSelectedP [simp]: "ignoreShow (updateSelectedP s r p) = ignoreShow p"
  by (simp add: updateSelectedP_def)

lemma hidden_updateSelectedP [simp]: "hidden (updateSelectedP s r p) = hidden p"
  by (simp add: updateSelectedP_def)

lemma cache_updateSelectedP [simp]: "cache (updateSelectedP s r p) = cache p"
  by (simp add: updateSelectedP_def)

lemma hiding_updateSelectedP [simp]: "hiding (updateSelectedP s r p) = hiding p"
  by (simp add: updateSelectedP_def)

lemma variants_clearSelectionP [simp]: "variants (clearSelectionP s r p) = variants p"
  by (simp add: clearSelectionP_def Let_def)

lemma ignoreShow_clearSelectionP [simp]: "ignoreShow (clearSelectionP s r p) = ignoreShow p"
  by (simp add: clearSelectionP_def Let_def)

lemma variants_hideAnimatedP [simp]: "variants (hideAnimatedP s r p) = variants p"
  by (simp add: hideAnimatedP_def Let_def)

lemma ignoreShow_hideAnimatedP [simp]: "ignoreShow (hideAnimatedP s r p) = ignoreShow p"
  by (simp add: hideAnimatedP_def Let_def)

lemma hiding_hideAnimatedP [simp]: "hiding (hideAnimatedP s r p)"
  by (simp add: hideAnimatedP_def Let_def)

lemma variants_showAnimatedP [simp]: "variants (showAnimatedP s r p) = variants p"
  by (simp add: showAnimatedP_def Let_def)

lemma newSelectedP_cong:
  assumes "lastMousePosP p' = lastMousePosP p" "parentGlobal p' = parentGlobal p"
    "pos p' = pos p" "sizeP p' = sizeP p" "singleSizeP p' = singleSizeP p"
    "variants p' = variants p"
  shows "newSelectedP s r p' = newSelectedP s r p"
  unfolding newSelectedP_def mapFromGlobalP_def assms ..

lemma newSelectedP_pressed [simp]:
  "newSelectedP s r (p\<lparr>pressedSelP := a\<rparr>) = newSelectedP s r p"
  by (rule newSelectedP_cong) simp_all

lemma showEmojiP_shown:
  assumes "hasVariants e"
  shows "\<not> hidden (showEmojiP s r e p)"
    and "variants (showEmojiP s r e p) = map (\<lambda>i. variant e (int i)) [0..<variantsCount e + 1]"
  using assms
  by (simp_all add: showEmojiP_def updateSizeP_def updateP_def Let_def hidden_showAnimatedP)

lemma newSelectedP_range:
  assumes "variants p \<noteq> []" "0 \<le> newSelectedP s r p"
  shows "newSelectedP s r p < int (length (variants p))"
proof -
  define sw where "sw = fst (singleSizeP p)"
  define len where "len = int (length (variants p))"
  have len: "1 \<le> len" using assms(1) by (cases "variants p") (simp_all add: len_def)
  have step: "x' sdiv sw + 1 < len" if "0 \<le> x'" "x' < sw * (len - 1)" for x'
  proof -
    have "0 < sw * (len - 1)" using that by simp
    then have sw: "0 < sw" using len by (simp add: zero_less_mult_iff)
    have "sw * (x' div sw) + x' mod sw = x'" by simp
    moreover have "0 \<le> x' mod sw" using sw by simp
    ultimately have "sw * (x' div sw) < sw * (len - 1)" using that(2) by linarith
    then have "x' div sw < len - 1" using sw by (simp add: mult_less_cancel_left_pos)
    moreover have "x' sdiv sw = x' div sw"
      using that(1) sw by (simp add: signed_divide_int_def sgn_if)
    ultimately show ?thesis by simp
  qed
  show ?thesis using assms(2) len step
    by (auto simp: newSelectedP_def Let_def split_beta sw_def len_def split: if_splits)
qed

lemma pressedSelP_setSelectedP [simp]: "pressedSelP (setSelectedP s r n p) = pressedSelP p"
  using setSelectedP_shape [of s r n p] by auto

lemma pressedSelP_updateSelectedP [simp]:
  "pressedSelP (updateSelectedP s r p) = pressedSelP p"
  by (simp add: updateSelectedP_def)

lemma showEmojiP_pressed:
  "hasVariants e \<Longrightarrow> hidden p \<Longrightarrow> pressedSelP (showEmojiP s r e p) = -1"
  by (simp add: showEmojiP_def updateSizeP_def updateP_def Let_def showAnimatedP_def
      clearSelectionP_def)

lemma variant_fields:
  "nonColoredId (variant e k) = nonColoredId e" "hasVariants (variant e k) = hasVariants e"
  "0 \<le> k \<Longrightarrow> k \<le> int (variantsCount e) \<Longrightarrow> variantIndex (variant e k) = nat k"
  by (simp_all add: variant_def hasVariants_def)

lemma frame_setSelectedP [simp]:
  "sizeP (setSelectedP s r n p) = sizeP p" "pos (setSelectedP s r n p) = pos p"
  "parentGlobal (setSelectedP s r n p) = parentGlobal p"
  using setSelectedP_shape [of s r n p] by auto

lemma frame_clearSelectionP [simp]:
  "sizeP (clearSelectionP s r p) = sizeP p" "pos (clearSelectionP s r p) = pos p"
  "parentGlobal (clearSelectionP s r p) = parentGlobal p"
  by (simp_all add: clearSelectionP_def Let_def)

lemma frame_hideAnimatedP [simp]:
  "sizeP (hideAnimatedP s r p) = sizeP p" "pos (hideAnimatedP s r p) = pos p"
  "parentGlobal (hideAnimatedP s r p) = parentGlobal p"
  by (simp_all add: hideAnimatedP_def Let_def)

lemma frame_showAnimatedP [simp]:
  "sizeP (showAnimatedP s r p) = sizeP p" "pos (showAnimatedP s r p) = pos p"
  "parentGlobal (showAnimatedP s r p) = parentGlobal p"
  by (simp_all add: showAnimatedP_def Let_def)

lemma mapFromGlobalP_frame:
  "pos p' = pos p \<Longrightarrow> parentGlobal p' = parentGlobal p \<Longrightarrow>
   mapFromGlobalP p' = mapFromGlobalP p"
  by (simp add: mapFromGlobalP_def fun_eq_iff)

subsection \<open>press and release\<close>

lemma rtlupdate_shape: "rtlupdate r w = w\<lparr>updates := updates (rtlupdate r w)\<rparr>"
  by (simp add: rtlupdate_def update_def split: prod.splits)

lemma picker_updateSelectedRect:
  assumes "updateSelectedRect L w = Some w1"
  shows "picker w1 = picker w \<and> st w1 = st w \<and> rtl w1 = rtl w"
proof (cases "selected w < 0")
  case True
  then show ?thesis using assms by (simp add: updateSelectedRect_def)
next
  case False
  obtain sec off where p: "IndexToPosition L (selected w) = (sec, off)" by force
  have "map_option (\<lambda>r. rtlupdate r w) (emojiRect w sec off) = Some w1"
    using assms False p by (simp add: updateSelectedRect_def)
  then obtain r where "w1 = rtlupdate r w" by auto
  then have "w1 = w\<lparr>updates := updates (rtlupdate r w)\<rparr>" using rtlupdate_shape by simp
  then show ?thesis by simp
qed

lemma setSelected_frame:
  assumes "setSelected L n w = Some w'"
  shows "sizeP (picker w') = sizeP (picker w) \<and> pos (picker w') = pos (picker w)
     \<and> parentGlobal (picker w') = parentGlobal (picker w)"
proof (cases "selected w = n")
  case True
  then show ?thesis using assms by (simp add: setSelected_def)
next
  case False
  obtain w1 where w1: "updateSelectedRect L w = Some w1"
    using assms False by (cases "updateSelectedRect L w") (simp_all add: setSelected_def)
  obtain w2 where w2: "updateSelectedRect L (w1\<lparr>selected := n\<rparr>) = Some w2"
    using assms False w1
    by (cases "updateSelectedRect L (w1\<lparr>selected := n\<rparr>)") (simp_all add: setSelected_def)
  have p1: "picker w1 = picker w" using picker_updateSelectedRect [OF w1] by simp
  have p2: "picker w2 = picker w" using picker_updateSelectedRect [OF w2] p1 by simp
  have "w' = (if selected w2 \<ge> 0 \<and> \<not> hidden (picker w2)
              then (if selected w2 \<noteq> pickerSel w2
                    then w2\<lparr>picker := hideAnimatedP (st w2) (rtl w2) (picker w2)\<rparr>
                    else w2\<lparr>picker := showAnimatedP (st w2) (rtl w2) (picker w2)\<rparr>)
              else w2)"
    using assms False w1 w2 by (simp add: setSelected_def)
  then show ?thesis using p2 by simp
qed

lemma updateSelected_frame:
  assumes "updateSelected L w = Some w'"
  shows "sizeP (picker w') = sizeP (picker w) \<and> pos (picker w') = pos (picker w)
     \<and> parentGlobal (picker w') = parentGlobal (picker w)"
proof (cases "pressedSel w \<ge> 0 \<or> pickerSel w \<ge> 0")
  case True
  then show ?thesis using assms by (simp add: updateSelected_eq)
next
  case False
  then obtain n where "setSelected L n w = Some w'"
    using assms by (cases "indexAt L w (lastMousePos w)") (simp_all add: updateSelected_eq)
  then show ?thesis by (rule setSelected_frame)
qed

lemma press_decompose:
  assumes "updateSelected L (w\<lparr>lastMousePos := p\<rparr>) = Some w2"
    and "hidden (picker w2) \<or> pickerSel w2 < 0"
  shows "mousePressEvent L p True w = press_arm L (w2\<lparr>pressedSel := selected w2\<rparr>)"
proof -
  have "checkPickerHide L w2 = Some (False, w2)"
    using assms(2) by (auto simp: checkPickerHide_def)
  then show ?thesis
    unfolding mousePressEvent_def press_arm_def Let_def using assms(1) by simp
qed

lemma press_idle:
  assumes col: "0 < columnCount w"
    and idle: "pressedSel w < 0" "pickerSel w < 0"
    and sel: "decodes L w (selected w)"
    and idx: "indexAt L w p = Some n" "decodes L w n"
  shows "\<exists>w3. mousePressEvent L p True w = press_arm L w3
     \<and> view_only (w\<lparr>lastMousePos := p, pressedSel := n\<rparr>) w3 \<and> selected w3 = n
     \<and> hidden (picker w3) = hidden (picker w)
     \<and> (hidden (picker w) \<longrightarrow> picker w3 = picker w)
     \<and> sizeP (picker w3) = sizeP (picker w)
     \<and> mapFromGlobalP (picker w3) = mapFromGlobalP (picker w)"
proof -
  define w0 where "w0 = w\<lparr>lastMousePos := p\<rparr>"
  have l: "same_layout w w0" by (simp add: same_layout_def w0_def)
  have f0: "columnCount w0 = columnCount w" "selected w0 = selected w"
    "lastMousePos w0 = p" "pressedSel w0 = pressedSel w" "pickerSel w0 = pickerSel w"
    "picker w0 = picker w"
    by (simp_all add: w0_def)
  have d0: "decodes L w0 (selected w0)" "decodes L w0 n"
    using sel idx(2) by (simp_all add: same_layout_decodes [OF l] f0)
  have i0: "indexAt L w0 (lastMousePos w0) = Some n"
    using idx(1) by (simp add: same_layout_indexAt [OF l] f0)
  obtain w2 where w2: "updateSelected L w0 = Some w2" "view_only w0 w2"
      "selected w2 = n" "hidden (picker w2) = hidden (picker w0)"
      "hidden (picker w0) \<longrightarrow> picker w2 = picker w0"
    using updateSelected_Some [OF _ d0(1) i0 d0(2)] col idle f0 by auto
  note v2 = view_only_fields [OF w2(2)]
  have "hidden (picker w2) \<or> pickerSel w2 < 0" using v2(7) idle f0 by simp
  then have run: "mousePressEvent L p True w = press_arm L (w2\<lparr>pressedSel := selected w2\<rparr>)"
    using press_decompose [where L = L and w = w and p = p and ?w2.0 = w2] w2(1) by (simp add: w0_def)
  have e: "w2\<lparr>selected := selected w0, picker := picker w0, updates := updates w0\<rparr> = w0"
    using w2(2) by (simp add: view_only_def)
  have swap: "w2\<lparr>pressedSel := n\<rparr>
      \<lparr>selected := selected w0, picker := picker w0, updates := updates w0\<rparr>
    = w2\<lparr>selected := selected w0, picker := picker w0, updates := updates w0\<rparr>
        \<lparr>pressedSel := n\<rparr>"
    by simp
  have v: "view_only (w\<lparr>lastMousePos := p, pressedSel := n\<rparr>) (w2\<lparr>pressedSel := selected w2\<rparr>)"
    unfolding view_only_def w2(3) using swap
    by (simp only: e) (simp add: w0_def)
  note g2 = updateSelected_frame [OF w2(1)]
  have m2: "mapFromGlobalP (picker w2) = mapFromGlobalP (picker w)"
    using g2 f0 by (intro mapFromGlobalP_frame) simp_all
  show ?thesis
    using run v w2(3,4,5) f0 g2 m2
    by (intro exI [of _ "w2\<lparr>pressedSel := selected w2\<rparr>"]) simp
qed

lemma pressed_fields:
  assumes "view_only (w\<lparr>lastMousePos := p, pressedSel := n\<rparr>) w3"
  shows "chosenLog w3 = chosenLog w" "recentLog w3 = recentLog w"
    "customChosenLog w3 = customChosenLog w" "emojiVariants w3 = emojiVariants w"
    "emoji w3 = emoji w" "pressedSel w3 = n" "pickerSel w3 = pickerSel w"
    "showPickerTimer w3 = showPickerTimer w" "lastMousePos w3 = p"
    "same_layout w w3" "columnCount w3 = columnCount w" "custom w3 = custom w"
    "visibleTop w3 = visibleTop w" "pickerPlaceX w3 = pickerPlaceX w"
    "st w3 = st w" "rtl w3 = rtl w" "width w3 = width w" "singleSize w3 = singleSize w"
proof -
  note v = view_only_fields [OF assms]
  show "chosenLog w3 = chosenLog w" "recentLog w3 = recentLog w"
    "customChosenLog w3 = customChosenLog w" "emojiVariants w3 = emojiVariants w"
    "emoji w3 = emoji w" "pressedSel w3 = n" "pickerSel w3 = pickerSel w"
    "showPickerTimer w3 = showPickerTimer w" "lastMousePos w3 = p"
    "visibleTop w3 = visibleTop w" "pickerPlaceX w3 = pickerPlaceX w"
    using v(1-9,14,15) by simp_all
  show l: "same_layout w w3" using v(10) by (simp add: same_layout_def)
  show "columnCount w3 = columnCount w" "custom w3 = custom w"
    "st w3 = st w" "rtl w3 = rtl w" "width w3 = width w" "singleSize w3 = singleSize w"
    using l by (simp_all add: same_layout_def)
qed



lemma press_release_stored:
  assumes col: "0 < columnCount w"
    and idle: "pressedSel w < 0" "pickerSel w < 0" "hidden (picker w)"
    and sel: "decodes L w (selected w)"
    and idx: "indexAt L w p = Some n" "decodes L w n"
    and idx': "indexAt L w q = Some m" "decodes L w m"
    and n0: "0 \<le> n"
    and item: "emojiAt w (fst (IndexToPosition L n)) (snd (IndexToPosition L n)) = Some e"
      "hasVariants e" "emojiVariants w (nonColoredId e) \<noteq> None"
  shows "(\<exists>w1. mousePressEvent L p True w = Some w1 \<and> showPickerTimer w1 = Some 500
            \<and> hidden (picker w1) \<and> pickerSel w1 = n \<and> pressedSel w1 = n)
     \<and> (\<exists>w'. press_release L p q c w = Some w'
     \<and> chosenLog w' = chosenLog w @ [e] \<and> recentLog w' = recentLog w @ [e]
     \<and> customChosenLog w' = customChosenLog w \<and> pressedSel w' = -1
     \<and> showPickerTimer w' = None \<and> hidden (picker w'))"
proof -
  obtain w3 where press: "mousePressEvent L p True w = press_arm L w3"
    and v: "view_only (w\<lparr>lastMousePos := p, pressedSel := n\<rparr>) w3"
    and s3: "selected w3 = n" and h3: "hidden (picker w3) = hidden (picker w)"
    using press_idle [OF col idle(1,2) sel idx] by blast
  note f3 = pressed_fields [OF v]
  have ea3: "emojiAt w3 = emojiAt w" using f3(5) by (rule emojiAt_cong)
  define w5 where "w5 = w3\<lparr>pickerSel := n, showPickerTimer := Some 500\<rparr>"
  have arm: "press_arm L w3 = Some w5"
    using n0 item by (auto simp: press_arm_def s3 ea3 split_beta f3 w5_def)
  have l5: "same_layout w w5" using f3(10) by (simp add: same_layout_def w5_def)
  have f5: "columnCount w5 = columnCount w" "selected w5 = n" "pressedSel w5 = n"
    "pickerSel w5 = n" "hidden (picker w5)" "showPickerTimer w5 = Some 500"
    "chosenLog w5 = chosenLog w" "recentLog w5 = recentLog w"
    "customChosenLog w5 = customChosenLog w" "emoji w5 = emoji w"
    using f3 s3 h3 idle(3) by (simp_all add: w5_def)
  have first: "\<exists>w1. mousePressEvent L p True w = Some w1 \<and> showPickerTimer w1 = Some 500
            \<and> hidden (picker w1) \<and> pickerSel w1 = n \<and> pressedSel w1 = n"
    using press arm f5 by simp
  have col5: "0 < columnCount w5" using col by (simp add: f5)
  have out5: "hidden (picker w5)
      \<or> \<not> rect_contains (sizeP (picker w5)) (mapFromGlobalP (picker w5) q)"
    using f5 by simp
  have d5: "decodes L w5 (selected w5)" "decodes L w5 m"
    using idx(2) idx'(2) by (simp_all add: same_layout_decodes [OF l5] f5)
  have i5: "indexAt L w5 q = Some m"
    using idx'(1) by (simp add: same_layout_indexAt [OF l5])
  obtain w4 where run: "mouseReleaseEvent L q c w5 = commit L (pressedSel w5) w4"
    and logs: "chosenLog w4 = chosenLog w5" "recentLog w4 = recentLog w5"
      "customChosenLog w4 = customChosenLog w5"
    and em: "emoji w4 = emoji w5"
    and pr: "pressedSel w4 = -1"
    and tm: "showPickerTimer w4 = None"
    and hid: "hidden (picker w4) = (hidden (picker w5) \<or> showPickerTimer w5 \<noteq> None)"
    and s4: "selected w4 = (if pickerSel w5 \<ge> 0 \<and> \<not> closes_picker L w5 then selected w5 else m)"
    using release_outside [OF col5 out5 d5(1) i5 d5(2), of c] by blast
  have ea4: "emojiAt w4 = emojiAt w" using em f5 emojiAt_cong [of w4 w] by simp
  have nc: "\<not> closes_picker L w5" using f5 by (simp add: closes_picker_def)
  have s4': "selected w4 = n" using s4 nc n0 by (simp add: f5)
  have h4: "hidden (picker w4)" using hid f5 by simp
  have "commit L n w4 = Some (selectEmoji e w4)"
    using n0 item h4 by (simp add: commit_def s4' ea4 split_beta)
  then have "press_release L p q c w = Some (selectEmoji e w4)"
    by (simp add: press_release_def press arm run f5)
  then have "\<exists>w'. press_release L p q c w = Some w'
     \<and> chosenLog w' = chosenLog w @ [e] \<and> recentLog w' = recentLog w @ [e]
     \<and> customChosenLog w' = customChosenLog w \<and> pressedSel w' = -1
     \<and> showPickerTimer w' = None \<and> hidden (picker w')"
    using logs pr tm h4 by (simp add: selectEmoji_def f5)
  then show ?thesis using first by blast
qed

lemma showPicker_shown:
  assumes col: "0 < columnCount w"
    and tgt: "0 \<le> pickerSel w" "decodes L w (pickerSel w)"
    and item: "emojiAt w (fst (IndexToPosition L (pickerSel w)))
                        (snd (IndexToPosition L (pickerSel w))) = Some e" "hasVariants e"
  shows "\<exists>pk. showPicker L w = Some (w\<lparr>picker := pk, scrollDisabled := True\<rparr>)
     \<and> \<not> hidden pk
     \<and> variants pk = map (\<lambda>i. variant e (int i)) [0..<variantsCount e + 1]
     \<and> (hidden (picker w) \<longrightarrow> pressedSelP pk = -1)"
proof -
  obtain sec off where p: "IndexToPosition L (pickerSel w) = (sec, off)" by force
  then have "0 \<le> sec" "sec < sectionsCount w" using tgt by (simp_all add: decodes_def)
  then obtain r where r: "emojiRect w sec off = Some r" using emojiRect_Some col by blast
  define p1 where "p1 = showEmojiP (st w) (rtl w) e (picker w)"
  have s: "\<not> hidden p1"
    "variants p1 = map (\<lambda>i. variant e (int i)) [0..<variantsCount e + 1]"
    using showEmojiP_shown [OF item(2)] by (simp_all add: p1_def)
  have s': "hidden (picker w) \<longrightarrow> pressedSelP p1 = -1"
    using showEmojiP_pressed [OF item(2)] by (simp add: p1_def)
  define y0 where "y0 = fst (snd r) - (snd (sizeP p1) - roundRadiusSmall (st w) + visibleTop w)"
  define y where "y = (if y0 < emojiPanHeader (st w)
                       then y0 + (snd (sizeP p1) - roundRadiusSmall (st w)
                                   + snd (singleSize w) - roundRadiusSmall (st w))
                       else y0)"
  define x where "x = pickerPlaceX w (width w - fst (sizeP p1)) (off smod columnCount w)
                        (columnCount w) (rtl w)"
  have it: "emojiAt w sec off = Some e" using item(1) p by simp
  have "showPicker L w = Some (w\<lparr>picker := p1\<lparr>pos := (x, y)\<rparr>, scrollDisabled := True\<rparr>)"
    using tgt(1) it item(2) r
    by (simp add: showPicker_def p Let_def p1_def x_def y_def y0_def)
  then show ?thesis using s s' by (intro exI [of _ "p1\<lparr>pos := (x, y)\<rparr>"]) simp
qed




subsection \<open>a panel with two built-in sections\<close>

lemma layout_ex_simps:
  "IndexToPosition layout_ex 0 = (0, 0)"
  "IndexToPosition layout_ex 2 = (0, 2)"
  "IndexToPosition layout_ex 5 = (2, 0)"
  "PositionToIndex layout_ex 0 0 = 0"
  "PositionToIndex layout_ex 2 0 = 5"
  by (simp_all add: layout_ex_def layout_of_def IndexToPosition_spec_def PositionToIndex_spec_def)

lemma sectionInfoByOffset_panel_emoji:
  "sectionInfoByOffset panel_emoji 20
    = Some \<lparr>section' = 0, count = 5, top' = 0, rowsCount = 1, rowsTop = 8, rowsBottom = 44\<rparr>"
  by (simp add: sectionInfoByOffset_def enumerateSections_def sectionsCount_def
      section_counts_def panel_emoji_def panel_ex_def style_ex_def kEmojiSectionCount_def
      next_info_def Let_def signed_divide_int_def upt_rec)

lemma panel_emoji_fields:
  "globalPos panel_emoji = (0, 0)" "rtl panel_emoji = False" "width panel_emoji = 320"
  "rowsLeft panel_emoji = 0" "columnCount panel_emoji = 8" "singleSize panel_emoji = (40, 36)"
  "custom panel_emoji = []" "picker panel_emoji = picker_ex" "pickerSel panel_emoji = -1"
  "showPickerTimer panel_emoji = None" "emojiVariants panel_emoji = Map.empty"
  "chosenLog panel_emoji = []" "recentLog panel_emoji = []" "customChosenLog panel_emoji = []"
  "selected panel_emoji = -1" "pressedSel panel_emoji = -1"
  by (simp_all add: panel_emoji_def panel_ex_def)

lemma indexAt_panel_emoji:
  "indexAt layout_ex panel_emoji (90, 20) = Some 2"
  "indexAt layout_ex panel_emoji (10, 20) = Some 0"
  by (simp_all add: indexAt_def mapFromGlobal_def panel_emoji_fields
      sectionInfoByOffset_panel_emoji newSelectedAt_def layout_ex_simps Let_def
      signed_divide_int_def)

lemma emojiAt_panel_emoji:
  "emojiAt panel_emoji 0 2 = Some (plain ''b'')"
  "emojiAt panel_emoji 0 0 = Some hand"
  by (simp_all add: emojiAt_def item_at_def panel_emoji_def kEmojiSectionCount_def)

lemma sectionsCount_panel_emoji: "sectionsCount panel_emoji = 8"
  by (simp add: sectionsCount_def kEmojiSectionCount_def panel_emoji_fields)

lemma showEmojiP_hand:
  "showEmojiP style_ex False hand picker_ex = picker_open\<lparr>pos := (0, 0)\<rparr>"
  by (simp add: showEmojiP_def hand_def hasVariants_def picker_ex_def picker_open_def
      updateSizeP_def updateP_def updateSelectedP_def setSelectedP_def newSelectedP_def
      mapFromGlobalP_def mapToGlobalP_def showAnimatedP_def clearSelectionP_def
      updateSelectedRectP_def style_ex_def margins_left_def margins_top_def margins_right_def
      margins_bottom_def Let_def)

lemma emojiRect_panel_emoji: "emojiRect panel_emoji 0 0 = Some (0, 8, 40, 36)"
  by (simp add: emojiRect_def sectionInfo_def enumerateSections_def sectionsCount_def
      section_counts_def panel_emoji_def panel_ex_def style_ex_def kEmojiSectionCount_def
      next_info_def Let_def signed_divide_int_def signed_modulo_int_def upt_rec)

lemma press_panel_emoji:
  "mousePressEvent layout_ex (10, 20) True panel_emoji = Some panel_shown"
proof -
  define w0 where "w0 = panel_emoji\<lparr>lastMousePos := (10, 20)\<rparr>"
  define w1 where "w1 = w0\<lparr>selected := 0\<rparr>"
  define w2 where "w2 = w1\<lparr>updates := [(0, 8, 40, 36)]\<rparr>"
  have l0: "same_layout panel_emoji w0" by (simp add: same_layout_def w0_def)
  have l1: "same_layout panel_emoji w1" by (simp add: same_layout_def w0_def w1_def)
  have f0: "selected w0 = -1" "pressedSel w0 = -1" "pickerSel w0 = -1"
    "lastMousePos w0 = (10, 20)"
    by (simp_all add: w0_def panel_emoji_fields)
  have i0: "indexAt layout_ex w0 (10, 20) = Some 0"
    by (simp add: same_layout_indexAt [OF l0] indexAt_panel_emoji)
  have u0: "updateSelectedRect layout_ex w0 = Some w0"
    by (simp add: updateSelectedRect_def f0)
  have r1: "emojiRect w1 0 0 = Some (0, 8, 40, 36)"
    by (simp add: same_layout_emojiRect [OF l1] emojiRect_panel_emoji)
  have f1: "selected w1 = 0" "rtl w1 = False" "updates w1 = []"
    by (simp_all add: w1_def w0_def panel_emoji_def panel_ex_def)
  have u1: "updateSelectedRect layout_ex w1 = Some w2"
    by (simp add: updateSelectedRect_def f1 layout_ex_simps r1 rtlupdate_def update_def w2_def)
  have f2: "selected w2 = 0" "hidden (picker w2)" "pickerSel w2 = -1"
    by (simp_all add: w2_def w1_def w0_def panel_emoji_fields picker_ex_def)
  have s: "setSelected layout_ex 0 w0 = Some w2"
    by (simp add: setSelected_def f0 u0 u1 w1_def [symmetric] f2)
  have u: "updateSelected layout_ex w0 = Some w2"
    by (simp add: updateSelected_eq f0 i0 s)
  have h2: "hidden (picker w2) \<or> pickerSel w2 < 0" by (simp add: f2)
  define w3 where "w3 = w2\<lparr>pressedSel := 0\<rparr>"
  have run: "mousePressEvent layout_ex (10, 20) True panel_emoji = press_arm layout_ex w3"
    using press_decompose [where L = layout_ex and w = panel_emoji and p = "(10, 20)"
        and ?w2.0 = w2] u h2
    by (simp add: w0_def [symmetric] f2 w3_def)
  define w4 where "w4 = w3\<lparr>pickerSel := 0\<rparr>"
  have e3: "emojiAt w3 = emojiAt panel_emoji"
    by (rule emojiAt_cong) (simp add: w3_def w2_def w1_def w0_def)
  have f3: "selected w3 = 0" "emojiVariants w3 = Map.empty"
    by (simp_all add: w3_def w2_def w1_def w0_def panel_emoji_fields)
  have hv: "hasVariants hand" by (simp add: hand_def hasVariants_def)
  have arm: "press_arm layout_ex w3 = showPicker layout_ex w4"
    by (simp add: press_arm_def f3 layout_ex_simps e3 emojiAt_panel_emoji hv w4_def)
  have l4: "same_layout panel_emoji w4"
    by (simp add: same_layout_def w4_def w3_def w2_def w1_def w0_def)
  have e4: "emojiAt w4 = emojiAt panel_emoji"
    by (rule emojiAt_cong) (simp add: w4_def w3_def w2_def w1_def w0_def)
  have f4: "pickerSel w4 = 0" "st w4 = style_ex" "rtl w4 = False" "picker w4 = picker_ex"
    "visibleTop w4 = 0" "width w4 = 320" "columnCount w4 = 8" "singleSize w4 = (40, 36)"
    "pickerPlaceX w4 = (\<lambda>xmax col columns rtl'.
        (2 * xmax * (if rtl' then columns - 1 - col else col) + (columns - 1))
          div (2 * (columns - 1)))"
    by (simp_all add: w4_def w3_def w2_def w1_def w0_def panel_emoji_def panel_ex_def)
  have "showPicker layout_ex w4
      = Some (w4\<lparr>picker := picker_open, scrollDisabled := True\<rparr>)"
    by (simp add: showPicker_def f4 layout_ex_simps e4 emojiAt_panel_emoji hv
        same_layout_emojiRect [OF l4] emojiRect_panel_emoji showEmojiP_hand)
       (simp add: f4 picker_open_def picker_ex_def style_ex_def signed_modulo_int_def)
  moreover have "w4\<lparr>picker := picker_open, scrollDisabled := True\<rparr> = panel_shown"
    by (simp add: panel_shown_def w4_def w3_def w2_def w1_def w0_def)
  ultimately show ?thesis by (simp add: run arm)
qed

lemma panel_open_fields:
  "columnCount panel_open = 8" "selected panel_open = 0" "pressedSel panel_open = -1"
  "pickerSel panel_open = 0" "picker panel_open = picker_open"
  "showPickerTimer panel_open = None" "emojiVariants panel_open = Map.empty"
  "chosenLog panel_open = []" "recentLog panel_open = []" "customChosenLog panel_open = []"
  "lastMousePos panel_open = (10, 20)" "emoji panel_open = emoji panel_emoji"
  "st panel_open = style_ex" "rtl panel_open = False"
  by (simp_all add: panel_open_def panel_shown_def panel_emoji_def panel_ex_def)

lemma picker_open_fields:
  "\<not> hidden picker_open" "sizeP picker_open = (191, 66)" "pos picker_open = (0, 41)"
  "parentGlobal picker_open = (0, 0)" "pressedSelP picker_open = -1"
  "variants picker_open = map (\<lambda>i. variant hand (int i)) [0..<4]"
  "singleSizeP picker_open = (40, 36)"
  by (simp_all add: picker_open_def picker_ex_def)

lemma same_layout_panel_open: "same_layout panel_emoji panel_open"
  by (simp add: same_layout_def panel_open_def panel_shown_def)

lemma emojiAt_panel_open: "emojiAt panel_open = emojiAt panel_emoji"
  by (rule emojiAt_cong) (simp add: panel_open_fields)



lemma decodes_panel_emoji:
  "decodes layout_ex panel_emoji (-1)" "decodes layout_ex panel_emoji 0"
  "decodes layout_ex panel_emoji 2"
  by (simp_all add: decodes_def layout_ex_simps sectionsCount_panel_emoji)

lemma hasVariants_simps: "hasVariants hand" "\<not> hasVariants (plain name)"
  by (simp_all add: hasVariants_def hand_def plain_def)









lemma same_layout_panel_stored: "same_layout panel_emoji panel_stored"
  by (simp add: same_layout_def panel_stored_def)


theorem hover_suspended_witness:
  "0 \<le> pressedSel panel_pressed
   \<and> indexAt layout_ex panel_pressed (10, 20) = Some 0
   \<and> updateSelected layout_ex (panel_pressed\<lparr>lastMousePos := (10, 20)\<rparr>)
       = Some (panel_pressed\<lparr>lastMousePos := (10, 20)\<rparr>)
   \<and> map_option selected (mouseMoveEvent layout_ex (10, 20) (10, 20) panel_pressed) = Some 2"
proof -
  have l: "same_layout panel_emoji panel_pressed"
    by (simp add: panel_pressed_def same_layout_def)
  have p: "pressedSel panel_pressed = 2" "selected panel_pressed = 2"
    by (simp_all add: panel_pressed_def)
  have h: "pressedSel panel_pressed \<ge> 0 \<or> pickerSel panel_pressed \<ge> 0" by (simp add: p)
  have h': "pressedSel (panel_pressed\<lparr>lastMousePos := (10, 20)\<rparr>) \<ge> 0
            \<or> pickerSel (panel_pressed\<lparr>lastMousePos := (10, 20)\<rparr>) \<ge> 0" by (simp add: p)
  have idx: "indexAt layout_ex panel_pressed (10, 20) = Some 0"
    by (simp add: same_layout_indexAt [OF l] indexAt_panel_emoji)
  show ?thesis
    using hover_suspended [OF h, of layout_ex "(10, 20)" "(10, 20)"]
      hover_suspended [OF h', of layout_ex "(10, 20)" "(10, 20)", THEN conjunct1] idx p
    by auto
qed

section \<open>The release inside the overlay\<close>

lemma colorChosen_Some:
  assumes col: "0 < columnCount w" and tgt: "target_ok L w"
  shows "\<exists>w'. colorChosen L e w = Some w'
     \<and> chosenLog w' = chosenLog w @ [e] \<and> recentLog w' = recentLog w @ [e]
     \<and> customChosenLog w' = customChosenLog w
     \<and> emojiVariants w' = (if hasVariants e
                            then (emojiVariants w)(nonColoredId e \<mapsto> variantIndex e)
                            else emojiVariants w)
     \<and> pressedSel w' = pressedSel w \<and> pickerSel w' = pickerSel w
     \<and> selected w' = selected w \<and> st w' = st w \<and> rtl w' = rtl w
     \<and> hidden (picker w') = hidden (picker w) \<and> hiding (picker w')"
proof -
  define w1 where "w1 = (if hasVariants e then saveEmojiVariant e w else w)"
  obtain sec sel where p: "IndexToPosition L (pickerSel w) = (sec, sel)" by force
  have f1: "pickerSel w1 = pickerSel w" "emoji w1 = emoji w" "columnCount w1 = columnCount w"
    "chosenLog w1 = chosenLog w" "recentLog w1 = recentLog w"
    "customChosenLog w1 = customChosenLog w" "pressedSel w1 = pressedSel w"
    "selected w1 = selected w" "st w1 = st w" "rtl w1 = rtl w" "picker w1 = picker w"
    "emojiVariants w1 = (if hasVariants e
                            then (emojiVariants w)(nonColoredId e \<mapsto> variantIndex e)
                            else emojiVariants w)"
    by (simp_all add: w1_def saveEmojiVariant_def)
  have "\<exists>w2. (if pickerSel w1 \<ge> 0
              then (let (section, sel) = IndexToPosition L (pickerSel w1)
                    in if section \<ge> 0 \<and> section < kEmojiSectionCount
                       then do {
                         _ \<leftarrow> item_at (emoji w1 (nat section)) sel;
                         let w1' = w1\<lparr>emoji := (emoji w1)
                                     (nat section := (emoji w1 (nat section))[nat sel := e])\<rparr>;
                         rect \<leftarrow> emojiRect w1' section sel;
                         Some (rtlupdate rect w1')
                       }
                       else Some w1)
              else Some w1) = Some w2
        \<and> w2\<lparr>emoji := emoji w1, updates := updates w1\<rparr> = w1"
  proof (cases "pickerSel w \<ge> 0 \<and> 0 \<le> sec \<and> sec < kEmojiSectionCount")
    case False
    then show ?thesis using p by (auto simp: f1)
  next
    case True
    then obtain e0 where e0: "item_at (emoji w (nat sec)) sel = Some e0"
      using tgt p by (auto simp: target_ok_def emojiAt_def)
    define w1' where "w1' = w1\<lparr>emoji := (emoji w1)
                                     (nat sec := (emoji w1 (nat sec))[nat sel := e])\<rparr>"
    have "0 < columnCount w1'" using col by (simp add: w1'_def f1)
    moreover have "sec < sectionsCount w1'"
      using True by (simp add: sectionsCount_def w1'_def)
    ultimately obtain rect where r: "emojiRect w1' sec sel = Some rect"
      using emojiRect_Some [of w1' sec sel] True by auto
    have "rtlupdate rect w1'\<lparr>emoji := emoji w1, updates := updates w1\<rparr> = w1"
      by (simp add: rtlupdate_def update_def w1'_def split: prod.splits)
    then show ?thesis using True p e0 r
      by (simp add: f1 w1'_def [symmetric, unfolded f1] Let_def)
  qed
  then obtain w2 where w2: "(if pickerSel w1 \<ge> 0
              then (let (section, sel) = IndexToPosition L (pickerSel w1)
                    in if section \<ge> 0 \<and> section < kEmojiSectionCount
                       then do {
                         _ \<leftarrow> item_at (emoji w1 (nat section)) sel;
                         let w1' = w1\<lparr>emoji := (emoji w1)
                                     (nat section := (emoji w1 (nat section))[nat sel := e])\<rparr>;
                         rect \<leftarrow> emojiRect w1' section sel;
                         Some (rtlupdate rect w1')
                       }
                       else Some w1)
              else Some w1) = Some w2"
      and fr: "w2\<lparr>emoji := emoji w1, updates := updates w1\<rparr> = w1"
    by blast
  let ?v = "w2\<lparr>emoji := emoji w1, updates := updates w1\<rparr>"
  have "pickerSel ?v = pickerSel w1" "chosenLog ?v = chosenLog w1" "recentLog ?v = recentLog w1"
    "customChosenLog ?v = customChosenLog w1" "pressedSel ?v = pressedSel w1"
    "selected ?v = selected w1" "st ?v = st w1" "rtl ?v = rtl w1" "picker ?v = picker w1"
    "emojiVariants ?v = emojiVariants w1"
    by (simp_all only: fr)
  then have f2: "pickerSel w2 = pickerSel w" "chosenLog w2 = chosenLog w"
    "recentLog w2 = recentLog w" "customChosenLog w2 = customChosenLog w"
    "pressedSel w2 = pressedSel w" "selected w2 = selected w" "st w2 = st w" "rtl w2 = rtl w"
    "picker w2 = picker w"
    "emojiVariants w2 = (if hasVariants e
                            then (emojiVariants w)(nonColoredId e \<mapsto> variantIndex e)
                            else emojiVariants w)"
    by (simp_all add: f1)
  have "colorChosen L e w
      = Some ((selectEmoji e w2)\<lparr>picker := hideAnimatedP (st (selectEmoji e w2))
                (rtl (selectEmoji e w2)) (picker (selectEmoji e w2))\<rparr>)"
    unfolding colorChosen_def using w2 by (simp add: w1_def [symmetric] Let_def)
  then show ?thesis using f2 by (simp add: selectEmoji_def)
qed

lemma target_ok_cong:
  "pickerSel w' = pickerSel w \<Longrightarrow> emoji w' = emoji w \<Longrightarrow> target_ok L w' = target_ok L w"
  using emojiAt_cong [of w' w] by (simp add: target_ok_def)

lemma item_at_Some: "0 \<le> i \<Longrightarrow> i < int (length xs) \<Longrightarrow> item_at xs i = Some (xs ! nat i)"
  by (simp add: item_at_def)

lemma release_forward:
  assumes "w1 = w\<lparr>pressedSel := -1, lastMousePos := globalPos'\<rparr>"
    and "\<not> hidden (picker w1)"
    and "rect_contains (sizeP (picker w1)) (mapFromGlobalP (picker w1) (lastMousePos w1))"
  shows "mouseReleaseEvent L globalPos' cursorPos w = picker_handleMouseRelease L cursorPos w1"
  using assms(2,3) unfolding mouseReleaseEvent_def assms(1)
  by (simp only: Let_def if_True simp_thms)

lemma picker_release:
  assumes col: "0 < columnCount w"
    and opn: "\<not> hidden (picker w)"
    and inside: "rect_contains (sizeP (picker w)) (mapFromGlobalP (picker w) globalPos')"
    and tgt: "target_ok L w"
    and var: "variants (picker w) \<noteq> []"
    and n: "n = newSelectedP (st w) (rtl w) ((picker w)\<lparr>lastMousePosP := cursorPos\<rparr>)"
    and v: "v = variants (picker w) ! nat n"
    and c: "c = (0 \<le> n \<and> (pressedSelP (picker w) < 0 \<or> n = pressedSelP (picker w)))"
  shows "\<exists>w'. mouseReleaseEvent L globalPos' cursorPos w = Some w'
     \<and> chosenLog w' = (if c then chosenLog w @ [v] else chosenLog w)
     \<and> recentLog w' = (if c then recentLog w @ [v] else recentLog w)
     \<and> emojiVariants w' = (if c \<and> hasVariants v
                            then (emojiVariants w)(nonColoredId v \<mapsto> variantIndex v)
                            else emojiVariants w)
     \<and> customChosenLog w' = customChosenLog w \<and> pressedSel w' = -1
     \<and> hiding (picker w') \<and> ignoreShow (picker w')"
proof -
  define w1 where "w1 = w\<lparr>pressedSel := -1, lastMousePos := globalPos'\<rparr>"
  have fwd: "mouseReleaseEvent L globalPos' cursorPos w
      = picker_handleMouseRelease L cursorPos w1"
    using release_forward [OF w1_def] opn inside by (simp add: w1_def)
  define p1 where "p1 = updateSelectedP (st w1) (rtl w1)
                  ((picker w1)\<lparr>lastMousePosP := cursorPos, pressedSelP := -1\<rparr>)"
  define w1' where "w1' = w1\<lparr>picker := p1\<rparr>"
  have sp: "selectedP p1 = n"
    by (simp add: p1_def n w1_def)
  have vp: "variants p1 = variants (picker w)" by (simp add: p1_def w1_def)
  have f1: "chosenLog w1' = chosenLog w" "recentLog w1' = recentLog w"
    "emojiVariants w1' = emojiVariants w" "customChosenLog w1' = customChosenLog w"
    "pressedSel w1' = -1" "columnCount w1' = columnCount w" "pickerSel w1' = pickerSel w"
    "emoji w1' = emoji w" "pressedSelP (picker w1) = pressedSelP (picker w)"
    by (simp_all add: w1'_def w1_def)
  have fin: "hiding (hideAnimatedP s r (p\<lparr>ignoreShow := True\<rparr>))
      \<and> ignoreShow (hideAnimatedP s r (p\<lparr>ignoreShow := True\<rparr>))" for s r p
    by simp
  have cond: "(selectedP p1 \<ge> 0
        \<and> (pressedSelP (picker w1) < 0 \<or> selectedP p1 = pressedSelP (picker w1))) = c"
    by (simp add: sp c f1)
  have run: "picker_handleMouseRelease L cursorPos w1 =
       Option.bind (if c then Option.bind (item_at (variants p1) (selectedP p1))
                              (\<lambda>chosen. colorChosen L chosen w1')
                    else Some w1')
         (\<lambda>w2. Some (w2\<lparr>picker := hideAnimatedP (st w2) (rtl w2)
                                      ((picker w2)\<lparr>ignoreShow := True\<rparr>)\<rparr>))"
    unfolding picker_handleMouseRelease_def Let_def p1_def [symmetric] w1'_def [symmetric] cond
    ..
  show ?thesis
  proof (cases c)
    case False
    then have "picker_handleMouseRelease L cursorPos w1
        = Some (w1'\<lparr>picker := hideAnimatedP (st w1') (rtl w1') ((picker w1')\<lparr>ignoreShow := True\<rparr>)\<rparr>)"
      by (simp add: run)
    then show ?thesis using False f1 fin by (simp add: fwd)
  next
    case True
    then have n0: "0 \<le> n" by (simp add: c)
    have "n < int (length (variants (picker w)))"
      using newSelectedP_range [of "(picker w)\<lparr>lastMousePosP := cursorPos\<rparr>" "st w" "rtl w"]
        var n0 by (simp add: n)
    then have it: "item_at (variants p1) (selectedP p1) = Some v"
      using n0 by (simp add: sp vp v item_at_Some)
    have "target_ok L w1'" using tgt target_ok_cong [of w1' w L] by (simp add: f1)
    then obtain w2 where w2: "colorChosen L v w1' = Some w2"
      "chosenLog w2 = chosenLog w1' @ [v]" "recentLog w2 = recentLog w1' @ [v]"
      "customChosenLog w2 = customChosenLog w1'"
      "emojiVariants w2 = (if hasVariants v
                            then (emojiVariants w1')(nonColoredId v \<mapsto> variantIndex v)
                            else emojiVariants w1')"
      "pressedSel w2 = pressedSel w1'"
      using colorChosen_Some [of w1' L v] col by (auto simp: f1)
    have "picker_handleMouseRelease L cursorPos w1
        = Some (w2\<lparr>picker := hideAnimatedP (st w2) (rtl w2) ((picker w2)\<lparr>ignoreShow := True\<rparr>)\<rparr>)"
      using True it w2(1) by (simp add: run)
    then show ?thesis using True w2 f1 fin by (simp add: fwd)
  qed
qed

text \<open>
  C8, as the code has it. Let the column count be positive, the overlay hold at
  least one variant and its target, when that is a built-in item, be an item of its
  section. When the overlay is open and a release lands inside its bounds, the
  release is forwarded to the overlay and completes. With \<open>n\<close> the index
  of the variant under the cursor at the release, the overlay commits the variant at
  \<open>n\<close> (\<^verbatim>\<open>chosen\<close> fires with it, it is counted as recently used and, having
  variants, stored as the preference of its family) exactly when \<open>n\<close> is not negative
  and the overlay either has recorded no press of its own or has recorded a press on
  \<open>n\<close>. Whether it commits or not, the pressed index of the grid is cleared, and the
  overlay starts hiding and ignores further requests to show.
\<close>

theorem overlay_release:
  assumes col: "0 < columnCount w"
    and opn: "\<not> hidden (picker w)"
    and inside: "rect_contains (sizeP (picker w)) (mapFromGlobalP (picker w) globalPos')"
    and tgt: "target_ok L w"
    and var: "variants (picker w) \<noteq> []"
    and n: "n = newSelectedP (st w) (rtl w) ((picker w)\<lparr>lastMousePosP := cursorPos\<rparr>)"
    and v: "v = variants (picker w) ! nat n"
  shows "mouseReleaseEvent L globalPos' cursorPos w
       = picker_handleMouseRelease L cursorPos
           (w\<lparr>pressedSel := -1, lastMousePos := globalPos'\<rparr>)
     \<and> (\<exists>w'. mouseReleaseEvent L globalPos' cursorPos w = Some w'
     \<and> chosenLog w'
         = (if 0 \<le> n \<and> (pressedSelP (picker w) < 0 \<or> n = pressedSelP (picker w))
            then chosenLog w @ [v] else chosenLog w)
     \<and> recentLog w'
         = (if 0 \<le> n \<and> (pressedSelP (picker w) < 0 \<or> n = pressedSelP (picker w))
            then recentLog w @ [v] else recentLog w)
     \<and> emojiVariants w'
         = (if 0 \<le> n \<and> (pressedSelP (picker w) < 0 \<or> n = pressedSelP (picker w))
               \<and> hasVariants v
            then (emojiVariants w)(nonColoredId v \<mapsto> variantIndex v)
            else emojiVariants w)
     \<and> customChosenLog w' = customChosenLog w \<and> pressedSel w' = -1
     \<and> hiding (picker w') \<and> ignoreShow (picker w'))"
proof -
  have "\<not> hidden (picker (w\<lparr>pressedSel := -1, lastMousePos := globalPos'\<rparr>))"
    "rect_contains (sizeP (picker (w\<lparr>pressedSel := -1, lastMousePos := globalPos'\<rparr>)))
       (mapFromGlobalP (picker (w\<lparr>pressedSel := -1, lastMousePos := globalPos'\<rparr>))
          (lastMousePos (w\<lparr>pressedSel := -1, lastMousePos := globalPos'\<rparr>)))"
    using opn inside by simp_all
  then have "mouseReleaseEvent L globalPos' cursorPos w
       = picker_handleMouseRelease L cursorPos
           (w\<lparr>pressedSel := -1, lastMousePos := globalPos'\<rparr>)"
    by (rule release_forward [OF refl])
  then show ?thesis
    using picker_release [OF col opn inside tgt var n v refl] by simp
qed

lemma frame_updateSelectedP [simp]:
  "sizeP (updateSelectedP s r p) = sizeP p" "pos (updateSelectedP s r p) = pos p"
  "parentGlobal (updateSelectedP s r p) = parentGlobal p"
  by (simp_all add: updateSelectedP_def)

lemma singleSizeP_setSelectedP [simp]: "singleSizeP (setSelectedP s r n p) = singleSizeP p"
  using setSelectedP_shape [of s r n p] by auto

lemma mousePressEventP_fields:
  "hidden (mousePressEventP s r g True p) = hidden p"
  "sizeP (mousePressEventP s r g True p) = sizeP p"
  "pos (mousePressEventP s r g True p) = pos p"
  "parentGlobal (mousePressEventP s r g True p) = parentGlobal p"
  "variants (mousePressEventP s r g True p) = variants p"
  "singleSizeP (mousePressEventP s r g True p) = singleSizeP p"
  "pressedSelP (mousePressEventP s r g True p) = newSelectedP s r (p\<lparr>lastMousePosP := g\<rparr>)"
  by (simp_all add: mousePressEventP_def Let_def updateSelectedP_def)

lemma panel_pressedP_fields:
  "columnCount panel_pressedP = 8" "pickerSel panel_pressedP = 0"
  "emoji panel_pressedP = emoji panel_emoji" "st panel_pressedP = style_ex"
  "rtl panel_pressedP = False" "chosenLog panel_pressedP = []"
  "recentLog panel_pressedP = []" "emojiVariants panel_pressedP = Map.empty"
  "customChosenLog panel_pressedP = []"
  "picker panel_pressedP = mousePressEventP style_ex False (110, 71) True picker_open"
  by (simp_all add: panel_pressedP_def panel_open_fields)

lemma newSelectedP_pressedP:
  "newSelectedP style_ex False
     ((mousePressEventP style_ex False (110, 71) True picker_open)\<lparr>lastMousePosP := g\<rparr>)
   = newSelectedP style_ex False (picker_open\<lparr>lastMousePosP := g\<rparr>)"
  by (rule newSelectedP_cong) (simp_all add: mousePressEventP_fields)

lemma panel_shown_fields:
  "columnCount panel_shown = 8" "selected panel_shown = 0" "pressedSel panel_shown = 0"
  "pickerSel panel_shown = 0" "picker panel_shown = picker_open"
  "showPickerTimer panel_shown = None" "emojiVariants panel_shown = Map.empty"
  "chosenLog panel_shown = []" "recentLog panel_shown = []" "customChosenLog panel_shown = []"
  "emoji panel_shown = emoji panel_emoji" "st panel_shown = style_ex" "rtl panel_shown = False"
  by (simp_all add: panel_shown_def panel_emoji_def panel_ex_def)

lemma target_ok_panel_shown: "target_ok layout_ex panel_shown"
proof -
  have "emojiAt panel_shown = emojiAt panel_emoji"
    by (rule emojiAt_cong) (simp add: panel_shown_fields)
  then show ?thesis
    by (simp add: target_ok_def panel_shown_fields layout_ex_simps emojiAt_panel_emoji)
qed

lemma newSelectedP_picker_open:
  "newSelectedP style_ex False (picker_open\<lparr>lastMousePosP := (110, 71)\<rparr>) = 2"
  "newSelectedP style_ex False (picker_open\<lparr>lastMousePosP := (110, 100)\<rparr>) = -1"
  "newSelectedP style_ex False (picker_open\<lparr>lastMousePosP := (70, 71)\<rparr>) = 1"
  by (simp_all add: newSelectedP_def mapFromGlobalP_def picker_open_def picker_ex_def
      style_ex_def margins_left_def margins_top_def Let_def signed_divide_int_def)

lemma inside_picker_open:
  "rect_contains (sizeP picker_open) (mapFromGlobalP picker_open (110, 71))"
  "rect_contains (sizeP picker_open) (mapFromGlobalP picker_open (110, 100))"
  "rect_contains (sizeP picker_open) (mapFromGlobalP picker_open (70, 71))"
  by (simp_all add: rect_contains_def mapFromGlobalP_def picker_open_fields)

lemma variants_picker_open: "variants picker_open ! 2 = variant hand 2"
  "variants picker_open \<noteq> []"
  by (simp_all add: picker_open_fields upt_rec)

lemma variant_hand:
  "hasVariants (variant hand 2)" "nonColoredId (variant hand 2) = ''hand''"
  "variantIndex (variant hand 2) = 2"
  by (simp_all add: variant_def hand_def hasVariants_def)

theorem overlay_release_witness:
  "\<not> hidden (picker panel_shown)
   \<and> rect_contains (sizeP (picker panel_shown)) (mapFromGlobalP (picker panel_shown) (110, 71))
   \<and> pressedSelP (picker panel_shown) = -1
   \<and> newSelectedP (st panel_shown) (rtl panel_shown)
        ((picker panel_shown)\<lparr>lastMousePosP := (110, 71)\<rparr>) = 2
   \<and> (\<exists>w'. mouseReleaseEvent layout_ex (110, 71) (110, 71) panel_shown = Some w'
          \<and> chosenLog w' = [variant hand 2] \<and> recentLog w' = [variant hand 2]
          \<and> emojiVariants w' = [''hand'' \<mapsto> 2]
          \<and> customChosenLog w' = [] \<and> pressedSel w' = -1
          \<and> hiding (picker w') \<and> ignoreShow (picker w'))
   \<and> pressedSelP (picker panel_pressedP) = 2
   \<and> (\<exists>w'. mouseReleaseEvent layout_ex (110, 71) (110, 71) panel_pressedP = Some w'
          \<and> chosenLog w' = [variant hand 2] \<and> emojiVariants w' = [''hand'' \<mapsto> 2])
   \<and> newSelectedP (st panel_pressedP) (rtl panel_pressedP)
        ((picker panel_pressedP)\<lparr>lastMousePosP := (70, 71)\<rparr>) = 1
   \<and> (\<exists>w'. mouseReleaseEvent layout_ex (70, 71) (70, 71) panel_pressedP = Some w'
          \<and> chosenLog w' = [] \<and> emojiVariants w' = Map.empty
          \<and> hiding (picker w') \<and> ignoreShow (picker w'))"
proof -
  have col: "0 < columnCount panel_shown" by (simp add: panel_shown_fields)
  have opn: "\<not> hidden (picker panel_shown)"
    by (simp add: panel_shown_fields picker_open_fields)
  have ins: "rect_contains (sizeP (picker panel_shown))
      (mapFromGlobalP (picker panel_shown) (110, 71))"
    by (simp add: panel_shown_fields inside_picker_open)
  have var: "variants (picker panel_shown) \<noteq> []"
    by (simp add: panel_shown_fields variants_picker_open)
  have n: "2 = newSelectedP (st panel_shown) (rtl panel_shown)
      ((picker panel_shown)\<lparr>lastMousePosP := (110, 71)\<rparr>)"
    by (simp add: panel_shown_fields newSelectedP_picker_open)
  have v: "variant hand 2 = variants (picker panel_shown) ! nat 2"
    by (simp add: panel_shown_fields variants_picker_open)
  have pr: "pressedSelP (picker panel_shown) = -1"
    by (simp add: panel_shown_fields picker_open_fields)
  have one: "\<exists>w'. mouseReleaseEvent layout_ex (110, 71) (110, 71) panel_shown = Some w'
          \<and> chosenLog w' = [variant hand 2] \<and> recentLog w' = [variant hand 2]
          \<and> emojiVariants w' = [''hand'' \<mapsto> 2]
          \<and> customChosenLog w' = [] \<and> pressedSel w' = -1
          \<and> hiding (picker w') \<and> ignoreShow (picker w')"
    using overlay_release [OF col opn ins target_ok_panel_shown var n v, THEN conjunct2] pr
    by (simp add: panel_shown_fields variant_hand)
  have colP: "0 < columnCount panel_pressedP" by (simp add: panel_pressedP_fields)
  have opnP: "\<not> hidden (picker panel_pressedP)"
    by (simp add: panel_pressedP_fields mousePressEventP_fields picker_open_fields)
  have insP: "rect_contains (sizeP (picker panel_pressedP))
      (mapFromGlobalP (picker panel_pressedP) (110, 71))"
    "rect_contains (sizeP (picker panel_pressedP))
      (mapFromGlobalP (picker panel_pressedP) (70, 71))"
    using inside_picker_open
    by (simp_all add: panel_pressedP_fields mousePressEventP_fields mapFromGlobalP_def)
  have tgtP: "target_ok layout_ex panel_pressedP"
    using target_ok_panel_shown
      target_ok_cong [of panel_pressedP panel_shown layout_ex]
    by (simp add: panel_pressedP_fields panel_shown_fields)
  have varP: "variants (picker panel_pressedP) \<noteq> []"
    by (simp add: panel_pressedP_fields mousePressEventP_fields variants_picker_open)
  have nP: "2 = newSelectedP (st panel_pressedP) (rtl panel_pressedP)
      ((picker panel_pressedP)\<lparr>lastMousePosP := (110, 71)\<rparr>)"
    "1 = newSelectedP (st panel_pressedP) (rtl panel_pressedP)
      ((picker panel_pressedP)\<lparr>lastMousePosP := (70, 71)\<rparr>)"
    by (simp_all add: panel_pressedP_fields newSelectedP_pressedP newSelectedP_picker_open)
  have vP: "variant hand 2 = variants (picker panel_pressedP) ! nat 2"
    by (simp add: panel_pressedP_fields mousePressEventP_fields variants_picker_open)
  have prP: "pressedSelP (picker panel_pressedP) = 2"
    by (simp add: panel_pressedP_fields mousePressEventP_fields newSelectedP_picker_open)
  have two: "\<exists>w'. mouseReleaseEvent layout_ex (110, 71) (110, 71) panel_pressedP = Some w'
          \<and> chosenLog w' = [variant hand 2] \<and> emojiVariants w' = [''hand'' \<mapsto> 2]"
    using overlay_release [OF colP opnP insP(1) tgtP varP nP(1) vP, THEN conjunct2] prP
    by (simp add: panel_pressedP_fields variant_hand) blast
  have three: "\<exists>w'. mouseReleaseEvent layout_ex (70, 71) (70, 71) panel_pressedP = Some w'
          \<and> chosenLog w' = [] \<and> emojiVariants w' = Map.empty
          \<and> hiding (picker w') \<and> ignoreShow (picker w')"
    using overlay_release [OF colP opnP insP(2) tgtP varP nP(2) refl, THEN conjunct2] prP
    by (simp add: panel_pressedP_fields) blast
  show ?thesis
    using opn ins pr n [symmetric] one prP two nP(2) [symmetric] three by simp
qed

text \<open>
  C8 as stated fails in both directions for the release the grid forwards after a
  press on the grid, which the overlay has not recorded: its recorded index is -1.
  With the overlay open over \<open>hand\<close>, a release over variant 2 commits that variant,
  although 2 is not the recorded index; and a release inside the overlay but over
  no variant has index -1, the recorded index, and commits nothing.
\<close>

theorem overlay_release_counterexample:
  "pressedSelP (picker panel_shown) = -1
   \<and> rect_contains (sizeP (picker panel_shown)) (mapFromGlobalP (picker panel_shown) (110, 71))
   \<and> newSelectedP (st panel_shown) (rtl panel_shown)
        ((picker panel_shown)\<lparr>lastMousePosP := (110, 71)\<rparr>) = 2
   \<and> map_option chosenLog (mouseReleaseEvent layout_ex (110, 71) (110, 71) panel_shown)
       = Some [variant hand 2]
   \<and> rect_contains (sizeP (picker panel_shown)) (mapFromGlobalP (picker panel_shown) (110, 100))
   \<and> newSelectedP (st panel_shown) (rtl panel_shown)
        ((picker panel_shown)\<lparr>lastMousePosP := (110, 100)\<rparr>) = -1
   \<and> map_option chosenLog (mouseReleaseEvent layout_ex (110, 100) (110, 100) panel_shown)
       = Some []"
proof -
  have col: "0 < columnCount panel_shown" by (simp add: panel_shown_fields)
  have opn: "\<not> hidden (picker panel_shown)"
    by (simp add: panel_shown_fields picker_open_fields)
  have ins: "rect_contains (sizeP (picker panel_shown))
      (mapFromGlobalP (picker panel_shown) (110, 71))"
    "rect_contains (sizeP (picker panel_shown))
      (mapFromGlobalP (picker panel_shown) (110, 100))"
    by (simp_all add: panel_shown_fields inside_picker_open)
  have var: "variants (picker panel_shown) \<noteq> []"
    by (simp add: panel_shown_fields variants_picker_open)
  have n: "2 = newSelectedP (st panel_shown) (rtl panel_shown)
      ((picker panel_shown)\<lparr>lastMousePosP := (110, 71)\<rparr>)"
    "-1 = newSelectedP (st panel_shown) (rtl panel_shown)
      ((picker panel_shown)\<lparr>lastMousePosP := (110, 100)\<rparr>)"
    by (simp_all add: panel_shown_fields newSelectedP_picker_open)
  have pr: "pressedSelP (picker panel_shown) = -1"
    by (simp add: panel_shown_fields picker_open_fields)
  have "\<exists>w'. mouseReleaseEvent layout_ex (110, 71) (110, 71) panel_shown = Some w'
      \<and> chosenLog w' = chosenLog panel_shown @ [variants (picker panel_shown) ! nat 2]"
    using picker_release [OF col opn ins(1) target_ok_panel_shown var n(1) refl refl] pr
    by simp blast
  then have one: "map_option chosenLog
      (mouseReleaseEvent layout_ex (110, 71) (110, 71) panel_shown) = Some [variant hand 2]"
    by (auto simp: panel_shown_fields variants_picker_open)
  have "\<exists>w'. mouseReleaseEvent layout_ex (110, 100) (110, 100) panel_shown = Some w'
      \<and> chosenLog w' = chosenLog panel_shown"
    using picker_release [OF col opn ins(2) target_ok_panel_shown var n(2) refl refl]
    by simp blast
  then have two: "map_option chosenLog
      (mouseReleaseEvent layout_ex (110, 100) (110, 100) panel_shown) = Some []"
    by (auto simp: panel_shown_fields)
  show ?thesis using pr ins n [symmetric] one two by simp
qed

section \<open>Opening the overlay\<close>

lemma press_opens:
  assumes col: "0 < columnCount w"
    and idle: "pressedSel w < 0" "pickerSel w < 0" "hidden (picker w)"
    and sel: "decodes L w (selected w)"
    and idx: "indexAt L w p = Some n" "decodes L w n"
    and n0: "0 \<le> n"
    and item: "emojiAt w (fst (IndexToPosition L n)) (snd (IndexToPosition L n)) = Some e"
      "hasVariants e" "emojiVariants w (nonColoredId e) = None"
  shows "\<exists>w1. mousePressEvent L p True w = Some w1 \<and> \<not> hidden (picker w1)
     \<and> pressedSelP (picker w1) = -1
     \<and> variants (picker w1) = map (\<lambda>i. variant e (int i)) [0..<variantsCount e + 1]
     \<and> showPickerTimer w1 = showPickerTimer w \<and> pickerSel w1 = n \<and> pressedSel w1 = n
     \<and> target_ok L w1 \<and> columnCount w1 = columnCount w
     \<and> chosenLog w1 = chosenLog w \<and> recentLog w1 = recentLog w
     \<and> customChosenLog w1 = customChosenLog w \<and> emojiVariants w1 = emojiVariants w"
proof -
  obtain w3 where press: "mousePressEvent L p True w = press_arm L w3"
    and v: "view_only (w\<lparr>lastMousePos := p, pressedSel := n\<rparr>) w3"
    and s3: "selected w3 = n" and h3: "hidden (picker w) \<longrightarrow> picker w3 = picker w"
    using press_idle [OF col idle(1,2) sel idx] by blast
  note f3 = pressed_fields [OF v]
  have ea3: "emojiAt w3 = emojiAt w" using f3(5) by (rule emojiAt_cong)
  define w4 where "w4 = w3\<lparr>pickerSel := n\<rparr>"
  have l4: "same_layout w w4" using f3(10) by (simp add: same_layout_def w4_def)
  have ea4: "emojiAt w4 = emojiAt w" using f3(5) emojiAt_cong [of w4 w] by (simp add: w4_def)
  have arm: "press_arm L w3 = showPicker L w4"
    using n0 item by (simp add: press_arm_def s3 ea3 split_beta f3 w4_def)
  have c4: "0 < columnCount w4" using col f3 by (simp add: w4_def)
  have t4: "0 \<le> pickerSel w4" "decodes L w4 (pickerSel w4)"
    using n0 idx(2) by (simp_all add: same_layout_decodes [OF l4]) (simp_all add: w4_def)
  have i4: "emojiAt w4 (fst (IndexToPosition L (pickerSel w4)))
                        (snd (IndexToPosition L (pickerSel w4))) = Some e"
    using item(1) by (simp add: ea4) (simp add: w4_def)
  have h4: "hidden (picker w4)" using h3 idle(3) by (simp add: w4_def)
  obtain pk where pk: "showPicker L w4 = Some (w4\<lparr>picker := pk, scrollDisabled := True\<rparr>)"
      "\<not> hidden pk" "variants pk = map (\<lambda>i. variant e (int i)) [0..<variantsCount e + 1]"
      "pressedSelP pk = -1"
    using showPicker_shown [OF c4 t4 i4 item(2)] h4 by blast
  define w1 where "w1 = w4\<lparr>picker := pk, scrollDisabled := True\<rparr>"
  have run1: "mousePressEvent L p True w = Some w1" by (simp add: press arm pk(1) w1_def)
  have f1: "columnCount w1 = columnCount w" "selected w1 = n" "pressedSel w1 = n"
    "pickerSel w1 = n" "picker w1 = pk" "showPickerTimer w1 = showPickerTimer w"
    "chosenLog w1 = chosenLog w" "recentLog w1 = recentLog w"
    "customChosenLog w1 = customChosenLog w" "emoji w1 = emoji w"
    "emojiVariants w1 = emojiVariants w"
    using f3 s3 by (simp_all add: w1_def w4_def)
  have ea1: "emojiAt w1 = emojiAt w" using f1 emojiAt_cong [of w1 w] by simp
  have t1: "target_ok L w1" using item(1) by (simp add: target_ok_def f1 ea1)
  show ?thesis
    using run1 pk(2,3,4) f1 t1 by (intro exI [of _ w1]) simp
qed

lemma nth_variants:
  assumes "0 \<le> k" "k < int (length (map (\<lambda>i. variant e (int i)) [0..<variantsCount e + 1]))"
  shows "map (\<lambda>i. variant e (int i)) [0..<variantsCount e + 1] ! nat k = variant e k"
    and "k \<le> int (variantsCount e)"
proof -
  have lt: "nat k < variantsCount e + 1" using assms by simp
  then have "map (\<lambda>i. variant e (int i)) [0..<variantsCount e + 1] ! nat k
      = variant e (int ([0..<variantsCount e + 1] ! nat k))"
    by (simp only: nth_map length_upt diff_zero)
  also have "[0..<variantsCount e + 1] ! nat k = nat k" using lt by (simp only: nth_upt add_0)
  finally show "map (\<lambda>i. variant e (int i)) [0..<variantsCount e + 1] ! nat k = variant e k"
    using assms(1) by simp
  show "k \<le> int (variantsCount e)" using assms by simp
qed

text \<open>
  C7, as the code has it. On a panel with a positive column count, take a press of
  the left button over the item at index \<open>n\<close>, a built-in emoji with variants, with
  no press in progress, the overlay hidden, no overlay target and no timer pending,
  the index selected before and \<open>n\<close> decoding to sections of the panel.
  \<^item> With no stored preference for the item's family, the press opens the overlay
    at once: it is not hidden when the press returns, it holds the base item and its
    variants, and no timer is armed. A release inside the overlay with the cursor
    over variant \<open>k\<close> then fires \<^verbatim>\<open>chosen\<close> with that variant, once, and stores \<open>k\<close> as
    the preference of the family.
  \<^item> With a stored preference, the press arms the delay timer at 500 ms and the
    overlay is still hidden when the press returns.
\<close>

theorem variant_overlay:
  assumes col: "0 < columnCount w"
    and idle: "pressedSel w < 0" "pickerSel w < 0" "hidden (picker w)"
      "showPickerTimer w = None"
    and sel: "decodes L w (selected w)"
    and idx: "indexAt L w p = Some n" "decodes L w n"
    and n0: "0 \<le> n"
    and pos: "IndexToPosition L n = (sec, off)"
    and item: "emojiAt w sec off = Some e" "hasVariants e"
  shows "(emojiVariants w (nonColoredId e) = None
          \<longrightarrow> (\<exists>w1. mousePressEvent L p True w = Some w1
                 \<and> \<not> hidden (picker w1) \<and> showPickerTimer w1 = None \<and> pickerSel w1 = n
                 \<and> variants (picker w1)
                      = map (\<lambda>i. variant e (int i)) [0..<variantsCount e + 1]
                 \<and> (\<forall>g c k.
                       rect_contains (sizeP (picker w1)) (mapFromGlobalP (picker w1) g)
                       \<and> k = newSelectedP (st w1) (rtl w1)
                                ((picker w1)\<lparr>lastMousePosP := c\<rparr>)
                       \<and> 0 \<le> k
                       \<longrightarrow> (\<exists>w'. mouseReleaseEvent L g c w1 = Some w'
                              \<and> chosenLog w' = chosenLog w @ [variant e k]
                              \<and> recentLog w' = recentLog w @ [variant e k]
                              \<and> emojiVariants w'
                                  = (emojiVariants w)(nonColoredId e \<mapsto> nat k)))))
     \<and> (emojiVariants w (nonColoredId e) \<noteq> None
          \<longrightarrow> (\<exists>w1. mousePressEvent L p True w = Some w1
                 \<and> hidden (picker w1) \<and> showPickerTimer w1 = Some 500 \<and> pickerSel w1 = n))"
proof (intro conjI impI)
  have fs: "fst (IndexToPosition L n) = sec" "snd (IndexToPosition L n) = off"
    using pos by simp_all
  have it: "emojiAt w (fst (IndexToPosition L n)) (snd (IndexToPosition L n)) = Some e"
    using item(1) by (simp add: fs)
  {
    assume none: "emojiVariants w (nonColoredId e) = None"
    obtain w1 where w1: "mousePressEvent L p True w = Some w1" "\<not> hidden (picker w1)"
      "pressedSelP (picker w1) = -1"
      "variants (picker w1) = map (\<lambda>i. variant e (int i)) [0..<variantsCount e + 1]"
      "showPickerTimer w1 = showPickerTimer w" "pickerSel w1 = n"
      "target_ok L w1" "columnCount w1 = columnCount w"
      "chosenLog w1 = chosenLog w" "recentLog w1 = recentLog w"
      "emojiVariants w1 = emojiVariants w"
      using press_opens [OF col idle(1,2,3) sel idx n0 it item(2) none] by blast
    have col1: "0 < columnCount w1" using col w1 by simp
    have var1: "variants (picker w1) \<noteq> []" by (simp add: w1(4))
    have rel: "\<exists>w'. mouseReleaseEvent L g c w1 = Some w'
                              \<and> chosenLog w' = chosenLog w @ [variant e k]
                              \<and> recentLog w' = recentLog w @ [variant e k]
                              \<and> emojiVariants w'
                                  = (emojiVariants w)(nonColoredId e \<mapsto> nat k)"
      if ins: "rect_contains (sizeP (picker w1)) (mapFromGlobalP (picker w1) g)"
        and k: "k = newSelectedP (st w1) (rtl w1) ((picker w1)\<lparr>lastMousePosP := c\<rparr>)"
        and k0: "0 \<le> k"
      for g c k
    proof -
      have "k < int (length (variants (picker w1)))"
        using newSelectedP_range [of "(picker w1)\<lparr>lastMousePosP := c\<rparr>" "st w1" "rtl w1"]
          var1 k0 by (simp add: k)
      then have kk: "k < int (length (map (\<lambda>i. variant e (int i)) [0..<variantsCount e + 1]))"
        by (simp only: w1(4))
      note nv = nth_variants [OF k0 kk]
      have v: "variant e k = variants (picker w1) ! nat k" by (simp only: w1(4) nv(1))
      have c: "True = (0 \<le> k \<and> (pressedSelP (picker w1) < 0 \<or> k = pressedSelP (picker w1)))"
        using k0 w1(3) by simp
      show ?thesis
        using picker_release [OF col1 w1(2) ins w1(7) var1 k v c] item(2) k0 nv(2)
        by (simp add: w1 variant_fields) blast
    qed
    show "\<exists>w1. mousePressEvent L p True w = Some w1
                 \<and> \<not> hidden (picker w1) \<and> showPickerTimer w1 = None \<and> pickerSel w1 = n
                 \<and> variants (picker w1)
                      = map (\<lambda>i. variant e (int i)) [0..<variantsCount e + 1]
                 \<and> (\<forall>g c k.
                       rect_contains (sizeP (picker w1)) (mapFromGlobalP (picker w1) g)
                       \<and> k = newSelectedP (st w1) (rtl w1)
                                ((picker w1)\<lparr>lastMousePosP := c\<rparr>)
                       \<and> 0 \<le> k
                       \<longrightarrow> (\<exists>w'. mouseReleaseEvent L g c w1 = Some w'
                              \<and> chosenLog w' = chosenLog w @ [variant e k]
                              \<and> recentLog w' = recentLog w @ [variant e k]
                              \<and> emojiVariants w'
                                  = (emojiVariants w)(nonColoredId e \<mapsto> nat k)))"
      using w1(1,2,4,5,6) idle(4) rel by (intro exI [of _ w1]) simp
  }
  {
    assume some: "emojiVariants w (nonColoredId e) \<noteq> None"
    have idxq: "indexAt L w p = Some n" "decodes L w n" using idx by simp_all
    show "\<exists>w1. mousePressEvent L p True w = Some w1
                 \<and> hidden (picker w1) \<and> showPickerTimer w1 = Some 500 \<and> pickerSel w1 = n"
      using press_release_stored [OF col idle(1,2,3) sel idx idxq n0 it item(2) some,
          THEN conjunct1]
      by blast
  }
qed

theorem variant_overlay_witness:
  "indexAt layout_ex panel_emoji (10, 20) = Some 0
   \<and> emojiAt panel_emoji 0 0 = Some hand \<and> hasVariants hand
   \<and> emojiVariants panel_emoji (nonColoredId hand) = None
   \<and> mousePressEvent layout_ex (10, 20) True panel_emoji = Some panel_shown
   \<and> \<not> hidden (picker panel_shown) \<and> showPickerTimer panel_shown = None
   \<and> rect_contains (sizeP (picker panel_shown)) (mapFromGlobalP (picker panel_shown) (110, 71))
   \<and> newSelectedP (st panel_shown) (rtl panel_shown)
        ((picker panel_shown)\<lparr>lastMousePosP := (110, 71)\<rparr>) = 2
   \<and> (\<exists>w'. mouseReleaseEvent layout_ex (110, 71) (110, 71) panel_shown = Some w'
          \<and> chosenLog w' = [variant hand 2] \<and> recentLog w' = [variant hand 2]
          \<and> emojiVariants w' = [''hand'' \<mapsto> 2])
   \<and> indexAt layout_ex panel_stored (10, 20) = Some 0
   \<and> emojiAt panel_stored 0 0 = Some hand
   \<and> emojiVariants panel_stored (nonColoredId hand) = Some 0
   \<and> (\<exists>w1. mousePressEvent layout_ex (10, 20) True panel_stored = Some w1
          \<and> hidden (picker w1) \<and> showPickerTimer w1 = Some 500 \<and> pickerSel w1 = 0)"
proof -
  have nh: "nonColoredId hand = ''hand''" by (simp add: hand_def)
  have col: "0 < columnCount panel_emoji" by (simp add: panel_emoji_fields)
  have idle: "pressedSel panel_emoji < 0" "pickerSel panel_emoji < 0"
    "hidden (picker panel_emoji)" "showPickerTimer panel_emoji = None"
    by (simp_all add: panel_emoji_fields picker_ex_def)
  have sel: "decodes layout_ex panel_emoji (selected panel_emoji)"
    by (simp add: panel_emoji_fields decodes_panel_emoji)
  have none: "emojiVariants panel_emoji (nonColoredId hand) = None"
    by (simp add: panel_emoji_fields)
  obtain w1 where w1: "mousePressEvent layout_ex (10, 20) True panel_emoji = Some w1"
    and rel: "\<forall>g c k. rect_contains (sizeP (picker w1)) (mapFromGlobalP (picker w1) g)
                       \<and> k = newSelectedP (st w1) (rtl w1)
                                ((picker w1)\<lparr>lastMousePosP := c\<rparr>)
                       \<and> 0 \<le> k
                       \<longrightarrow> (\<exists>w'. mouseReleaseEvent layout_ex g c w1 = Some w'
                              \<and> chosenLog w' = chosenLog panel_emoji @ [variant hand k]
                              \<and> recentLog w' = recentLog panel_emoji @ [variant hand k]
                              \<and> emojiVariants w'
                                  = (emojiVariants panel_emoji)(nonColoredId hand \<mapsto> nat k))"
    using variant_overlay [OF col idle sel indexAt_panel_emoji(2) decodes_panel_emoji(2) _
        layout_ex_simps(1) emojiAt_panel_emoji(2) hasVariants_simps(1), THEN conjunct1]
      none
    by auto
  have eq: "w1 = panel_shown" using w1 by (simp add: press_panel_emoji)
  have ins: "rect_contains (sizeP (picker panel_shown))
      (mapFromGlobalP (picker panel_shown) (110, 71))"
    by (simp add: panel_shown_fields inside_picker_open)
  have n: "newSelectedP (st panel_shown) (rtl panel_shown)
      ((picker panel_shown)\<lparr>lastMousePosP := (110, 71)\<rparr>) = 2"
    by (simp add: panel_shown_fields newSelectedP_picker_open)
  have one: "\<exists>w'. mouseReleaseEvent layout_ex (110, 71) (110, 71) panel_shown = Some w'
          \<and> chosenLog w' = [variant hand 2] \<and> recentLog w' = [variant hand 2]
          \<and> emojiVariants w' = [''hand'' \<mapsto> 2]"
    using rel [unfolded eq, rule_format, of "(110, 71)" 2 "(110, 71)"] ins n
    by (simp add: panel_emoji_fields nh)
  have ls: "same_layout panel_emoji panel_stored" by (rule same_layout_panel_stored)
  have fs: "columnCount panel_stored = 8" "pressedSel panel_stored = -1"
    "pickerSel panel_stored = -1" "picker panel_stored = picker_ex"
    "selected panel_stored = -1" "showPickerTimer panel_stored = None"
    "emojiVariants panel_stored ''hand'' = Some 0"
    by (simp_all add: panel_stored_def panel_emoji_fields)
  have es: "emojiAt panel_stored = emojiAt panel_emoji"
    by (rule emojiAt_cong) (simp add: panel_stored_def)
  have cols: "0 < columnCount panel_stored" by (simp add: fs)
  have idles: "pressedSel panel_stored < 0" "pickerSel panel_stored < 0"
    "hidden (picker panel_stored)" "showPickerTimer panel_stored = None"
    by (simp_all add: fs picker_ex_def)
  have ixs: "indexAt layout_ex panel_stored (10, 20) = Some 0"
    by (simp add: same_layout_indexAt [OF ls] indexAt_panel_emoji)
  have ds: "decodes layout_ex panel_stored (selected panel_stored)"
    "decodes layout_ex panel_stored 0"
    by (simp_all add: same_layout_decodes [OF ls] fs decodes_panel_emoji)
  have its: "emojiAt panel_stored 0 0 = Some hand" by (simp add: es emojiAt_panel_emoji)
  have st: "emojiVariants panel_stored (nonColoredId hand) = Some 0" by (simp add: nh fs)
  have two: "\<exists>w1. mousePressEvent layout_ex (10, 20) True panel_stored = Some w1
          \<and> hidden (picker w1) \<and> showPickerTimer w1 = Some 500 \<and> pickerSel w1 = 0"
    using variant_overlay [OF cols idles ds(1) ixs ds(2) _ layout_ex_simps(1) its
        hasVariants_simps(1), THEN conjunct2]
      st
    by simp
  show ?thesis
    using indexAt_panel_emoji(2) emojiAt_panel_emoji(2) hasVariants_simps(1) none
      press_panel_emoji ins n one ixs its st two
    by (simp add: panel_shown_fields picker_open_fields)
qed

lemma press_panel_open:
  "mousePressEvent layout_ex (10, 20) True panel_open
     = Some (panel_open\<lparr>picker := hideAnimatedP style_ex False picker_open, pickerSel := -1\<rparr>)"
proof -
  have w0: "panel_open\<lparr>lastMousePos := (10, 20)\<rparr> = panel_open"
    by (simp add: panel_open_def panel_shown_def)
  have u0: "updateSelected layout_ex panel_open = Some panel_open"
    by (simp add: updateSelected_eq panel_open_fields)
  define wx where
    "wx = panel_open\<lparr>picker := hideAnimatedP style_ex False picker_open, pickerSel := -1\<rparr>"
  have lx: "same_layout panel_emoji wx"
    using same_layout_panel_open by (simp add: same_layout_def wx_def)
  have fx: "pressedSel wx = -1" "pickerSel wx = -1" "lastMousePos wx = (10, 20)"
    "selected wx = 0"
    by (simp_all add: wx_def panel_open_fields)
  have ix: "indexAt layout_ex wx (10, 20) = Some 0"
    by (simp add: same_layout_indexAt [OF lx] indexAt_panel_emoji)
  have ux: "updateSelected layout_ex wx = Some wx"
    by (simp add: updateSelected_eq fx ix setSelected_def)
  have chk: "checkPickerHide layout_ex panel_open = Some (True, wx)"
    using ux by (simp add: checkPickerHide_def panel_open_fields picker_open_fields wx_def)
  show ?thesis
    unfolding mousePressEvent_def w0 using u0 chk by (simp add: wx_def)
qed

text \<open>
  C7 as stated fails for a press that finds the overlay open: on the panel with the
  overlay open over the item at index 0, which has variants and no stored preference,
  a press on that item completes with the overlay hiding, no overlay target, no
  pressed index and no timer armed. The press is spent on closing the overlay.
\<close>

theorem variant_overlay_counterexample:
  "indexAt layout_ex panel_open (10, 20) = Some 0
   \<and> emojiAt panel_open 0 0 = Some hand \<and> hasVariants hand
   \<and> emojiVariants panel_open (nonColoredId hand) = None
   \<and> \<not> hidden (picker panel_open) \<and> \<not> hiding (picker panel_open)
   \<and> pickerSel panel_open = 0 \<and> pressedSel panel_open = -1
   \<and> (\<exists>w1. mousePressEvent layout_ex (10, 20) True panel_open = Some w1
          \<and> hiding (picker w1) \<and> pickerSel w1 = -1 \<and> pressedSel w1 = -1
          \<and> showPickerTimer w1 = None)"
proof -
  have ix: "indexAt layout_ex panel_open (10, 20) = Some 0"
    by (simp add: same_layout_indexAt [OF same_layout_panel_open] indexAt_panel_emoji)
  have hd: "\<not> hiding picker_open" by (simp add: picker_open_def picker_ex_def)
  show ?thesis
    using ix hd
    by (simp add: press_panel_open emojiAt_panel_open emojiAt_panel_emoji hasVariants_simps
        panel_open_fields picker_open_fields)
qed

end
